(* ===== verification/Prelude.thy ===== *)
theory Prelude
  imports Main "HOL-Library.Word" "HOL-Library.List_Lexorder" "HOL-Library.Char_ord"
begin

text \<open>
  What every theory of the development shares: the widths of the machine integers, the
  result type of fallible code, the lemma collections that the component proofs use, and
  generic facts on lists, association lists and folds.

  A Rust \<open>&str\<close> or \<open>String\<close> and a \<open>[u8]\<close> buffer are both modelled by their list of
  bytes: \<open>string\<close>, a list of \<open>char\<close>, where \<open>char\<close> has exactly 256 values. So
  \<open>length\<close> is the byte length that \<open>str::len\<close> returns and \<open>as_bytes\<close> is the identity.
\<close>

section \<open>Types\<close>

type_synonym u8 = "8 word"
type_synonym u16 = "16 word"
type_synonym u64 = "64 word"
type_synonym bytes = "char list"

text \<open>
  The result of a Rust function that may fail: \<open>Ok\<close>, \<open>Err\<close> with the error value, or a
  panic (\<open>expect\<close> on an error, an arithmetic overflow check).
\<close>

datatype ('a, 'e) rust = Ok 'a | Err 'e | Panic string

fun rbind :: "('a, 'e) rust \<Rightarrow> ('a \<Rightarrow> ('b, 'e) rust) \<Rightarrow> ('b, 'e) rust" where
  "rbind (Ok x) f = f x"
| "rbind (Err e) f = Err e"
| "rbind (Panic m) f = Panic m"

section \<open>Lemma collections\<close>

named_theorems frame_simps \<open>what an operation leaves unchanged\<close>
named_theorems inv_intros \<open>operations that preserve an invariant\<close>
named_theorems str_simps \<open>unfolding of the string operations on literals\<close>

section \<open>Results\<close>

lemma rbind_eq_Ok [simp]: "rbind r f = Ok y \<longleftrightarrow> (\<exists>x. r = Ok x \<and> f x = Ok y)"
  by (cases r) auto

lemma rbind_assoc: "rbind (rbind r f) g = rbind r (\<lambda>x. rbind (f x) g)"
  by (cases r) auto

lemma rbind_cong [fundef_cong]:
  "r = r' \<Longrightarrow> (\<And>x. r' = Ok x \<Longrightarrow> f x = g x) \<Longrightarrow> rbind r f = rbind r' g"
  by (cases r') auto

section \<open>Association lists\<close>

text \<open>
  A hash map whose iteration order can be observed is an association list with distinct
  keys: the list order is the (unspecified) iteration order.
\<close>

fun al_put :: "'k \<Rightarrow> 'v \<Rightarrow> ('k \<times> 'v) list \<Rightarrow> ('k \<times> 'v) list" where
  "al_put k v [] = [(k, v)]"
| "al_put k v ((a, b) # m) = (if a = k then (k, v) # m else (a, b) # al_put k v m)"

fun al_del :: "'k \<Rightarrow> ('k \<times> 'v) list \<Rightarrow> ('k \<times> 'v) list" where
  "al_del k [] = []"
| "al_del k ((a, b) # m) = (if a = k then al_del k m else (a, b) # al_del k m)"

lemma map_of_al_put [simp]: "map_of (al_put k v m) = (map_of m)(k \<mapsto> v)"
  by (induction k v m rule: al_put.induct) (auto simp: fun_eq_iff)

lemma map_of_al_del [simp]: "map_of (al_del k m) = (map_of m)(k := None)"
  by (induction k m rule: al_del.induct) (auto simp: fun_eq_iff)

lemma keys_al_put [simp]: "fst ` set (al_put k v m) = insert k (fst ` set m)"
  by (induction k v m rule: al_put.induct) auto

lemma keys_al_del [simp]: "fst ` set (al_del k m) = fst ` set m - {k}"
  by (induction k m rule: al_del.induct) auto

lemma distinct_al_put [simp]: "distinct (map fst m) \<Longrightarrow> distinct (map fst (al_put k v m))"
  by (induction k v m rule: al_put.induct) auto

lemma distinct_al_del [simp]: "distinct (map fst m) \<Longrightarrow> distinct (map fst (al_del k m))"
  by (induction k m rule: al_del.induct) auto

lemma length_al_put:
  "length (al_put k v m) = (if k \<in> fst ` set m then length m else Suc (length m))"
  by (induction k v m rule: al_put.induct) auto

lemma length_al_del_le: "length (al_del k m) \<le> length m"
  by (induction k m rule: al_del.induct) auto

lemma length_al_del_less: "k \<in> fst ` set m \<Longrightarrow> length (al_del k m) < length m"
  by (induction k m rule: al_del.induct) (auto simp: le_imp_less_Suc length_al_del_le)

lemma set_al_put_subset: "set (al_put k v m) \<subseteq> insert (k, v) (set m)"
  by (induction k v m rule: al_put.induct) auto

lemma set_al_del_subset: "set (al_del k m) \<subseteq> set m"
  by (induction k m rule: al_del.induct) auto

section \<open>The interface of a keyed store\<close>

text \<open>
  What the code relies on of a map with a size: the shards of the rate limiter, the
  registry of open WebSockets and the table of method masks are such stores. The lemma
  that a full store which evicts before it inserts stays within its capacity is proved
  here once.
\<close>

locale keyed_store =
  fixes lookup :: "'m \<Rightarrow> 'k \<Rightarrow> 'v option"
    and put :: "'k \<Rightarrow> 'v \<Rightarrow> 'm \<Rightarrow> 'm"
    and del :: "'k \<Rightarrow> 'm \<Rightarrow> 'm"
    and card_of :: "'m \<Rightarrow> nat"
    and ok :: "'m \<Rightarrow> bool"
  assumes lookup_put: "ok m \<Longrightarrow> lookup (put k v m) = (lookup m)(k \<mapsto> v)"
    and lookup_del: "ok m \<Longrightarrow> lookup (del k m) = (lookup m)(k := None)"
    and card_put: "ok m \<Longrightarrow>
      card_of (put k v m) = (if lookup m k = None then Suc (card_of m) else card_of m)"
    and card_del: "ok m \<Longrightarrow> lookup m k \<noteq> None \<Longrightarrow> card_of (del k m) < card_of m"
    and ok_put: "ok m \<Longrightarrow> ok (put k v m)"
    and ok_del: "ok m \<Longrightarrow> ok (del k m)"
begin

lemma put_get: "ok m \<Longrightarrow> lookup (put k v m) k = Some v"
  by (simp add: lookup_put)

lemma put_other: "ok m \<Longrightarrow> k' \<noteq> k \<Longrightarrow> lookup (put k v m) k' = lookup m k'"
  by (simp add: lookup_put)

lemma del_get: "ok m \<Longrightarrow> lookup (del k m) k = None"
  by (simp add: lookup_del)

lemma put_known_card: "ok m \<Longrightarrow> lookup m k \<noteq> None \<Longrightarrow> card_of (put k v m) = card_of m"
  by (simp add: card_put)

lemma evict_put_bound:
  assumes "ok m" "card_of m \<le> cap" "0 < cap"
    and "cap \<le> card_of m \<Longrightarrow> lookup m victim \<noteq> None"
  shows "card_of (put k v (if cap \<le> card_of m then del victim m else m)) \<le> cap"
proof (cases "cap \<le> card_of m")
  case True
  then have "card_of (del victim m) < card_of m" using assms by (intro card_del) auto
  with True show ?thesis using assms ok_del [OF assms(1)] by (simp add: card_put)
next
  case False
  with assms show ?thesis by (simp add: card_put)
qed

end

interpretation al: keyed_store map_of al_put al_del length "\<lambda>m. distinct (map fst m)"
proof
  fix m :: "('a \<times> 'b) list" and k v
  show "length (al_put k v m) = (if map_of m k = None then Suc (length m) else length m)"
    by (simp add: length_al_put map_of_eq_None_iff)
  show "map_of m k \<noteq> None \<Longrightarrow> length (al_del k m) < length m"
    by (rule length_al_del_less) (simp add: map_of_eq_None_iff)
qed simp_all

section \<open>The interface of a state machine\<close>

text \<open>
  What a component with operations promises: its invariant holds at the start and every
  operation keeps it. Then it holds after any sequence of operations.
\<close>

locale op_machine =
  fixes step :: "'o \<Rightarrow> 's \<Rightarrow> 's" and inv :: "'s \<Rightarrow> bool"
  assumes step_inv: "inv s \<Longrightarrow> inv (step a s)"
begin

lemma run_inv: "inv s \<Longrightarrow> inv (fold step ops s)"
  by (induction ops arbitrary: s) (auto intro: step_inv)

end

section \<open>Lists\<close>

lemma list_all_filter [simp]: "list_all P xs \<Longrightarrow> list_all P (filter Q xs)"
  by (auto simp: list_all_iff)

lemma find_Some_set: "find P xs = Some x \<Longrightarrow> x \<in> set xs \<and> P x"
  by (auto simp: find_Some_iff)

lemma filter_eq_filter_iff: "(\<forall>x\<in>set xs. P x = Q x) \<Longrightarrow> filter P xs = filter Q xs"
  by (rule filter_cong) auto

end
