(* ===== verification/F64.thy ===== *)
theory F64
  imports RustStr Complex_Main
begin

text \<open>
  Rust's \<open>f64\<close>: IEEE 754 binary64 arithmetic with round-to-nearest, ties to even, over
  exact rationals. A finite value is a rational (\<open>+0\<close> and \<open>-0\<close> are identified: the
  sources never divide by a negative zero nor print one). Every operation computes the
  exact result and rounds it with \<open>f64_round\<close>; overflow gives an infinity; the
  operations on infinities and NaN follow the standard. The general facts on rounding
  are proved once in the locale \<open>rounding\<close>, which states what any rounding to nearest
  satisfies, and transferred to \<open>rnd\<close> by its interpretation.
\<close>

section \<open>Rounding\<close>

text \<open>\<open>floor (log2 n)\<close> of a positive natural.\<close>

fun ilog2 :: "nat \<Rightarrow> nat" where
  "ilog2 n = (if n \<le> 1 then 0 else Suc (ilog2 (n div 2)))"

declare ilog2.simps [simp del]

text \<open>\<open>floor (log2 x)\<close> of a positive rational, from numerator and denominator.\<close>

definition flog2 :: "rat \<Rightarrow> int" where
  "flog2 x =
     (let (p, q) = quotient_of x;
          e = int (ilog2 (nat p)) - int (ilog2 (nat q))
      in if 2 powi e \<le> x then e else e - 1)"

text \<open>Round to the nearest integer, ties to even.\<close>

definition rne :: "rat \<Rightarrow> int" where
  "rne x =
     (let f = \<lfloor>x\<rfloor>; d = x - of_int f
      in if d < 1 / 2 then f else if 1 / 2 < d then f + 1 else if even f then f else f + 1)"

text \<open>The exponent of the last place of the format at \<open>x\<close>: 53 bits, at least \<open>-1074\<close>.\<close>

definition ulp_exp :: "rat \<Rightarrow> int" where
  "ulp_exp x = max (- 1074) (flog2 \<bar>x\<bar> - 52)"

text \<open>The nearest multiple of the unit in the last place (exponent unbounded above).\<close>

definition rnd :: "rat \<Rightarrow> rat" where
  "rnd x = (if x = 0 then 0 else of_int (rne (x / 2 powi ulp_exp x)) * 2 powi ulp_exp x)"

section \<open>Values and operations\<close>

datatype f64 = NaN | PInf | NInf | Fin rat

definition f64_round :: "rat \<Rightarrow> f64" where
  "f64_round x =
     (let r = rnd x in if 2 ^ 1024 \<le> r then PInf else if r \<le> - (2 ^ 1024) then NInf else Fin r)"

fun f64_neg :: "f64 \<Rightarrow> f64" where
  "f64_neg NaN = NaN" | "f64_neg PInf = NInf" | "f64_neg NInf = PInf" | "f64_neg (Fin x) = Fin (- x)"

fun f64_add :: "f64 \<Rightarrow> f64 \<Rightarrow> f64" where
  "f64_add NaN _ = NaN"
| "f64_add _ NaN = NaN"
| "f64_add PInf NInf = NaN"
| "f64_add NInf PInf = NaN"
| "f64_add PInf _ = PInf"
| "f64_add _ PInf = PInf"
| "f64_add NInf _ = NInf"
| "f64_add _ NInf = NInf"
| "f64_add (Fin x) (Fin y) = f64_round (x + y)"

definition f64_sub :: "f64 \<Rightarrow> f64 \<Rightarrow> f64" where
  "f64_sub a b = f64_add a (f64_neg b)"

definition inf_of_sign :: "rat \<Rightarrow> f64" where
  "inf_of_sign x = (if 0 < x then PInf else if x < 0 then NInf else NaN)"

fun f64_mul :: "f64 \<Rightarrow> f64 \<Rightarrow> f64" where
  "f64_mul NaN _ = NaN"
| "f64_mul _ NaN = NaN"
| "f64_mul PInf PInf = PInf"
| "f64_mul PInf NInf = NInf"
| "f64_mul NInf PInf = NInf"
| "f64_mul NInf NInf = PInf"
| "f64_mul PInf (Fin y) = inf_of_sign y"
| "f64_mul NInf (Fin y) = inf_of_sign (- y)"
| "f64_mul (Fin x) PInf = inf_of_sign x"
| "f64_mul (Fin x) NInf = inf_of_sign (- x)"
| "f64_mul (Fin x) (Fin y) = f64_round (x * y)"

fun f64_div :: "f64 \<Rightarrow> f64 \<Rightarrow> f64" where
  "f64_div NaN _ = NaN"
| "f64_div _ NaN = NaN"
| "f64_div PInf (Fin y) = (if 0 \<le> y then PInf else NInf)"
| "f64_div NInf (Fin y) = (if 0 \<le> y then NInf else PInf)"
| "f64_div PInf _ = NaN"
| "f64_div NInf _ = NaN"
| "f64_div (Fin x) PInf = Fin 0"
| "f64_div (Fin x) NInf = Fin 0"
| "f64_div (Fin x) (Fin y) = (if y = 0 then inf_of_sign x else f64_round (x / y))"

text \<open>Comparisons are false on NaN.\<close>

fun f64_le :: "f64 \<Rightarrow> f64 \<Rightarrow> bool" where
  "f64_le NaN _ = False"
| "f64_le _ NaN = False"
| "f64_le NInf _ = True"
| "f64_le _ PInf = True"
| "f64_le (Fin x) (Fin y) = (x \<le> y)"
| "f64_le _ _ = False"

text \<open>\<open>f64::min\<close> and \<open>f64::max\<close> return the other argument when one is NaN.\<close>

definition f64_min :: "f64 \<Rightarrow> f64 \<Rightarrow> f64" where
  "f64_min a b = (if a = NaN then b else if b = NaN then a else if f64_le a b then a else b)"

definition f64_max :: "f64 \<Rightarrow> f64 \<Rightarrow> f64" where
  "f64_max a b = (if a = NaN then b else if b = NaN then a else if f64_le a b then b else a)"

fun f64_floor :: "f64 \<Rightarrow> f64" where
  "f64_floor (Fin x) = Fin (of_int \<lfloor>x\<rfloor>)" | "f64_floor a = a"

fun f64_ceil :: "f64 \<Rightarrow> f64" where
  "f64_ceil (Fin x) = Fin (of_int \<lceil>x\<rceil>)" | "f64_ceil a = a"

text \<open>\<open>as u64\<close> saturates and sends NaN to 0; \<open>as f64\<close> of a \<open>u64\<close> rounds.\<close>

fun f64_to_u64 :: "f64 \<Rightarrow> u64" where
  "f64_to_u64 NaN = 0"
| "f64_to_u64 PInf = - 1"
| "f64_to_u64 NInf = 0"
| "f64_to_u64 (Fin x) =
     (if x \<le> 0 then 0 else if 2 ^ 64 \<le> x then - 1 else word_of_int \<lfloor>x\<rfloor>)"

definition f64_of_u64 :: "u64 \<Rightarrow> f64" where
  "f64_of_u64 w = f64_round (of_nat (unat w))"

text \<open>
  \<open>str::parse::<f64>\<close>: an optional sign, then \<open>inf\<close>, \<open>infinity\<close> or \<open>nan\<close> in any case,
  or digits with an optional fraction (at least one digit in all) and an optional
  exponent; the value is the correctly rounded decimal.
\<close>

definition parse_exp :: "string \<Rightarrow> int option" where
  "parse_exp s =
     (case s of
        [] \<Rightarrow> None
      | c # r \<Rightarrow>
         if c = CHR ''-'' then map_option (\<lambda>n. - int n) (parse_digits r)
         else if c = CHR ''+'' then map_option int (parse_digits r)
         else map_option int (parse_digits s))"

definition parse_decimal :: "string \<Rightarrow> rat option" where
  "parse_decimal s =
     (let i = takeWhile is_ascii_digit s;
          r = dropWhile is_ascii_digit s;
          (f, e) = (case r of
                      [] \<Rightarrow> ([], [])
                    | c # r' \<Rightarrow>
                        if c = CHR ''.''
                        then (takeWhile is_ascii_digit r', dropWhile is_ascii_digit r')
                        else ([], r));
          m = (of_nat (digits_val 0 (i @ f)) :: rat) / 10 ^ length f
      in if i @ f = [] then None
         else case e of
                [] \<Rightarrow> Some m
              | c # r' \<Rightarrow>
                  if c = CHR ''e'' \<or> c = CHR ''E''
                  then map_option (\<lambda>x. m * 10 powi x) (parse_exp r')
                  else None)"

definition parse_f64 :: "string \<Rightarrow> f64 option" where
  "parse_f64 s =
     (let neg = (case s of c # _ \<Rightarrow> c = CHR ''-'' | [] \<Rightarrow> False);
          b = (case s of c # r \<Rightarrow> if c = CHR ''+'' \<or> c = CHR ''-'' then r else s | [] \<Rightarrow> s);
          v = (if eq_ignore_ascii_case b ''inf'' \<or> eq_ignore_ascii_case b ''infinity'' then Some PInf
               else if eq_ignore_ascii_case b ''nan'' then Some NaN
               else map_option f64_round (parse_decimal b))
      in map_option (\<lambda>x. if neg then f64_neg x else x) v)"

section \<open>The logarithm\<close>

lemma ilog2_bounds: "0 < n \<Longrightarrow> 2 ^ ilog2 n \<le> n \<and> n < 2 ^ Suc (ilog2 n)"
proof (induction n rule: ilog2.induct)
  case (1 n)
  show ?case
  proof (cases "n \<le> 1")
    case True
    with 1 show ?thesis by (simp add: ilog2.simps [of n])
  next
    case False
    with 1 have "2 ^ ilog2 (n div 2) \<le> n div 2 \<and> n div 2 < 2 ^ Suc (ilog2 (n div 2))" by simp
    with False show ?thesis by (simp add: ilog2.simps [of n]) linarith
  qed
qed

lemma ilog2_bounds_rat:
  assumes "0 < p"
  shows "2 powi int (ilog2 (nat p)) \<le> (of_int p :: rat)"
    and "(of_int p :: rat) < 2 powi (int (ilog2 (nat p)) + 1)"
proof -
  let ?k = "ilog2 (nat p)"
  have "2 ^ ?k \<le> nat p" "nat p < 2 ^ Suc ?k"
    using ilog2_bounds [of "nat p"] assms by auto
  then have "(of_nat (2 ^ ?k) :: rat) \<le> of_nat (nat p)" "(of_nat (nat p) :: rat) < of_nat (2 ^ Suc ?k)"
    by (simp_all only: of_nat_le_iff of_nat_less_iff)
  with assms show "2 powi int ?k \<le> (of_int p :: rat)"
    "(of_int p :: rat) < 2 powi (int ?k + 1)"
    by (simp_all add: power_int_add)
qed

lemma flog2_bounds:
  assumes "0 < x"
  shows "2 powi flog2 x \<le> x" "x < 2 powi (flog2 x + 1)"
proof -
  obtain p q where pq: "quotient_of x = (p, q)" by (cases "quotient_of x")
  then have q: "0 < q" and x: "x = of_int p / of_int q"
    by (auto simp: quotient_of_denom_pos quotient_of_div)
  with assms have p: "0 < p" by (simp add: zero_less_divide_iff)
  define a b where "a = int (ilog2 (nat p))" and "b = int (ilog2 (nat q))"
  note P = ilog2_bounds_rat [OF p, folded a_def] and Q = ilog2_bounds_rat [OF q, folded b_def]
  have up: "x < 2 powi (a - b + 1)"
  proof -
    have "x < 2 powi (a + 1) / 2 powi b"
      unfolding x using P Q q p by (intro frac_less) auto
    then show ?thesis by (simp add: power_int_add power_int_diff)
  qed
  have lo: "2 powi (a - b - 1) \<le> x"
  proof -
    have "2 powi a / 2 powi (b + 1) \<le> x"
      unfolding x using P Q q p by (intro frac_le) auto
    then show ?thesis by (simp add: power_int_add power_int_diff)
  qed
  have fl: "flog2 x = (if 2 powi (a - b) \<le> x then a - b else a - b - 1)"
    by (simp add: flog2_def pq a_def b_def)
  show "2 powi flog2 x \<le> x" "x < 2 powi (flog2 x + 1)"
    using up lo by (auto simp: fl)
qed

lemma powi2_less_iff [simp]: "(2 :: rat) powi a < 2 powi b \<longleftrightarrow> a < b"
  by (metis linorder_cases one_less_numeral_iff order.asym order.irrefl
      power_int_strict_increasing semiring_norm(76))

lemma powi2_le_iff [simp]: "(2 :: rat) powi a \<le> 2 powi b \<longleftrightarrow> a \<le> b"
  by (meson not_le powi2_less_iff)

lemma flog2_mono: "0 < x \<Longrightarrow> x \<le> y \<Longrightarrow> flog2 x \<le> flog2 y"
proof -
  assume "0 < x" "x \<le> y"
  then have "2 powi flog2 x < (2 :: rat) powi (flog2 y + 1)"
    using flog2_bounds [of x] flog2_bounds [of y] by linarith
  then show ?thesis by simp
qed

lemma flog2_less: "0 < x \<Longrightarrow> x < 2 powi k \<Longrightarrow> flog2 x < k"
  using flog2_bounds(1) [of x] by (metis le_less_trans powi2_less_iff)

section \<open>Rounding to an integer\<close>

lemma rne_mono: "x \<le> y \<Longrightarrow> rne x \<le> rne y"
proof -
  assume xy: "x \<le> y"
  then have f: "\<lfloor>x\<rfloor> \<le> \<lfloor>y\<rfloor>" by (rule floor_mono)
  show "rne x \<le> rne y"
  proof (cases "\<lfloor>x\<rfloor> = \<lfloor>y\<rfloor>")
    case True
    with xy show ?thesis by (auto simp: rne_def Let_def)
  next
    case False
    with f have "\<lfloor>x\<rfloor> + 1 \<le> \<lfloor>y\<rfloor>" by simp
    moreover have "rne x \<le> \<lfloor>x\<rfloor> + 1" "\<lfloor>y\<rfloor> \<le> rne y" by (auto simp: rne_def Let_def)
    ultimately show ?thesis by simp
  qed
qed

lemma rne_of_int [simp]: "rne (of_int n) = n"
  by (simp add: rne_def)

lemma rne_0 [simp]: "rne 0 = 0"
  using rne_of_int [of 0] by simp

lemma rne_error: "\<bar>of_int (rne x) - x\<bar> \<le> 1 / 2"
proof -
  have "of_int \<lfloor>x\<rfloor> \<le> x" "x < of_int \<lfloor>x\<rfloor> + 1" by linarith+
  then show ?thesis by (simp add: rne_def Let_def abs_le_iff)
qed

lemma rne_neg: "rne (- x) = - rne x"
proof (cases "x \<in> \<int>")
  case True
  then obtain n where "x = of_int n" by (auto elim: Ints_cases)
  then show ?thesis by (metis of_int_minus rne_of_int)
next
  case False
  then have "x \<noteq> of_int \<lfloor>x\<rfloor>" by (metis Ints_of_int)
  then have c: "\<lfloor>- x\<rfloor> = - \<lfloor>x\<rfloor> - 1" by linarith
  have e: "even (- \<lfloor>x\<rfloor> - 1) \<longleftrightarrow> odd \<lfloor>x\<rfloor>" by simp
  show ?thesis
    by (auto simp: rne_def Let_def c e)
qed

section \<open>Rounding to the format\<close>

lemma rnd_0 [simp]: "rnd 0 = 0"
  by (simp add: rnd_def)

lemma ulp_exp_neg [simp]: "ulp_exp (- x) = ulp_exp x"
  by (simp add: ulp_exp_def)

lemma rnd_neg: "rnd (- x) = - rnd x"
  by (simp add: rnd_def rne_neg)

text \<open>A multiple of a power of two that is at least the unit in the last place is exact.\<close>

lemma rnd_multiple:
  assumes "ulp_exp x \<le> e" "x = of_int k * 2 powi e"
  shows "rnd x = x"
proof (cases "x = 0")
  case False
  define d where "d = nat (e - ulp_exp x)"
  have "e = ulp_exp x + int d" using assms(1) by (simp add: d_def)
  then have "2 powi e = 2 ^ d * (2 powi ulp_exp x :: rat)" by (simp add: power_int_add)
  then have "x = of_int (k * 2 ^ d) * 2 powi ulp_exp x"
    by (subst assms(2)) simp
  then have "x / 2 powi ulp_exp x = of_int (k * 2 ^ d)"
    by (metis nonzero_mult_div_cancel_right power_int_not_zero zero_neq_numeral)
  with False show ?thesis
    by (metis rnd_def rne_of_int \<open>x = of_int (k * 2 ^ d) * 2 powi ulp_exp x\<close>)
qed simp

text \<open>Every value of at most 53 significant bits is exact.\<close>

lemma rnd_53_bits:
  assumes "\<bar>k\<bar> \<le> 2 ^ 53" "- 1074 \<le> e"
  shows "rnd (of_int k * 2 powi e) = of_int k * 2 powi e"
proof (cases "k = 0")
  case False
  let ?x = "of_int k * 2 powi e :: rat"
  have abs: "\<bar>?x\<bar> = of_int \<bar>k\<bar> * 2 powi e" by (simp add: abs_mult)
  have pos: "0 < \<bar>?x\<bar>" using False by simp
  show ?thesis
  proof (cases "\<bar>k\<bar> < 2 ^ 53")
    case True
    then have "of_int \<bar>k\<bar> < (2 :: rat) ^ 53" by (metis of_int_less_iff of_int_numeral of_int_power)
    then have "\<bar>?x\<bar> < 2 powi (e + 53)" unfolding abs by (simp add: power_int_add)
    then have "flog2 \<bar>?x\<bar> < e + 53" by (rule flog2_less [OF pos])
    with assms(2) have "ulp_exp ?x \<le> e" by (simp add: ulp_exp_def)
    then show ?thesis by (rule rnd_multiple) simp
  next
    case eq: False
    with assms(1) have k: "\<bar>k\<bar> = 2 ^ 53" by simp
    then have "\<bar>?x\<bar> = 2 powi (e + 53)" unfolding abs by (simp add: power_int_add)
    then have "flog2 \<bar>?x\<bar> < e + 54" by (intro flog2_less [OF pos]) simp
    with assms(2) have u: "ulp_exp ?x \<le> e + 1" by (simp add: ulp_exp_def)
    define j :: int where "j = (if 0 < k then 2 ^ 52 else - (2 ^ 52))"
    have "k = 2 * j" using k by (auto simp: j_def)
    then have "?x = of_int j * 2 powi (e + 1)" by (simp add: power_int_add)
    with u show ?thesis by (rule rnd_multiple)
  qed
qed simp

lemma rnd_le_pow2:
  assumes "0 \<le> x" "x \<le> 2 powi m" "ulp_exp x \<le> m"
  shows "rnd x \<le> 2 powi m"
proof (cases "x = 0")
  case False
  define d where "d = nat (m - ulp_exp x)"
  have m: "m = ulp_exp x + int d" using assms(3) by (simp add: d_def)
  with assms(2) have "x / 2 powi ulp_exp x \<le> of_int (2 ^ d)"
    by (simp add: divide_le_eq power_int_add mult.commute)
  then have "rne (x / 2 powi ulp_exp x) \<le> 2 ^ d" by (metis rne_mono rne_of_int)
  then have "of_int (rne (x / 2 powi ulp_exp x)) \<le> (2 :: rat) ^ d"
    by (metis of_int_le_iff of_int_numeral of_int_power)
  with False m show ?thesis by (simp add: rnd_def power_int_add mult.commute)
qed simp

lemma pow2_le_rnd:
  assumes "2 powi m \<le> x" "ulp_exp x \<le> m"
  shows "2 powi m \<le> rnd x"
proof -
  have x0: "x \<noteq> 0" using assms(1) by (metis not_le zero_less_numeral zero_less_power_int)
  define d where "d = nat (m - ulp_exp x)"
  have m: "m = ulp_exp x + int d" using assms(2) by (simp add: d_def)
  with assms(1) have "of_int (2 ^ d) \<le> x / 2 powi ulp_exp x"
    by (simp add: le_divide_eq power_int_add mult.commute)
  then have "2 ^ d \<le> rne (x / 2 powi ulp_exp x)" by (metis rne_mono rne_of_int)
  then have "(2 :: rat) ^ d \<le> of_int (rne (x / 2 powi ulp_exp x))"
    by (metis of_int_le_iff of_int_numeral of_int_power)
  with x0 m show ?thesis by (simp add: rnd_def power_int_add mult.commute)
qed

lemma rnd_nonneg: "0 \<le> x \<Longrightarrow> 0 \<le> rnd x"
proof -
  assume "0 \<le> x"
  then have "0 \<le> x / 2 powi ulp_exp x" by simp
  then have "0 \<le> rne (x / 2 powi ulp_exp x)" by (metis rne_0 rne_mono)
  then show ?thesis by (simp add: rnd_def)
qed

lemma rnd_mono_pos:
  assumes "0 < x" "x \<le> y"
  shows "rnd x \<le> rnd y"
proof -
  have y: "0 < y" using assms by simp
  have le: "ulp_exp x \<le> ulp_exp y"
    using flog2_mono [OF assms] assms y by (simp add: ulp_exp_def)
  show ?thesis
  proof (cases "ulp_exp x = ulp_exp y")
    case True
    have "x / 2 powi ulp_exp y \<le> y / 2 powi ulp_exp y" using assms by (simp add: divide_right_mono)
    then have "rne (x / 2 powi ulp_exp y) \<le> rne (y / 2 powi ulp_exp y)" by (rule rne_mono)
    with True assms y show ?thesis by (simp add: rnd_def)
  next
    case False
    with le have less: "ulp_exp x < ulp_exp y" by simp
    then have uy: "ulp_exp y = flog2 y - 52" using y unfolding ulp_exp_def by linarith
    have "flog2 x < flog2 y"
    proof (rule ccontr)
      assume "\<not> flog2 x < flog2 y"
      then have "flog2 x = flog2 y" using flog2_mono [OF assms] by simp
      with less assms y show False by (simp add: ulp_exp_def)
    qed
    then have "x < 2 powi flog2 y"
      using flog2_bounds(2) [OF assms(1)]
      by (meson less_le_trans powi2_le_iff zless_imp_add1_zle)
    then have "rnd x \<le> 2 powi flog2 y"
      using assms(1) less uy by (intro rnd_le_pow2) auto
    also have "\<dots> \<le> rnd y"
      using flog2_bounds(1) [OF y] uy by (intro pow2_le_rnd) auto
    finally show ?thesis .
  qed
qed

lemma rnd_mono: "x \<le> y \<Longrightarrow> rnd x \<le> rnd y"
proof -
  assume xy: "x \<le> y"
  consider "0 < x" | "x = 0" | "x < 0" "0 \<le> y" | "x < 0" "y < 0" by linarith
  then show ?thesis
  proof cases
    case 1
    then show ?thesis using xy by (rule rnd_mono_pos)
  next
    case 2
    then show ?thesis using xy rnd_nonneg by simp
  next
    case 3
    then have "rnd x \<le> 0" using rnd_nonneg [of "- x"] by (simp add: rnd_neg)
    with 3 show ?thesis using rnd_nonneg [of y] by linarith
  next
    case 4
    then have "rnd (- y) \<le> rnd (- x)" using xy by (intro rnd_mono_pos) auto
    then show ?thesis by (simp add: rnd_neg)
  qed
qed

text \<open>The distance to the exact value: half a unit in the last place.\<close>

lemma rnd_error_ulp: "\<bar>rnd x - x\<bar> \<le> 2 powi ulp_exp x / 2"
proof (cases "x = 0")
  case False
  let ?u = "2 powi ulp_exp x :: rat"
  have "\<bar>of_int (rne (x / ?u)) - x / ?u\<bar> * ?u \<le> 1 / 2 * ?u"
    by (rule mult_right_mono [OF rne_error]) simp
  moreover have "\<bar>of_int (rne (x / ?u)) - x / ?u\<bar> * ?u = \<bar>(of_int (rne (x / ?u)) - x / ?u) * ?u\<bar>"
    by (simp add: abs_mult)
  moreover have "(of_int (rne (x / ?u)) - x / ?u) * ?u = rnd x - x"
    using False by (simp add: rnd_def left_diff_distrib)
  ultimately show ?thesis by simp
qed simp

lemma rnd_form: "\<exists>k. rnd x = of_int k * 2 powi ulp_exp x"
  by (cases "x = 0") (auto simp: rnd_def)

lemma rnd_idem: "rnd (rnd x) = rnd x"
proof (cases "x = 0")
  case False
  let ?u = "2 powi ulp_exp x :: rat" and ?k = "rne (x / 2 powi ulp_exp x)"
  have "flog2 \<bar>x\<bar> \<le> ulp_exp x + 52" by (simp add: ulp_exp_def)
  then have "(2 :: rat) powi (flog2 \<bar>x\<bar> + 1) \<le> 2 powi (ulp_exp x + 53)" by simp
  moreover have "\<bar>x\<bar> < 2 powi (flog2 \<bar>x\<bar> + 1)" using False by (intro flog2_bounds) simp
  ultimately have "\<bar>x\<bar> < 2 powi (ulp_exp x + 53)" by (rule less_le_trans [rotated])
  then have "\<bar>x\<bar> < 2 ^ 53 * ?u" by (simp add: power_int_add)
  then have b: "x / ?u \<le> of_int (2 ^ 53)" "of_int (- (2 ^ 53)) \<le> x / ?u"
    by (auto simp: divide_le_eq le_divide_eq abs_less_iff)
  have "?k \<le> 2 ^ 53" "- (2 ^ 53) \<le> ?k"
    using b [THEN rne_mono] by (simp_all only: rne_of_int)
  then have "\<bar>?k\<bar> \<le> 2 ^ 53" by (simp add: abs_le_iff)
  moreover have "- 1074 \<le> ulp_exp x" by (simp add: ulp_exp_def)
  ultimately have "rnd (of_int ?k * ?u) = of_int ?k * ?u" by (rule rnd_53_bits)
  moreover have "rnd x = of_int ?k * ?u" using False by (simp only: rnd_def if_False)
  ultimately show ?thesis by simp
qed simp

lemma rnd_of_int: "\<bar>n\<bar> \<le> 2 ^ 53 \<Longrightarrow> rnd (of_int n) = of_int n"
  using rnd_53_bits [of n 0] by simp

lemma rnd_minus_one:
  assumes "rnd x = x" "1 \<le> x" "x \<le> 2 ^ 53"
  shows "rnd (x - 1) = x - 1"
proof (cases "x = 2 ^ 53")
  case True
  have "rnd (of_int (2 ^ 53 - 1)) = of_int (2 ^ 53 - 1)" by (rule rnd_of_int) simp
  with True show ?thesis by simp
next
  case False
  obtain k where k: "x = of_int k * 2 powi ulp_exp x"
    using rnd_form [of x] assms(1) by metis
  have "2 powi 0 < (2 :: rat) powi (flog2 x + 1)"
    using flog2_bounds(2) [of x] assms(2) by simp
  then have lo: "0 \<le> flog2 x" by (simp only: powi2_less_iff)
  have "flog2 x < 53" using assms False by (intro flog2_less) auto
  then have u: "ulp_exp x = flog2 x - 52" "ulp_exp x \<le> 0" using lo assms(2) by (auto simp: ulp_exp_def)
  define j where "j = nat (- ulp_exp x)"
  have one: "2 ^ j * 2 powi ulp_exp x = (1 :: rat)"
    using u(2) by (simp add: j_def flip: power_int_of_nat power_int_add)
  have eq: "x - 1 = of_int (k - 2 ^ j) * 2 powi ulp_exp x"
    using k one by (simp add: left_diff_distrib)
  have "x < 2 ^ 53 * 2 powi ulp_exp x"
    using flog2_bounds(2) [of x] assms(2) u(1) by (simp add: power_int_add power_int_diff)
  then have "of_int (k - 2 ^ j) * 2 powi ulp_exp x < (2 ^ 53 :: rat) * 2 powi ulp_exp x"
    using eq assms(2) by linarith
  then have "of_int (k - 2 ^ j) < (of_int (2 ^ 53) :: rat)" by simp
  then have "k - 2 ^ j < 2 ^ 53" by (simp only: of_int_less_iff)
  moreover have "0 \<le> k - 2 ^ j"
  proof -
    have "0 \<le> of_int (k - 2 ^ j) * (2 powi ulp_exp x :: rat)" using eq assms(2) by simp
    moreover have "0 < (2 :: rat) powi ulp_exp x" by simp
    ultimately have "(0 :: rat) \<le> of_int (k - 2 ^ j)" by (simp only: zero_le_mult_iff) linarith
    then show ?thesis by (simp only: of_int_0_le_iff)
  qed
  moreover have "- 1074 \<le> ulp_exp x" by (simp add: ulp_exp_def)
  ultimately show ?thesis unfolding eq by (intro rnd_53_bits) auto
qed

definition eps53 :: rat where "eps53 = 1 / 2 ^ 53"
definition tiny :: rat where "tiny = 2 powi (- 1075)"

lemma tiny_nonneg [simp]: "0 \<le> tiny"
  by (simp only: tiny_def zero_le_power_int zero_le_numeral)

lemma powi_half: "(2 :: rat) powi e / 2 = 2 powi (e - 1)"
  by (simp add: power_int_diff)

lemma rnd_upper:
  assumes "0 \<le> x"
  shows "rnd x \<le> x * (1 + eps53) + tiny"
proof (cases "x = 0")
  case False
  with assms have x: "0 < x" by simp
  have "2 powi ulp_exp x / 2 \<le> x * eps53 + tiny"
  proof (cases "- 1074 \<le> flog2 x - 52")
    case True
    then have "2 powi ulp_exp x / 2 = 2 powi flog2 x * eps53"
      using x by (simp add: ulp_exp_def eps53_def power_int_diff)
    also have "\<dots> \<le> x * eps53"
      using flog2_bounds(1) [OF x] by (simp add: eps53_def)
    finally show ?thesis using tiny_nonneg by linarith
  next
    case False
    then have "ulp_exp x = - 1074" using x by (simp add: ulp_exp_def)
    then have "2 powi ulp_exp x / 2 = tiny"
      using powi_half [of "- 1074"] by (simp only: tiny_def) simp
    with x show ?thesis by (simp add: eps53_def)
  qed
  moreover have "rnd x - x \<le> 2 powi ulp_exp x / 2" using rnd_error_ulp [of x] by linarith
  ultimately show ?thesis by (simp add: distrib_left)
qed simp

section \<open>The interface of rounding\<close>

text \<open>
  What the token bucket needs from the rounding of the format, and the bucket arithmetic
  that follows: one refill stays between the old level and the capacity and over-credits
  by at most a relative \<open>eps53\<close> per operation, and taking one token is exact.
\<close>

locale rounding =
  fixes r :: "rat \<Rightarrow> rat" and eps tny :: rat
  assumes mono: "x \<le> y \<Longrightarrow> r x \<le> r y"
    and idem: "r (r x) = r x"
    and ints: "\<bar>n\<bar> \<le> 2 ^ 53 \<Longrightarrow> r (of_int n) = of_int n"
    and minus_one: "r x = x \<Longrightarrow> 1 \<le> x \<Longrightarrow> x \<le> 2 ^ 53 \<Longrightarrow> r (x - 1) = x - 1"
    and upper: "0 \<le> x \<Longrightarrow> r x \<le> x * (1 + eps) + tny"
    and eps_nonneg: "0 \<le> eps" "0 \<le> tny"
begin

lemma zero: "r 0 = 0"
  using ints [of 0] by simp

lemma nonneg: "0 \<le> x \<Longrightarrow> 0 \<le> r x"
  using mono [of 0 x] by (simp add: zero)

text \<open>A sum of an exact and a rounded part, rounded: the conversion of a duration.\<close>

lemma sum_upper:
  assumes "0 \<le> s" "0 \<le> n"
  shows "r (s + r n) \<le> (s + n) * (1 + eps) * (1 + eps) + (2 + eps) * tny"
proof -
  have rn: "r n \<le> n * (1 + eps) + tny" by (rule upper [OF assms(2)])
  have "r (s + r n) \<le> (s + r n) * (1 + eps) + tny"
    using assms nonneg by (intro upper) simp
  also have "\<dots> \<le> (s + (n * (1 + eps) + tny)) * (1 + eps) + tny"
    using rn eps_nonneg by (intro add_right_mono mult_right_mono) auto
  also have "\<dots> = (s + n) * (1 + eps) * (1 + eps) + (2 + eps) * tny - s * eps * (1 + eps)"
    by (simp add: algebra_simps)
  also have "\<dots> \<le> (s + n) * (1 + eps) * (1 + eps) + (2 + eps) * tny"
    using assms eps_nonneg by simp
  finally show ?thesis .
qed

text \<open>The level after a refill of exact size \<open>g\<close> from level \<open>t\<close> with capacity \<open>c\<close>.\<close>

lemma refill_range:
  assumes "r t = t" "0 \<le> t" "t \<le> c" "0 \<le> g"
  shows "t \<le> min (r (t + r g)) c" "min (r (t + r g)) c \<le> c"
proof -
  have "r t \<le> r (t + r g)" using nonneg [OF assms(4)] by (intro mono) simp
  with assms show "t \<le> min (r (t + r g)) c" by simp
qed simp

lemma refill_fix:
  assumes "r c = c"
  shows "r (min (r (t + r g)) c) = min (r (t + r g)) c"
  using assms idem by (simp add: min_def)

lemma refill_gain:
  assumes "0 \<le> t" "t \<le> c" "0 \<le> g"
  shows "min (r (t + r g)) c - t \<le> g * (1 + eps) * (1 + eps) + c * eps + (2 + eps) * tny"
proof -
  have g: "r g \<le> g * (1 + eps) + tny" by (rule upper [OF assms(3)])
  have "r (t + r g) \<le> (t + r g) * (1 + eps) + tny"
    using assms nonneg by (intro upper) simp
  also have "\<dots> \<le> (t + (g * (1 + eps) + tny)) * (1 + eps) + tny"
    using g eps_nonneg by (intro add_right_mono mult_right_mono) auto
  also have "\<dots> = t + g * (1 + eps) * (1 + eps) + t * eps + (2 + eps) * tny"
    by (simp add: algebra_simps)
  also have "\<dots> \<le> t + g * (1 + eps) * (1 + eps) + c * eps + (2 + eps) * tny"
    using assms eps_nonneg by (simp add: mult_right_mono)
  finally show ?thesis by linarith
qed

lemma take_one:
  assumes "r x = x" "1 \<le> x" "x \<le> c" "c \<le> 2 ^ 53"
  shows "r (x - 1) = x - 1" "0 \<le> r (x - 1)" "r (x - 1) \<le> c"
  using assms minus_one [of x] by auto

end

interpretation rnd: rounding rnd eps53 tiny
proof
  show "x \<le> y \<Longrightarrow> rnd x \<le> rnd y" for x y by (rule rnd_mono)
  show "rnd (rnd x) = rnd x" for x by (rule rnd_idem)
  show "\<bar>n\<bar> \<le> 2 ^ 53 \<Longrightarrow> rnd (of_int n) = of_int n" for n by (rule rnd_of_int)
  show "rnd x = x \<Longrightarrow> 1 \<le> x \<Longrightarrow> x \<le> 2 ^ 53 \<Longrightarrow> rnd (x - 1) = x - 1" for x
    by (rule rnd_minus_one)
  show "0 \<le> x \<Longrightarrow> rnd x \<le> x * (1 + eps53) + tiny" for x by (rule rnd_upper)
qed (simp_all add: eps53_def)

end
