(* ===== verification/PyObj.thy ===== *)
theory PyObj
  imports F64 "HOL-Library.Monad_Syntax"
begin

text \<open>
  The Python values that cross the extension boundary, the RSGI scope object and the
  Python exceptions that calls raise. A \<open>str\<close> is its UTF-8 encoding (a \<open>str\<close> with lone
  surrogates has none and is not modelled); a \<open>dict\<close> is the list of its entries in
  iteration (insertion) order, with distinct keys; an instance of any other class is its
  class name and its attributes.
\<close>

datatype pyobj =
    PyNone
  | PyBool bool
  | PyInt int
  | PyFloat f64
  | PyStr string
  | PyBytes bytes
  | PyByteArray bytes
  | PyList "pyobj list"
  | PyTuple "pyobj list"
  | PyDict "(pyobj \<times> pyobj) list"
  | PyObject string "(string \<times> pyobj) list"

text \<open>
  A raised exception: its class and its argument. The texts of the errors that the binding
  library itself raises on a failed conversion are not the sources' and only their class
  matters.
\<close>

datatype pyerr = PyErr string string

type_synonym 'a pyres = "('a, pyerr) rust"

abbreviation value_error :: "string \<Rightarrow> 'a pyres" where
  "value_error m \<equiv> Err (PyErr ''ValueError'' m)"

abbreviation runtime_error :: "string \<Rightarrow> 'a pyres" where
  "runtime_error m \<equiv> Err (PyErr ''RuntimeError'' m)"

abbreviation type_error :: "string \<Rightarrow> 'a pyres" where
  "type_error m \<equiv> Err (PyErr ''TypeError'' m)"

text \<open>\<open>dict.get\<close> with a \<open>str\<close> key: keys are distinct, so the first match is the entry.\<close>

fun dict_get :: "(pyobj \<times> pyobj) list \<Rightarrow> string \<Rightarrow> pyobj option" where
  "dict_get [] n = None"
| "dict_get ((k, v) # d) n = (if k = PyStr n then Some v else dict_get d n)"

text \<open>\<open>dict[key] = value\<close>: overwrite in place, or append.\<close>

definition dict_set :: "pyobj \<Rightarrow> pyobj \<Rightarrow> (pyobj \<times> pyobj) list \<Rightarrow> (pyobj \<times> pyobj) list" where
  "dict_set k v d = al_put k v d"

fun extract_string :: "pyobj \<Rightarrow> string option" where
  "extract_string (PyStr s) = Some s"
| "extract_string _ = None"

text \<open>\<open>extract::<u16>\<close>: an \<open>int\<close> (a \<open>bool\<close> is one) that fits.\<close>

fun extract_u16 :: "pyobj \<Rightarrow> u16 option" where
  "extract_u16 (PyInt i) = (if 0 \<le> i \<and> i < 65536 then Some (word_of_int i) else None)"
| "extract_u16 (PyBool b) = Some (if b then 1 else 0)"
| "extract_u16 _ = None"

fun extract_bool :: "pyobj \<Rightarrow> bool option" where
  "extract_bool (PyBool b) = Some b"
| "extract_bool _ = None"

fun extract_u64 :: "pyobj \<Rightarrow> u64 option" where
  "extract_u64 (PyInt i) = (if 0 \<le> i \<and> i < 2 ^ 64 then Some (word_of_int i) else None)"
| "extract_u64 (PyBool b) = Some (if b then 1 else 0)"
| "extract_u64 _ = None"

text \<open>\<open>extract::<Option<T>>\<close>: \<open>None\<close> stays \<open>None\<close>.\<close>

definition extract_option :: "(pyobj \<Rightarrow> 'a option) \<Rightarrow> pyobj \<Rightarrow> 'a option option" where
  "extract_option f obj = (if obj = PyNone then Some None else map_option Some (f obj))"

text \<open>\<open>extract::<Vec<T>>\<close>: from a sequence, every item; a \<open>str\<close> is refused.\<close>

fun extract_all :: "(pyobj \<Rightarrow> 'a option) \<Rightarrow> pyobj list \<Rightarrow> 'a list option" where
  "extract_all f [] = Some []"
| "extract_all f (x # xs) = Option.bind (f x) (\<lambda>y. map_option ((#) y) (extract_all f xs))"

definition extract_vec :: "(pyobj \<Rightarrow> 'a option) \<Rightarrow> pyobj \<Rightarrow> 'a list option" where
  "extract_vec f obj = (case obj of PyList xs \<Rightarrow> extract_all f xs | PyTuple xs \<Rightarrow> extract_all f xs | _ \<Rightarrow> None)"

text \<open>\<open>getattr\<close> on an instance; \<open>None\<close> is the \<open>AttributeError\<close>.\<close>

fun py_getattr :: "pyobj \<Rightarrow> string \<Rightarrow> pyobj option" where
  "py_getattr (PyObject c attrs) n = map_of attrs n"
| "py_getattr _ n = None"

definition getattr_as :: "(pyobj \<Rightarrow> 'a option) \<Rightarrow> string \<Rightarrow> pyobj \<Rightarrow> 'a option" where
  "getattr_as f n obj = Option.bind (py_getattr obj n) f"

text \<open>
  The headers object of a scope: a \<open>dict\<close>, another object with a \<open>get\<close> method (its
  result on a name; \<open>None\<close> when the call raises), or an object without one.
\<close>

datatype py_headers =
    HDict "(pyobj \<times> pyobj) list"
  | HMapping "string \<Rightarrow> pyobj option"
  | HOpaque

text \<open>
  \<open>scope.client\<close>: a \<open>str\<close>, an indexable object (the item 0, if that read succeeds), or
  an attribute that is missing.
\<close>

datatype py_client = ClientStr string | ClientSeq "pyobj option" | ClientMissing

record scope =
  sc_proto :: string
  sc_method :: string
  sc_path :: string
  sc_query :: "string option"
  sc_headers :: "py_headers option"
  sc_client :: py_client
  sc_scheme :: "string option"

end
