(* ===== verification/Params.thy ===== *)
theory Params
  imports PyObj
begin

text \<open>
  \<open>src/src/params.rs\<close>: query strings, the schema-lite coercion of path parameters and the
  case-insensitive header lookup. \<open>form_urlencoded::parse\<close> is a third-party decoder and
  is the argument \<open>urldec\<close> of the definitions that use it.
\<close>

section \<open>Query strings\<close>

text \<open>The decoded pairs are inserted in order: the last of equal keys wins.\<close>

definition parse_query ::
    "(bytes \<Rightarrow> (string \<times> string) list) \<Rightarrow> string \<Rightarrow> (string \<times> string) list" where
  "parse_query urldec q =
     (if q = [] then [] else fold (\<lambda>(k, v) m. al_put k v m) (urldec q) [])"

section \<open>Path parameter coercion\<close>

definition is_valid_integer_literal :: "string \<Rightarrow> bool" where
  "is_valid_integer_literal s =
     (case s of
        [] \<Rightarrow> False
      | b # r \<Rightarrow>
         (let (is_neg, digits) = (if b = CHR ''-'' then (True, r) else (False, s))
          in if digits = [] then False
             else if 1 < length digits \<and> hd digits = CHR ''0'' then False
             else if is_neg \<and> digits = ''0'' then False
             else list_all is_ascii_digit digits))"

definition is_valid_float_literal :: "string \<Rightarrow> bool" where
  "is_valid_float_literal s =
     (case s of
        [] \<Rightarrow> False
      | b # r \<Rightarrow>
         (let digits = (if b = CHR ''-'' then r else s)
          in case split_on CHR ''.'' digits of
               [int_part, frac_part] \<Rightarrow>
                 if int_part = [] \<or> frac_part = [] then False
                 else if 1 < length int_part \<and> hd int_part = CHR ''0'' then False
                 else list_all is_ascii_digit int_part \<and> list_all is_ascii_digit frac_part
             | _ \<Rightarrow> False))"

definition value_for_path_param :: "string \<Rightarrow> pyobj" where
  "value_for_path_param s =
     (if s = ''true'' then PyBool True
      else if s = ''false'' then PyBool False
      else
        (let as_float =
               (if is_valid_float_literal s
                then (case parse_f64 s of Some f \<Rightarrow> PyFloat f | None \<Rightarrow> PyStr s)
                else PyStr s)
         in if is_valid_integer_literal s
            then (case parse_i64 s of Some i \<Rightarrow> PyInt i | None \<Rightarrow> as_float)
            else as_float))"

section \<open>Header lookup\<close>

text \<open>The test every branch applies to a value: a non-empty \<open>str\<close>.\<close>

definition nonempty_str :: "pyobj option \<Rightarrow> string option" where
  "nonempty_str v =
     (case v of
        None \<Rightarrow> None
      | Some o1 \<Rightarrow> (case extract_string o1 of
          None \<Rightarrow> None
        | Some s \<Rightarrow> if s = [] then None else Some s))"

text \<open>The scan over the dict's entries in iteration order.\<close>

fun header_scan :: "(pyobj \<times> pyobj) list \<Rightarrow> string \<Rightarrow> string option" where
  "header_scan [] name = None"
| "header_scan ((k, v) # d) name =
     (case extract_string k of
        None \<Rightarrow> header_scan d name
      | Some ks \<Rightarrow>
          if eq_ignore_ascii_case ks name
          then (case nonempty_str (Some v) of
                  Some s \<Rightarrow> Some s
                | None \<Rightarrow> header_scan d name)
          else header_scan d name)"

definition header_get_lax :: "py_headers \<Rightarrow> string \<Rightarrow> string option" where
  "header_get_lax h name =
     (case h of
        HDict d \<Rightarrow>
          (case nonempty_str (dict_get d name) of
             Some s \<Rightarrow> Some s
           | None \<Rightarrow> header_scan d name)
      | HOpaque \<Rightarrow> None
      | HMapping get \<Rightarrow>
          (case nonempty_str (get name) of
             Some s \<Rightarrow> Some s
           | None \<Rightarrow>
              (let lower = to_ascii_lowercase name; upper = to_ascii_uppercase name
               in case (if lower \<noteq> name then nonempty_str (get lower) else None) of
                    Some s \<Rightarrow> Some s
                  | None \<Rightarrow>
                      if upper \<noteq> name \<and> upper \<noteq> lower then nonempty_str (get upper) else None)))"

section \<open>Facts\<close>

lemma fold_al_put_map_of:
  "map_of (fold (\<lambda>(k, v) m. al_put k v m) ps m0) = map_of m0 ++ map_of (rev ps)"
  by (induction ps arbitrary: m0) (auto simp: fun_eq_iff map_add_def split: option.splits)

lemma fold_al_put_distinct:
  "distinct (map fst m0) \<Longrightarrow> distinct (map fst (fold (\<lambda>(k, v) m. al_put k v m) ps m0))"
  by (induction ps arbitrary: m0) auto

lemma digit_eq_char: "is_ascii_digit c \<Longrightarrow> c = char_of (48 + digit_val c)"
proof -
  assume "is_ascii_digit c"
  then have "48 + digit_val c = (of_char c :: nat)" by (simp add: is_ascii_digit_def digit_val_def)
  then show ?thesis by simp
qed

lemma digit_val_less: "is_ascii_digit c \<Longrightarrow> digit_val c < 10"
  by (auto simp: is_ascii_digit_def digit_val_def)

text \<open>Digits without a leading zero are what \<open>show_nat\<close> prints for their value.\<close>

lemma show_nat_digits_val:
  assumes "list_all is_ascii_digit s" "s \<noteq> []" "length s = 1 \<or> hd s \<noteq> CHR ''0''"
  shows "show_nat (digits_val 0 s) = s"
  using assms
proof (induction s rule: rev_induct)
  case (snoc c s)
  have c: "is_ascii_digit c" using snoc.prems by simp
  have v: "digits_val 0 (s @ [c]) = 10 * digits_val 0 s + digit_val c"
    by (simp add: digits_val_append)
  show ?case
  proof (cases "s = []")
    case True
    with c show ?thesis
      by (simp add: show_nat.simps [of "digit_val c"] digit_val_less flip: digit_eq_char)
  next
    case False
    then have hd: "hd s \<noteq> CHR ''0''" using snoc.prems by auto
    then have IH: "show_nat (digits_val 0 s) = s" using snoc False by simp
    have "digits_val 0 s \<noteq> 0"
    proof
      assume "digits_val 0 s = 0"
      then have "s = ''0''" using IH by (simp add: show_nat_0)
      with hd show False by simp
    qed
    then have "\<not> 10 * digits_val 0 s + digit_val c < 10" by simp
    then show ?thesis
      using c IH
      by (simp add: v show_nat.simps [of "10 * digits_val 0 s + digit_val c"]
          digit_val_less flip: digit_eq_char)
  qed
qed simp

lemma digit_char_0: "d < 10 \<Longrightarrow> char_of (48 + d) = CHR ''0'' \<longleftrightarrow> d = (0 :: nat)"
proof
  assume "d < 10" "char_of (48 + d) = CHR ''0''"
  then have "48 + d = (of_char CHR ''0'' :: nat)" by (metis of_char_digit)
  then show "d = 0" by simp
next
  assume "d = 0"
  moreover have "char_of (48 :: nat) = CHR ''0''" by code_simp
  ultimately show "char_of (48 + d) = CHR ''0''" by simp
qed

lemma integer_literal_iff:
  "is_valid_integer_literal s \<longleftrightarrow> (\<exists>i. s = show_int i)"
proof
  assume L: "is_valid_integer_literal s"
  then obtain b r where s: "s = b # r" by (auto simp: is_valid_integer_literal_def split: list.splits)
  show "\<exists>i. s = show_int i"
  proof (cases "b = CHR ''-''")
    case True
    with L s have r: "r \<noteq> []" "length r = 1 \<or> hd r \<noteq> CHR ''0''" "r \<noteq> ''0''" "list_all is_ascii_digit r"
      by (auto simp: is_valid_integer_literal_def split: if_splits) (cases r; auto)+
    then have sh: "show_nat (digits_val 0 r) = r" by (intro show_nat_digits_val)
    then have "digits_val 0 r \<noteq> 0" using r(3) by (metis show_nat_0)
    then have "show_int (- int (digits_val 0 r)) = s" using sh True s by (simp add: show_int_def)
    then show ?thesis by metis
  next
    case False
    with L s have r: "length s = 1 \<or> hd s \<noteq> CHR ''0''" "list_all is_ascii_digit s"
      by (auto simp: is_valid_integer_literal_def split: if_splits)
    then have "show_nat (digits_val 0 s) = s" using s by (intro show_nat_digits_val) auto
    then have "show_int (int (digits_val 0 s)) = s" by (simp add: show_int_def)
    then show ?thesis by metis
  qed
next
  have nz: "show_nat n = [] \<Longrightarrow> False" for n by simp
  have hd0: "1 < length (show_nat n) \<Longrightarrow> hd (show_nat n) \<noteq> CHR ''0''" for n
  proof (induction n rule: show_nat.induct)
    case (1 n)
    then show ?case
      by (cases "n < 10"; cases "n div 10 < 10")
        (auto simp: show_nat.simps [of n] show_nat.simps [of "n div 10"] hd_append digit_char_0)
  qed
  have z: "show_nat n = ''0'' \<Longrightarrow> n = 0" for n
    using digits_val_show_nat [of n] by (simp add: digit_val_def)
  assume "\<exists>i. s = show_int i"
  then obtain i where i: "s = show_int i" by blast
  show "is_valid_integer_literal s"
  proof (cases "i < 0")
    case True
    then show ?thesis
      using hd0 [of "nat (- i)"] z [of "nat (- i)"] show_nat_digits [of "nat (- i)"]
      by (auto simp: i show_int_def is_valid_integer_literal_def)
  next
    case False
    obtain c r where cr: "show_nat (nat i) = c # r" and d: "is_ascii_digit c"
      using show_nat_head by blast
    then have "c \<noteq> CHR ''-''" by (auto simp: is_ascii_digit_def)
    with False show ?thesis
      using hd0 [of "nat i"] show_nat_digits [of "nat i"] cr
      by (auto simp: i show_int_def is_valid_integer_literal_def)
  qed
qed

lemma parse_i64_show_int_iff:
  "parse_i64 (show_int i) = Some j \<longleftrightarrow> j = i \<and> - (2 ^ 63) \<le> i \<and> i < 2 ^ 63"
proof (cases "- (2 ^ 63) \<le> i \<and> i < 2 ^ 63")
  case True
  then show ?thesis using parse_i64_show_int [of i] by auto
next
  case False
  show ?thesis
  proof (cases "i < 0")
    case True
    with False show ?thesis by (auto simp: parse_i64_def show_int_def Let_def)
  next
    case nn: False
    obtain c r where cr: "show_nat (nat i) = c # r" and "is_ascii_digit c"
      using show_nat_head by blast
    then have "c \<noteq> CHR ''+''" "c \<noteq> CHR ''-''" by (auto simp: is_ascii_digit_def)
    then have "parse_i64 (c # r) = (case parse_digits (c # r) of None \<Rightarrow> None
        | Some n \<Rightarrow> if - (2 ^ 63) \<le> int n \<and> int n < 2 ^ 63 then Some (int n) else None)"
      by (cases "parse_digits (c # r)") (simp_all add: parse_i64_def)
    with nn False show ?thesis by (auto simp: show_int_def simp flip: cr)
  qed
qed

lemma show_int_not_bool: "show_int i \<noteq> ''true''" "show_int i \<noteq> ''false''"
proof -
  have "show_nat n \<noteq> ''true''" "show_nat n \<noteq> ''false''" for n
    using show_nat_digits [of n] by (auto simp: is_ascii_digit_def)
  then show "show_int i \<noteq> ''true''" "show_int i \<noteq> ''false''" by (auto simp: show_int_def)
qed

lemma value_float_not_int:
  "(if is_valid_float_literal s then (case parse_f64 s of Some f \<Rightarrow> PyFloat f | None \<Rightarrow> PyStr s)
    else PyStr s) \<noteq> PyInt i"
  by (auto split: option.splits)

text \<open>
  C38. A path segment is coerced to an \<open>int\<close> exactly when it is the canonical decimal
  rendering of a number that fits a 64-bit signed integer, and the value is that number:
  the coercion is injective, so no segment such as \<open>007\<close>, \<open>+4\<close> or \<open>-0\<close> loses its text.
\<close>

theorem path_int_lossless:
  "value_for_path_param s = PyInt i \<longleftrightarrow> s = show_int i \<and> - (2 ^ 63) \<le> i \<and> i < 2 ^ 63"
proof (cases "is_valid_integer_literal s")
  case True
  then obtain j where j: "s = show_int j" by (auto simp: integer_literal_iff)
  show ?thesis
  proof (cases "parse_i64 s")
    case None
    then have "\<not> (s = show_int i \<and> - (2 ^ 63) \<le> i \<and> i < 2 ^ 63)"
      by (metis parse_i64_show_int_iff option.distinct(1))
    with None True show ?thesis
      using value_float_not_int [of s i] by (simp add: value_for_path_param_def)
  next
    case (Some k)
    then have k: "k = j" "- (2 ^ 63) \<le> k \<and> k < 2 ^ 63"
      using parse_i64_show_int_iff [of j k] by (simp_all add: j)
    have "value_for_path_param s = PyInt k"
      using True Some by (simp add: value_for_path_param_def j show_int_not_bool)
    moreover have "k = i \<longleftrightarrow> s = show_int i \<and> - (2 ^ 63) \<le> i \<and> i < 2 ^ 63"
      using Some k j by (metis parse_i64_show_int_iff)
    ultimately show ?thesis by simp
  qed
next
  case False
  then have "s \<noteq> show_int i" by (auto simp: integer_literal_iff)
  with False show ?thesis
    using value_float_not_int [of s i] by (auto simp: value_for_path_param_def Let_def)
qed

section \<open>Header lookup on a dictionary\<close>

lemma nonempty_str_Some: "nonempty_str v = Some s \<longleftrightarrow> v = Some (PyStr s) \<and> s \<noteq> []"
proof (cases v)
  case (Some x)
  then show ?thesis by (cases x) (auto simp: nonempty_str_def)
qed (simp add: nonempty_str_def)

lemma header_scan_Some:
  "header_scan d name = Some v \<Longrightarrow> v \<noteq> [] \<and> (\<exists>k. (PyStr k, PyStr v) \<in> set d \<and> eq_ignore_ascii_case k name)"
proof (induction d name rule: header_scan.induct)
  case (2 k v1 d name)
  show ?case
  proof (cases "extract_string k")
    case (Some ks)
    then have "k = PyStr ks" by (cases k) simp_all
    with 2 Some show ?thesis by (auto simp: nonempty_str_Some split: if_splits option.splits)
  qed (use 2 in auto)
qed simp

lemma header_scan_None:
  "header_scan d name = None \<Longrightarrow> (PyStr k, PyStr v) \<in> set d \<Longrightarrow> eq_ignore_ascii_case k name \<Longrightarrow> v = []"
proof (induction d)
  case (Cons e d)
  obtain k1 v1 where e: "e = (k1, v1)" by fastforce
  have tail: "header_scan d name = None"
    using Cons.prems(1) by (auto simp: e split: option.splits if_splits)
  show ?case
  proof (cases "(PyStr k, PyStr v) = (k1, v1)")
    case True
    then show ?thesis using Cons.prems by (cases v) (auto simp: e nonempty_str_def)
  next
    case False
    then show ?thesis using Cons.IH [OF tail] Cons.prems(2,3) by (auto simp: e)
  qed
qed simp

lemma dict_get_mem: "dict_get d name = Some v \<Longrightarrow> (PyStr name, v) \<in> set d"
  by (induction d name rule: dict_get.induct) (auto split: if_splits)

text \<open>
  C39. A header is found whatever the case of its name in the request: on a dictionary the
  lookup returns a non-empty value stored under a name that equals the one asked for up to
  ASCII case, and returns nothing only when every value stored under such a name is empty
  or not a string.
\<close>

theorem header_lookup_complete:
  "case header_get_lax (HDict d) name of
     Some v \<Rightarrow> v \<noteq> [] \<and> (\<exists>k. (PyStr k, PyStr v) \<in> set d \<and> eq_ignore_ascii_case k name)
   | None \<Rightarrow> \<forall>k v. (PyStr k, PyStr v) \<in> set d \<longrightarrow> eq_ignore_ascii_case k name \<longrightarrow> v = []"
proof (cases "nonempty_str (dict_get d name)")
  case (Some v)
  then have "dict_get d name = Some (PyStr v)" "v \<noteq> []" by (simp_all add: nonempty_str_Some)
  then have "(PyStr name, PyStr v) \<in> set d \<and> eq_ignore_ascii_case name name \<and> v \<noteq> []"
    using dict_get_mem by simp
  then show ?thesis using Some by (auto simp: header_get_lax_def)
next
  case None
  then have "header_get_lax (HDict d) name = header_scan d name" by (simp add: header_get_lax_def)
  then show ?thesis
    using header_scan_Some [of d name] header_scan_None [of d name] by (auto split: option.split)
qed

theorem header_lookup_complete_witness:
  "header_get_lax (HDict [(PyStr ''Host'', PyStr ''a'')]) ''host'' \<noteq> None"
  using header_lookup_complete [of "[(PyStr ''Host'', PyStr ''a'')]" "''host''"]
proof -
  have "eq_ignore_ascii_case ''Host'' ''host''" by code_simp
  then show ?thesis
    using header_lookup_complete [of "[(PyStr ''Host'', PyStr ''a'')]" "''host''"]
    by (auto split: option.splits)
qed

end
