(* ===== verification/RateLimit.thy ===== *)
theory RateLimit
  imports Params
begin

text \<open>
  \<open>src/src/rate_limit.rs\<close>: the configuration strings, the key of a request and the
  sharded token bucket. An \<open>Instant\<close> is a number of nanoseconds on the monotonic clock.
  What the code leaves to the standard library without fixing it is an argument: the hash
  of a key and which entry a \<open>HashMap\<close> yields first.
\<close>

section \<open>Configuration\<close>

definition NUM_SHARDS :: nat where "NUM_SHARDS = 16"
definition MAX_SHARD_ENTRIES :: nat where "MAX_SHARD_ENTRIES = 8192"
definition MAX_KEY_LEN :: nat where "MAX_KEY_LEN = 256"

datatype key_strategy = Ip | TrustedForwardedIp | HeaderKey string | Global

definition strategy_parse :: "string \<Rightarrow> key_strategy" where
  "strategy_parse s =
     (let t = trim s
      in if eq_ignore_ascii_case t ''ip'' \<or> eq_ignore_ascii_case t ''client'' then Ip
         else if eq_ignore_ascii_case t ''trusted-forwarded-ip''
               \<or> eq_ignore_ascii_case t ''forwarded-ip'' then TrustedForwardedIp
         else if eq_ignore_ascii_case t ''global'' then Global
         else (case strip_prefix ''header:'' t of
                 Some hdr \<Rightarrow> HeaderKey (to_ascii_lowercase (trim hdr))
               | None \<Rightarrow> Ip))"

record rl_config =
  cfg_limit :: u64
  cfg_window :: f64
  cfg_strategy :: key_strategy

text \<open>The window part, trimmed and lowercased.\<close>

definition parse_window :: "string \<Rightarrow> string \<Rightarrow> (f64, string) rust" where
  "parse_window rate_str win =
     (if win \<in> {''s'', ''sec'', ''second'', ''seconds''} then Ok (Fin 1)
      else if win \<in> {''m'', ''min'', ''minute'', ''minutes''} then Ok (Fin 60)
      else if win \<in> {''h'', ''hr'', ''hour'', ''hours''} then Ok (Fin 3600)
      else if win \<in> {''d'', ''day'', ''days''} then Ok (Fin 86400)
      else (case strip_suffix ''s'' win of
              Some num \<Rightarrow>
                (case parse_f64 num of
                   Some f \<Rightarrow> Ok f
                 | None \<Rightarrow> Err (''invalid window duration in '' @ quoted rate_str))
            | None \<Rightarrow> Err (''unknown rate limit window in '' @ quoted rate_str)))"

definition rl_parse :: "string \<Rightarrow> string option \<Rightarrow> (rl_config, string) rust" where
  "rl_parse rate_str key_str =
     (case split_on CHR ''/'' (trim rate_str) of
        [p0, p1] \<Rightarrow>
          (case parse_u64 (trim p0) of
             None \<Rightarrow> Err (''invalid rate limit count in '' @ quoted rate_str)
           | Some limit \<Rightarrow>
               if limit = 0 then Err ''rate limit count must be greater than 0''
               else rbind (parse_window rate_str (to_ascii_lowercase (trim p1)))
                 (\<lambda>w. if f64_le w (Fin 0)
                      then Err ''rate limit window duration must be greater than 0''
                      else Ok \<lparr>cfg_limit = limit, cfg_window = w,
                               cfg_strategy = (case key_str of
                                  Some k \<Rightarrow> strategy_parse k | None \<Rightarrow> Ip)\<rparr>))
      | _ \<Rightarrow> Err (''invalid rate limit format: '' @ quoted rate_str @ '' (expected ''
               @ quoted ''limit/window'' @ '', e.g. '' @ quoted ''100/minute'' @ '')''))"

text \<open>Truncation to at most 256 bytes, back to a character boundary.\<close>

fun boundary_at_or_below :: "string \<Rightarrow> nat \<Rightarrow> nat" where
  "boundary_at_or_below key 0 = 0"
| "boundary_at_or_below key (Suc e) =
     (if is_char_boundary key (Suc e) then Suc e else boundary_at_or_below key e)"

definition truncate_key :: "string \<Rightarrow> string" where
  "truncate_key key =
     (if length key \<le> MAX_KEY_LEN then key
      else take (boundary_at_or_below key MAX_KEY_LEN) key)"

section \<open>The limiter\<close>

record bucket =
  tokens :: f64
  last_update :: nat

type_synonym shard = "(string \<times> bucket) list"

record limiter =
  rl_limit :: u64
  rl_window :: f64
  rl_refill :: f64
  rl_strategy :: key_strategy
  rl_shards :: "shard list"

datatype rl_decision =
    Allowed (d_limit: u64) (d_remaining: u64) (d_reset: u64)
  | Denied (d_limit: u64) (d_reset: u64)

text \<open>
  \<open>hash_key\<close>: the \<open>DefaultHasher\<close> value of a key, as \<open>usize\<close>. \<open>first_key\<close>: the key a
  \<open>HashMap\<close>'s iterator yields first, if there is one.
\<close>

record rl_env =
  hash_key :: "string \<Rightarrow> nat"
  first_key :: "shard \<Rightarrow> string option"

definition limiter_new :: "rl_config \<Rightarrow> limiter" where
  "limiter_new c =
     \<lparr>rl_limit = cfg_limit c, rl_window = cfg_window c,
      rl_refill = f64_div (f64_of_u64 (cfg_limit c)) (cfg_window c),
      rl_strategy = cfg_strategy c, rl_shards = replicate NUM_SHARDS []\<rparr>"

definition shard_index :: "rl_env \<Rightarrow> string \<Rightarrow> nat" where
  "shard_index E key = hash_key E key mod NUM_SHARDS"

text \<open>
  \<open>(now - last).as_secs_f64()\<close>: subtraction of instants saturates at zero; whole seconds
  and nanoseconds are converted separately.
\<close>

definition as_secs_f64 :: "nat \<Rightarrow> f64" where
  "as_secs_f64 ns =
     f64_add (f64_round (of_nat (ns div 10 ^ 9)))
       (f64_div (f64_round (of_nat (ns mod 10 ^ 9))) (Fin (10 ^ 9)))"

text \<open>The shard after the entry for the key is found or created (lines 188 to 208).\<close>

definition shard_entry :: "rl_env \<Rightarrow> f64 \<Rightarrow> nat \<Rightarrow> string \<Rightarrow> shard \<Rightarrow> bucket \<times> shard" where
  "shard_entry E limit_f64 now key m =
     (case map_of m key of
        Some b \<Rightarrow> (b, m)
      | None \<Rightarrow>
         (let m1 = (if MAX_SHARD_ENTRIES \<le> length m
                    then (case first_key E m of Some k \<Rightarrow> al_del k m | None \<Rightarrow> m)
                    else m);
              b = \<lparr>tokens = limit_f64, last_update = now\<rparr>
          in (b, al_put key b m1)))"

text \<open>The decision for one bucket, and the bucket written back when the request is let through.\<close>

definition reset_of :: "f64 \<Rightarrow> f64 \<Rightarrow> u64" where
  "reset_of missing refill = f64_to_u64 (f64_max (f64_ceil (f64_div missing refill)) (Fin 1))"

definition refilled :: "f64 \<Rightarrow> f64 \<Rightarrow> nat \<Rightarrow> bucket \<Rightarrow> f64" where
  "refilled limit_f64 refill now b =
     f64_min (f64_add (tokens b) (f64_mul (as_secs_f64 (now - last_update b)) refill)) limit_f64"

definition bucket_check :: "u64 \<Rightarrow> f64 \<Rightarrow> nat \<Rightarrow> bucket \<Rightarrow> rl_decision \<times> bucket" where
  "bucket_check limit refill now b =
     (let limit_f64 = f64_of_u64 limit;
          rf = refilled limit_f64 refill now b
      in if f64_le (Fin 1) rf
         then (let rem_t = f64_sub rf (Fin 1);
                   remaining = f64_to_u64 (f64_floor rem_t);
                   reset = (if remaining = 0
                            then reset_of (f64_sub (Fin 1) rem_t) refill
                            else reset_of (f64_sub limit_f64 rem_t) refill)
               in (Allowed limit remaining reset, \<lparr>tokens = rem_t, last_update = now\<rparr>))
         else (Denied limit (reset_of (f64_sub (Fin 1) rf) refill), b))"

text \<open>
  \<open>RateLimiter::check\<close>. The clock is read before the shard is locked, so \<open>now\<close> is an
  argument: another thread may have updated the bucket at a later instant.
\<close>

definition rl_check :: "rl_env \<Rightarrow> nat \<Rightarrow> string \<Rightarrow> limiter \<Rightarrow> rl_decision \<times> limiter" where
  "rl_check E now key0 L =
     (let key = truncate_key key0;
          idx = shard_index E key;
          (b, m) = shard_entry E (f64_of_u64 (rl_limit L)) now key (rl_shards L ! idx);
          (d, b') = bucket_check (rl_limit L) (rl_refill L) now b
      in (d, L\<lparr>rl_shards := (rl_shards L)[idx := al_put key b' m]\<rparr>))"

text \<open>A sequence of checks, in the order in which they take the shard locks.\<close>

fun rl_run :: "rl_env \<Rightarrow> (nat \<times> string) list \<Rightarrow> limiter \<Rightarrow> rl_decision list \<times> limiter" where
  "rl_run E [] L = ([], L)"
| "rl_run E ((now, key) # reqs) L =
     (let (d, L') = rl_check E now key L; (ds, L'') = rl_run E reqs L' in (d # ds, L''))"

section \<open>The key of a request\<close>

definition all_digits :: "string \<Rightarrow> bool" where
  "all_digits s = list_all is_ascii_digit s"

text \<open>The text up to the first \<open>]\<close>, if there is one.\<close>

definition before_bracket :: "string \<Rightarrow> string option" where
  "before_bracket s = map_option fst (split_once (\<lambda>c. c = CHR '']'') s)"

definition strip_port :: "string \<Rightarrow> string" where
  "strip_port s =
     (case rsplit_once CHR '':'' s of
        Some (host, port) \<Rightarrow> if all_digits port then host else s
      | None \<Rightarrow> s)"

definition scope_client_host :: "scope \<Rightarrow> string option" where
  "scope_client_host sc =
     (case sc_client sc of
        ClientMissing \<Rightarrow> None
      | ClientStr s \<Rightarrow>
          if s = [] then None
          else (case strip_prefix ''['' s of
                  Some rest \<Rightarrow>
                    (case before_bracket rest of
                       Some inner \<Rightarrow> Some (''['' @ inner @ '']'')
                     | None \<Rightarrow> Some (strip_port s))
                | None \<Rightarrow> Some (strip_port s))
      | ClientSeq item \<Rightarrow>
          (case item of Some o1 \<Rightarrow> extract_string o1 | None \<Rightarrow> None))"

definition client_or_local :: "scope \<Rightarrow> string" where
  "client_or_local sc = (case scope_client_host sc of Some ip \<Rightarrow> ip | None \<Rightarrow> ''127.0.0.1'')"

text \<open>\<open>xf.split(',').next()\<close>: the first piece, trimmed, when it is not empty.\<close>

definition forwarded_first :: "string \<Rightarrow> string option" where
  "forwarded_first xf =
     (let t = trim (hd (split_on CHR '','' xf)) in if t = [] then None else Some t)"

definition extract_rate_limit_key :: "scope \<Rightarrow> key_strategy \<Rightarrow> string" where
  "extract_rate_limit_key sc st =
     (case st of
        Global \<Rightarrow> ''global''
      | HeaderKey hdr \<Rightarrow>
          (case Option.bind (sc_headers sc) (\<lambda>h. header_get_lax h hdr) of
             Some v \<Rightarrow> v | None \<Rightarrow> ''unknown'')
      | Ip \<Rightarrow> client_or_local sc
      | TrustedForwardedIp \<Rightarrow>
          (case sc_headers sc of
             None \<Rightarrow> client_or_local sc
           | Some h \<Rightarrow>
              (case Option.bind (header_get_lax h ''x-forwarded-for'') forwarded_first of
                 Some t \<Rightarrow> t
               | None \<Rightarrow>
                  (case Option.bind (header_get_lax h ''x-real-ip'')
                          (\<lambda>x. if trim x = [] then None else Some (trim x)) of
                     Some t \<Rightarrow> t
                   | None \<Rightarrow> client_or_local sc))))"

section \<open>Keys\<close>

lemma boundary_le: "boundary_at_or_below key n \<le> n"
  by (induction n) auto

lemma length_truncate_key: "length (truncate_key key) \<le> MAX_KEY_LEN"
  using boundary_le [of key MAX_KEY_LEN] by (simp add: truncate_key_def)

lemma truncate_key_id: "length key \<le> MAX_KEY_LEN \<Longrightarrow> truncate_key key = key"
  by (simp add: truncate_key_def)

lemma truncate_key_idem [simp]: "truncate_key (truncate_key key) = truncate_key key"
  by (rule truncate_key_id) (rule length_truncate_key)

lemma boundary_is_boundary: "is_char_boundary key (boundary_at_or_below key n)"
  by (induction n) (auto simp: is_char_boundary_def)

section \<open>Bounds on the memory of the limiter\<close>

text \<open>What the standard library promises of a map's iterator: a key of the map, if any.\<close>

definition first_key_ok :: "rl_env \<Rightarrow> bool" where
  "first_key_ok E \<longleftrightarrow> (\<forall>m. m \<noteq> [] \<longrightarrow> (\<exists>k. first_key E m = Some k \<and> map_of m k \<noteq> None))"

definition shard_ok :: "shard \<Rightarrow> bool" where
  "shard_ok m \<longleftrightarrow> distinct (map fst m) \<and> length m \<le> MAX_SHARD_ENTRIES \<and>
     list_all (\<lambda>(k, b). length k \<le> MAX_KEY_LEN) m"

definition limiter_ok :: "limiter \<Rightarrow> bool" where
  "limiter_ok L \<longleftrightarrow> length (rl_shards L) = NUM_SHARDS \<and> list_all shard_ok (rl_shards L)"

lemma shard_index_less: "limiter_ok L \<Longrightarrow> shard_index E key < length (rl_shards L)"
  by (simp add: shard_index_def limiter_ok_def NUM_SHARDS_def)

lemma shard_ok_put:
  assumes "shard_ok m" "map_of m k \<noteq> None"
  shows "shard_ok (al_put k b m)"
proof -
  have "k \<in> fst ` set m" using assms(2) by (simp add: map_of_eq_None_iff)
  then have "length k \<le> MAX_KEY_LEN" using assms(1) by (auto simp: shard_ok_def list_all_iff)
  then have "list_all (\<lambda>(k, b). length k \<le> MAX_KEY_LEN) (al_put k b m)"
    using assms(1) set_al_put_subset [of k b m] by (auto simp: shard_ok_def list_all_iff)
  then show ?thesis
    using assms by (simp add: shard_ok_def al.put_known_card)
qed

lemma shard_entry_ok:
  assumes E: "first_key_ok E" and m: "shard_ok m" and k: "length key \<le> MAX_KEY_LEN"
    and res: "shard_entry E lf now key m = (b, m')"
  shows "shard_ok m' \<and> map_of m' key = Some b"
proof (cases "map_of m key")
  case (Some b0)
  with res m show ?thesis by (auto simp: shard_entry_def)
next
  case None
  let ?d = "distinct (map fst m)" and ?n = "\<lparr>tokens = lf, last_update = now\<rparr>"
  have d: ?d and len: "length m \<le> MAX_SHARD_ENTRIES" using m by (auto simp: shard_ok_def)
  have pos: "0 < MAX_SHARD_ENTRIES" by (simp add: MAX_SHARD_ENTRIES_def)
  obtain v where v: "MAX_SHARD_ENTRIES \<le> length m \<Longrightarrow>
      first_key E m = Some v \<and> map_of m v \<noteq> None"
    using E pos unfolding first_key_ok_def by (metis list.size(3) not_le)
  let ?m1 = "if MAX_SHARD_ENTRIES \<le> length m then al_del v m else m"
  have m': "m' = al_put key ?n ?m1" "b = ?n"
    using None v res by (auto simp: shard_entry_def Let_def split: if_splits)
  have "length (al_put key ?n ?m1) \<le> MAX_SHARD_ENTRIES"
    using v by (intro al.evict_put_bound [OF d len pos]) auto
  moreover have "set (al_put key ?n ?m1) \<subseteq> insert (key, ?n) (set m)"
    using set_al_put_subset [of key ?n ?m1] set_al_del_subset [of v m] by (auto split: if_splits)
  moreover have "distinct (map fst (al_put key ?n ?m1))" using d by simp
  ultimately show ?thesis
    using m k by (auto simp: m' shard_ok_def list_all_iff)
qed

lemma limiter_ok_new: "limiter_ok (limiter_new c)"
  by (simp add: limiter_ok_def limiter_new_def shard_ok_def list_all_iff)

lemma rl_check_ok:
  assumes "first_key_ok E" "limiter_ok L"
  shows "limiter_ok (snd (rl_check E now key L))"
proof -
  let ?k = "truncate_key key" and ?i = "shard_index E (truncate_key key)"
  obtain b m where e: "shard_entry E (f64_of_u64 (rl_limit L)) now ?k (rl_shards L ! ?i) = (b, m)"
    by fastforce
  obtain d b' where c: "bucket_check (rl_limit L) (rl_refill L) now b = (d, b')" by fastforce
  have i: "?i < length (rl_shards L)" by (rule shard_index_less [OF assms(2)])
  then have "shard_ok (rl_shards L ! ?i)" using assms(2) by (simp add: limiter_ok_def list_all_length)
  from shard_entry_ok [OF assms(1) this length_truncate_key e]
  have "shard_ok (al_put ?k b' m)" by (intro shard_ok_put) auto
  then show ?thesis
    using assms(2) i e c
    by (auto simp: rl_check_def Let_def limiter_ok_def list_all_iff dest!: set_update_subset_insert [THEN subsetD])
qed

lemma rl_run_ok: "first_key_ok E \<Longrightarrow> limiter_ok L \<Longrightarrow> limiter_ok (snd (rl_run E reqs L))"
proof (induction reqs arbitrary: L)
  case (Cons r reqs)
  obtain now key where r: "r = (now, key)" by fastforce
  have "limiter_ok (snd (rl_check E now key L))" using Cons.prems by (rule rl_check_ok)
  with Cons.IH Cons.prems(1) have "limiter_ok (snd (rl_run E reqs (snd (rl_check E now key L))))"
    by blast
  then show ?case by (simp add: r split_def Let_def)
qed simp

text \<open>
  C28. A flood of requests under any keys cannot grow the limiter: after any sequence of
  checks on a new limiter every shard holds at most 8192 entries with distinct keys of at
  most 256 bytes each.
\<close>

theorem limiter_memory_bounded:
  assumes "first_key_ok E" "m \<in> set (rl_shards (snd (rl_run E reqs (limiter_new c))))"
  shows "length m \<le> 8192 \<and> distinct (map fst m) \<and> (\<forall>k\<in>fst ` set m. length k \<le> 256)"
proof -
  have "shard_ok m"
    using rl_run_ok [OF assms(1) limiter_ok_new, of reqs c] assms(2)
    by (auto simp: limiter_ok_def list_all_iff)
  then show ?thesis
    by (auto simp: shard_ok_def list_all_iff MAX_SHARD_ENTRIES_def MAX_KEY_LEN_def)
qed

section \<open>One bucket\<close>

text \<open>The capacity: the limit as a float. A level is a float between 0 and the capacity.\<close>

definition cap :: "u64 \<Rightarrow> rat" where
  "cap limit = rnd (of_nat (unat limit))"

definition level_ok :: "rat \<Rightarrow> bucket \<Rightarrow> bool" where
  "level_ok c b \<longleftrightarrow> (\<exists>t. tokens b = Fin t \<and> 0 \<le> t \<and> t \<le> c \<and> rnd t = t)"

text \<open>The refill rates that a limit and a window which the parser accepts can give.\<close>

definition rate_ok :: "f64 \<Rightarrow> bool" where
  "rate_ok f \<longleftrightarrow> (case f of Fin r \<Rightarrow> 0 \<le> r | NInf \<Rightarrow> False | _ \<Rightarrow> True)"

declare of_nat_unat [simp del]

lemma cap_fix [simp]: "rnd (cap l) = cap l"
  by (simp add: cap_def rnd.idem)

lemma cap_nonneg [simp]: "0 \<le> cap l"
  by (simp add: cap_def rnd.nonneg)

lemma rnd_of_nat: "n \<le> 2 ^ 53 \<Longrightarrow> rnd (of_nat n) = of_nat n"
  using rnd.ints [of "int n"] by simp

lemma cap_exact: "unat l \<le> 2 ^ 53 \<Longrightarrow> cap l = of_nat (unat l)"
  by (simp only: cap_def rnd_of_nat)

lemma cap_ge_1: "l \<noteq> 0 \<Longrightarrow> 1 \<le> cap l"
proof -
  assume "l \<noteq> 0"
  then have "1 \<le> unat l" by (metis less_one not_le unat_eq_zero)
  then have "rnd 1 \<le> cap l" unfolding cap_def by (intro rnd.mono) simp
  then show ?thesis using rnd.ints [of 1] by simp
qed

lemma cap_le: "cap l \<le> 2 ^ 64"
proof -
  have "unat l < 2 ^ 64" using unsigned_less [of l] by simp
  then have "(of_nat (unat l) :: rat) \<le> of_nat (2 ^ 64)" by (simp only: of_nat_le_iff less_imp_le)
  then have "cap l \<le> rnd (2 powi 64)" unfolding cap_def by (intro rnd.mono) simp
  also have "rnd (2 powi 64) = 2 powi 64" using rnd_53_bits [of 1 64] by simp
  finally show ?thesis by simp
qed

lemma f64_of_u64_cap: "f64_of_u64 l = Fin (cap l)"
proof -
  have "(2 :: rat) ^ 64 < 2 ^ 1024" by (rule power_strict_increasing) simp_all
  moreover have "0 < (2 :: rat) ^ 1024" by simp
  ultimately have "\<not> 2 ^ 1024 \<le> cap l" "\<not> cap l \<le> - (2 ^ 1024)"
    using cap_le [of l] cap_nonneg [of l] by linarith+
  then show ?thesis by (simp only: f64_of_u64_def f64_round_def cap_def Let_def if_False)
qed

lemma f64_round_nonneg: "0 \<le> x \<Longrightarrow> f64_round x = PInf \<or> f64_round x = Fin (rnd x) \<and> 0 \<le> rnd x"
proof -
  assume "0 \<le> x"
  then have "0 \<le> rnd x" by (rule rnd.nonneg)
  moreover have "0 < (2 :: rat) ^ 1024" by simp
  ultimately have "\<not> rnd x \<le> - (2 ^ 1024)" by linarith
  with \<open>0 \<le> rnd x\<close> show ?thesis by (simp only: f64_round_def Let_def if_False) simp
qed

text \<open>The non-negative floats: closed under the operations of a refill.\<close>

definition f64_nonneg :: "f64 \<Rightarrow> bool" where
  "f64_nonneg a \<longleftrightarrow> a = NaN \<or> a = PInf \<or> (\<exists>x\<ge>0. a = Fin x)"

lemma f64_round_is_nonneg: "0 \<le> x \<Longrightarrow> f64_nonneg (f64_round x)"
  using f64_round_nonneg [of x] by (auto simp: f64_nonneg_def)

lemma f64_nonneg_add: "f64_nonneg a \<Longrightarrow> f64_nonneg b \<Longrightarrow> f64_nonneg (f64_add a b)"
  unfolding f64_nonneg_def [of a] f64_nonneg_def [of b]
  by (elim disjE exE conjE) (simp_all add: f64_round_is_nonneg, simp_all add: f64_nonneg_def)

lemma f64_nonneg_mul: "f64_nonneg a \<Longrightarrow> f64_nonneg b \<Longrightarrow> f64_nonneg (f64_mul a b)"
  unfolding f64_nonneg_def [of a] f64_nonneg_def [of b]
  by (elim disjE exE conjE)
    (simp_all add: f64_round_is_nonneg inf_of_sign_def, auto simp: f64_nonneg_def)

lemma f64_nonneg_div: "f64_nonneg a \<Longrightarrow> f64_nonneg b \<Longrightarrow> f64_nonneg (f64_div a b)"
  unfolding f64_nonneg_def [of a] f64_nonneg_def [of b]
  by (elim disjE exE conjE)
    (simp_all add: f64_round_is_nonneg inf_of_sign_def, auto simp: f64_nonneg_def)

lemma rate_ok_iff: "rate_ok f \<longleftrightarrow> f64_nonneg f"
  by (cases f) (auto simp: rate_ok_def f64_nonneg_def)

lemma as_secs_nonneg: "f64_nonneg (as_secs_f64 ns)"
  unfolding as_secs_f64_def
  by (intro f64_nonneg_add f64_nonneg_div f64_round_is_nonneg) (simp_all add: f64_nonneg_def)

text \<open>A refill with any of these rates, NaN included, stays between the level and the capacity.\<close>

lemma refilled_range:
  assumes "level_ok c b" "rnd c = c" "rate_ok rate"
  shows "\<exists>x. refilled (Fin c) rate now b = Fin x \<and> rnd x = x \<and> x \<le> c \<and>
    (\<forall>t. tokens b = Fin t \<longrightarrow> t \<le> x)"
proof -
  obtain t where t: "tokens b = Fin t" "0 \<le> t" "t \<le> c" "rnd t = t"
    using assms(1) by (auto simp: level_ok_def)
  define g where "g = f64_mul (as_secs_f64 (now - last_update b)) rate"
  have g: "f64_nonneg g"
    using assms(3) unfolding g_def by (intro f64_nonneg_mul as_secs_nonneg) (simp add: rate_ok_iff)
  consider "f64_add (tokens b) g = NaN" | "f64_add (tokens b) g = PInf"
    | z where "g = Fin z" "0 \<le> z" "f64_add (tokens b) g = Fin (rnd (t + z))"
    using g f64_round_nonneg t by (auto simp: f64_nonneg_def) (metis add_nonneg_nonneg)
  then show ?thesis
  proof cases
    case 3
    have "rnd t \<le> rnd (t + z)" using 3 by (intro rnd.mono) simp
    then show ?thesis
      using 3 t assms(2) rnd.idem by (auto simp: refilled_def f64_min_def simp flip: g_def)
  qed (use t assms(2) in \<open>auto simp: refilled_def f64_min_def simp flip: g_def\<close>)
qed

lemma reset_of_pos: "1 \<le> unat (reset_of m r)"
proof -
  have hi: "1 \<le> x \<Longrightarrow> x < 2 ^ 64 \<Longrightarrow> 1 \<le> unat (word_of_int \<lfloor>x\<rfloor> :: u64)" for x :: rat
  proof -
    assume x: "1 \<le> x" "x < 2 ^ 64"
    then have "1 \<le> \<lfloor>x\<rfloor>" by simp
    moreover have "\<lfloor>x\<rfloor> < 2 ^ 64" using x(2) by (simp add: floor_less_iff)
    ultimately have "uint (word_of_int \<lfloor>x\<rfloor> :: u64) = \<lfloor>x\<rfloor>" by (simp add: uint_word_of_int)
    with \<open>1 \<le> \<lfloor>x\<rfloor>\<close> show "1 \<le> unat (word_of_int \<lfloor>x\<rfloor> :: u64)"
      by (simp only: unat_eq_nat_uint)
  qed
  have "(- 1 :: u64) \<noteq> 0" by simp
  then have max1: "1 \<le> unat (- 1 :: u64)"
    by (metis less_one not_le unat_gt_0 neq0_conv)
  then have max2: "Suc 0 \<le> unat (- 1 :: u64)" by simp
  show ?thesis
  proof (cases "f64_max (f64_ceil (f64_div m r)) (Fin 1)")
    case (Fin x)
    then have "1 \<le> x"
      by (cases "f64_ceil (f64_div m r)") (auto simp: f64_max_def split: if_splits)
    with Fin hi [of x] max1 show ?thesis by (simp add: reset_of_def not_le)
  next
    case NInf
    then show ?thesis
      by (cases "f64_ceil (f64_div m r)") (auto simp: f64_max_def split: if_splits)
  next
    case NaN
    then show ?thesis
      by (cases "f64_ceil (f64_div m r)") (auto simp: f64_max_def split: if_splits)
  qed (simp add: reset_of_def max2)
qed

lemma f64_round_Fin: "0 \<le> rnd x \<Longrightarrow> rnd x \<le> 2 ^ 64 \<Longrightarrow> f64_round x = Fin (rnd x)"
proof -
  assume x: "0 \<le> rnd x" "rnd x \<le> 2 ^ 64"
  have "(2 :: rat) ^ 64 < 2 ^ 1024" by (rule power_strict_increasing) simp_all
  moreover have "0 < (2 :: rat) ^ 1024" by simp
  ultimately have "\<not> 2 ^ 1024 \<le> rnd x" "\<not> rnd x \<le> - (2 ^ 1024)" using x by linarith+
  then show ?thesis by (simp only: f64_round_def Let_def if_False)
qed

fun is_allowed :: "rl_decision \<Rightarrow> bool" where
  "is_allowed (Allowed _ _ _) = True" | "is_allowed (Denied _ _) = False"

text \<open>What one check does to a bucket whose level is sound.\<close>

lemma bucket_check_step:
  assumes b: "level_ok (cap l) b" and rate: "rate_ok rate"
    and x: "refilled (Fin (cap l)) rate now b = Fin x"
  shows "is_allowed (fst (bucket_check l rate now b)) \<longleftrightarrow> 1 \<le> x"
    and "1 \<le> x \<Longrightarrow> snd (bucket_check l rate now b) = \<lparr>tokens = Fin (rnd (x - 1)), last_update = now\<rparr>"
    and "\<not> 1 \<le> x \<Longrightarrow> snd (bucket_check l rate now b) = b"
    and "1 \<le> x \<Longrightarrow> 0 \<le> rnd (x - 1) \<and> rnd (x - 1) \<le> cap l"
proof -
  obtain y where y: "refilled (Fin (cap l)) rate now b = Fin y" "rnd y = y" "y \<le> cap l"
    using refilled_range [OF b cap_fix rate] by blast
  with x have xl: "rnd x = x" "x \<le> cap l" by auto
  show lvl: "0 \<le> rnd (x - 1) \<and> rnd (x - 1) \<le> cap l" if "1 \<le> x"
  proof
    show "0 \<le> rnd (x - 1)" using that by (intro rnd.nonneg) simp
    have "rnd (x - 1) \<le> rnd x" by (rule rnd.mono) simp
    with xl show "rnd (x - 1) \<le> cap l" by simp
  qed
  then have sub: "1 \<le> x \<Longrightarrow> f64_sub (Fin x) (Fin 1) = Fin (rnd (x - 1))"
    using f64_round_Fin [of "x - 1"] cap_le [of l] by (force simp: f64_sub_def)
  show "is_allowed (fst (bucket_check l rate now b)) \<longleftrightarrow> 1 \<le> x"
    and "1 \<le> x \<Longrightarrow> snd (bucket_check l rate now b) = \<lparr>tokens = Fin (rnd (x - 1)), last_update = now\<rparr>"
    and "\<not> 1 \<le> x \<Longrightarrow> snd (bucket_check l rate now b) = b"
    using x sub by (auto simp: bucket_check_def f64_of_u64_cap Let_def)
qed

lemma bucket_check_level:
  assumes "level_ok (cap l) b" "rate_ok rate"
  shows "level_ok (cap l) (snd (bucket_check l rate now b))"
proof -
  obtain x where x: "refilled (Fin (cap l)) rate now b = Fin x"
    using refilled_range [OF assms(1) cap_fix assms(2)] by blast
  note step = bucket_check_step [OF assms x]
  show ?thesis
  proof (cases "1 \<le> x")
    case True
    then show ?thesis using step(2,4) by (simp add: level_ok_def rnd.idem)
  next
    case False
    then show ?thesis using step(3) assms(1) by simp
  qed
qed

lemma fresh_level: "level_ok (cap l) \<lparr>tokens = f64_of_u64 l, last_update = now\<rparr>"
  by (simp add: level_ok_def f64_of_u64_cap)

section \<open>The sharded store refines one map\<close>

text \<open>
  The abstract limiter: one bucket per key, no shards and no eviction. The abstraction of
  a limiter reads the shard that the key hashes to.
\<close>

definition rl_abs :: "rl_env \<Rightarrow> limiter \<Rightarrow> string \<rightharpoonup> bucket" where
  "rl_abs E L k = map_of (rl_shards L ! shard_index E k) k"

definition spec_bucket :: "u64 \<Rightarrow> nat \<Rightarrow> bucket option \<Rightarrow> bucket" where
  "spec_bucket l now ob =
     (case ob of Some b \<Rightarrow> b | None \<Rightarrow> \<lparr>tokens = f64_of_u64 l, last_update = now\<rparr>)"

definition spec_check ::
    "u64 \<Rightarrow> f64 \<Rightarrow> nat \<Rightarrow> string \<Rightarrow> (string \<rightharpoonup> bucket) \<Rightarrow> rl_decision \<times> (string \<rightharpoonup> bucket)" where
  "spec_check l rate now k B =
     (let (d, b') = bucket_check l rate now (spec_bucket l now (B k)) in (d, B(k \<mapsto> b')))"

text \<open>The key that a check drops from its shard, if any.\<close>

definition evicted :: "rl_env \<Rightarrow> string \<Rightarrow> limiter \<Rightarrow> string option" where
  "evicted E key L =
     (let k = truncate_key key; m = rl_shards L ! shard_index E k
      in if map_of m k = None \<and> MAX_SHARD_ENTRIES \<le> length m then first_key E m else None)"

lemma shard_entry_map:
  assumes "shard_entry E (f64_of_u64 l) now k m = (b, m')"
  shows "b = spec_bucket l now (map_of m k)"
    and "map_of m' = (case (if map_of m k = None \<and> MAX_SHARD_ENTRIES \<le> length m
                            then first_key E m else None) of
                        Some v \<Rightarrow> (map_of m)(v := None, k \<mapsto> b)
                      | None \<Rightarrow> (map_of m)(k \<mapsto> b))"
  using assms
  by (auto simp: shard_entry_def spec_bucket_def Let_def fun_eq_iff split: option.splits if_splits)

lemma spec_check_simps [simp]:
  "fst (spec_check l rate now k B) = fst (bucket_check l rate now (spec_bucket l now (B k)))"
  "snd (spec_check l rate now k B) =
     B(k \<mapsto> snd (bucket_check l rate now (spec_bucket l now (B k))))"
  by (simp_all add: spec_check_def split_def Let_def)

text \<open>Every key sits in the shard that it hashes to.\<close>

definition placed :: "rl_env \<Rightarrow> limiter \<Rightarrow> bool" where
  "placed E L \<longleftrightarrow>
     (\<forall>i < length (rl_shards L). \<forall>k. map_of (rl_shards L ! i) k \<noteq> None \<longrightarrow> shard_index E k = i)"

lemma placedD:
  "placed E L \<Longrightarrow> i < length (rl_shards L) \<Longrightarrow> map_of (rl_shards L ! i) k \<noteq> None \<Longrightarrow>
   shard_index E k = i"
  unfolding placed_def by blast

text \<open>The limiter after a check, by the entry that it finds or creates.\<close>

definition check_entry :: "rl_env \<Rightarrow> nat \<Rightarrow> string \<Rightarrow> limiter \<Rightarrow> bucket \<times> shard" where
  "check_entry E now key L =
     (let k = truncate_key key
      in shard_entry E (f64_of_u64 (rl_limit L)) now k (rl_shards L ! shard_index E k))"

lemma rl_check_entry:
  assumes "check_entry E now key L = (b, m')"
  shows "rl_check E now key L =
    (fst (bucket_check (rl_limit L) (rl_refill L) now b),
     L\<lparr>rl_shards := (rl_shards L)[shard_index E (truncate_key key) :=
        al_put (truncate_key key) (snd (bucket_check (rl_limit L) (rl_refill L) now b)) m']\<rparr>)"
  using assms by (simp add: rl_check_def check_entry_def Let_def split_def)

lemma check_entry_bucket:
  assumes "check_entry E now key L = (b, m')"
  shows "b = spec_bucket (rl_limit L) now (rl_abs E L (truncate_key key))"
  using assms shard_entry_map(1) by (auto simp: check_entry_def rl_abs_def Let_def)

lemma check_entry_shard:
  assumes "check_entry E now key L = (b, m')"
  shows "map_of m' = (case evicted E key L of
      Some v \<Rightarrow> (map_of (rl_shards L ! shard_index E (truncate_key key)))(v := None, truncate_key key \<mapsto> b)
    | None \<Rightarrow> (map_of (rl_shards L ! shard_index E (truncate_key key)))(truncate_key key \<mapsto> b))"
  using assms shard_entry_map(2) by (auto simp: check_entry_def evicted_def Let_def)

lemma check_entry_key:
  assumes "check_entry E now key L = (b, m')" "map_of m' k \<noteq> None"
  shows "k = truncate_key key \<or> map_of (rl_shards L ! shard_index E (truncate_key key)) k \<noteq> None"
  using assms(2) unfolding check_entry_shard [OF assms(1)]
  by (simp split: option.splits if_splits)

lemma check_entry_at:
  assumes "check_entry E now key L = (b, m')" "shard_index E k = shard_index E (truncate_key key)"
  shows "map_of m' k =
    (if k = truncate_key key then Some b
     else if evicted E key L = Some k then None else rl_abs E L k)"
  unfolding check_entry_shard [OF assms(1)] rl_abs_def
  by (simp add: assms(2) split: option.splits)

lemma evicted_placed:
  assumes "first_key_ok E" "limiter_ok L" "placed E L" "evicted E key L = Some v"
  shows "shard_index E v = shard_index E (truncate_key key)"
proof -
  let ?i = "shard_index E (truncate_key key)"
  have i: "?i < length (rl_shards L)" by (rule shard_index_less [OF assms(2)])
  have "rl_shards L ! ?i \<noteq> []" "first_key E (rl_shards L ! ?i) = Some v"
    using assms(4) by (auto simp: evicted_def Let_def MAX_SHARD_ENTRIES_def split: if_splits)
  then have "map_of (rl_shards L ! ?i) v \<noteq> None"
    using assms(1) unfolding first_key_ok_def by (metis option.inject)
  then show ?thesis by (rule placedD [OF assms(3) i])
qed

lemma rl_abs_update:
  "i < length (rl_shards L) \<Longrightarrow>
   rl_abs E (L\<lparr>rl_shards := (rl_shards L)[i := m]\<rparr>) k =
     (if shard_index E k = i then map_of m k else rl_abs E L k)"
  by (simp add: rl_abs_def nth_list_update)

lemma rl_check_placed:
  assumes "first_key_ok E" "limiter_ok L" "placed E L"
  shows "placed E (snd (rl_check E now key L))"
proof -
  let ?k = "truncate_key key"
  let ?i = "shard_index E (truncate_key key)"
  obtain b m' where e: "check_entry E now key L = (b, m')" by fastforce
  have i: "?i < length (rl_shards L)" by (rule shard_index_less [OF assms(2)])
  have m': "map_of m' k \<noteq> None \<Longrightarrow> shard_index E k = ?i" for k
    using check_entry_key [OF e] placedD [OF assms(3) i] by blast
  define b' where "b' = snd (bucket_check (rl_limit L) (rl_refill L) now b)"
  have sh: "rl_shards (snd (rl_check E now key L)) = (rl_shards L)[?i := al_put ?k b' m']"
    by (simp add: rl_check_entry [OF e] b'_def)
  show ?thesis
    unfolding placed_def sh
  proof (intro allI impI)
    fix j k
    assume j: "j < length ((rl_shards L)[?i := al_put ?k b' m'])"
      and k: "map_of ((rl_shards L)[?i := al_put ?k b' m'] ! j) k \<noteq> None"
    show "shard_index E k = j"
    proof (cases "j = ?i")
      case True
      then have "k = ?k \<or> map_of m' k \<noteq> None" using k i by (auto split: if_splits)
      with m' True show ?thesis by blast
    next
      case False
      with j k show ?thesis by (intro placedD [OF assms(3)]) simp_all
    qed
  qed
qed

text \<open>
  C29. The shards are invisible: a check gives the decision of the limiter that keeps one
  bucket per key, and changes the buckets as it does, except that a check of a new key on
  a full shard first drops the bucket that it evicts.
\<close>

theorem sharding_refines_map:
  assumes "first_key_ok E" "limiter_ok L" "placed E L"
  shows "fst (rl_check E now key L) =
           fst (spec_check (rl_limit L) (rl_refill L) now (truncate_key key) (rl_abs E L))
       \<and> rl_abs E (snd (rl_check E now key L)) =
           snd (spec_check (rl_limit L) (rl_refill L) now (truncate_key key)
                  (case evicted E key L of Some v \<Rightarrow> (rl_abs E L)(v := None) | None \<Rightarrow> rl_abs E L))"
proof
  let ?k = "truncate_key key"
  obtain b m' where e: "check_entry E now key L = (b, m')" by fastforce
  have i: "shard_index E ?k < length (rl_shards L)" by (rule shard_index_less [OF assms(2)])
  note b = check_entry_bucket [OF e]
  show "fst (rl_check E now key L) =
      fst (spec_check (rl_limit L) (rl_refill L) now ?k (rl_abs E L))"
    by (simp add: rl_check_entry [OF e] b)
  let ?B = "case evicted E key L of Some v \<Rightarrow> (rl_abs E L)(v := None) | None \<Rightarrow> rl_abs E L"
  define b' where "b' = snd (bucket_check (rl_limit L) (rl_refill L) now b)"
  have same: "?B ?k = rl_abs E L ?k"
    by (auto simp: evicted_def rl_abs_def Let_def split: option.splits if_splits)
  have post: "rl_abs E (snd (rl_check E now key L)) k = (?B(?k \<mapsto> b')) k" for k
  proof (cases "shard_index E k = shard_index E ?k")
    case True
    then show ?thesis
      using check_entry_at [OF e True]
      by (simp add: rl_check_entry [OF e] rl_abs_update [OF i] b'_def split: option.splits)
  next
    case False
    then have "evicted E key L \<noteq> Some k" using evicted_placed [OF assms] by blast
    with False show ?thesis
      by (auto simp: rl_check_entry [OF e] rl_abs_update [OF i] split: option.splits)
  qed
  then show "rl_abs E (snd (rl_check E now key L)) =
      snd (spec_check (rl_limit L) (rl_refill L) now ?k ?B)"
    unfolding spec_check_simps same b [symmetric] b'_def by blast
qed

lemma rl_check_params [frame_simps]:
  "rl_limit (snd (rl_check E now key L)) = rl_limit L"
  "rl_refill (snd (rl_check E now key L)) = rl_refill L"
  by (simp_all add: rl_check_def Let_def split_def)

text \<open>
  A reset or retry delay sent to a client is never zero, whatever the rate: infinite,
  NaN or zero included.
\<close>

theorem reset_secs_positive: "1 \<le> unat (d_reset (fst (rl_check E now key L)))"
  using reset_of_pos by (simp add: rl_check_def bucket_check_def Let_def split_def)

section \<open>Requests under one key\<close>

text \<open>One bucket's life: the checks of one key, by their clock readings.\<close>

fun bucket_run :: "u64 \<Rightarrow> f64 \<Rightarrow> nat list \<Rightarrow> bucket \<Rightarrow> rl_decision list \<times> bucket" where
  "bucket_run l rate [] b = ([], b)"
| "bucket_run l rate (now # ts) b =
     (let (d, b') = bucket_check l rate now b; (ds, b'') = bucket_run l rate ts b' in (d # ds, b''))"

lemma bucket_run_Cons [simp]:
  "fst (bucket_run l rate (now # ts) b) =
     fst (bucket_check l rate now b) # fst (bucket_run l rate ts (snd (bucket_check l rate now b)))"
  "snd (bucket_run l rate (now # ts) b) =
     snd (bucket_run l rate ts (snd (bucket_check l rate now b)))"
  by (simp_all add: split_def Let_def)

lemma rl_run_Cons [simp]:
  "fst (rl_run E ((now, key) # reqs) L) =
     fst (rl_check E now key L) # fst (rl_run E reqs (snd (rl_check E now key L)))"
  "snd (rl_run E ((now, key) # reqs) L) = snd (rl_run E reqs (snd (rl_check E now key L)))"
  by (simp_all add: split_def Let_def)

declare bucket_run.simps(2) [simp del] rl_run.simps(2) [simp del]

lemma rl_run_known_key:
  assumes "first_key_ok E" "limiter_ok L" "placed E L"
    and "rl_abs E L (truncate_key key) = Some b"
  shows "fst (rl_run E (map (\<lambda>t. (t, key)) ts) L) = fst (bucket_run (rl_limit L) (rl_refill L) ts b)"
  using assms
proof (induction ts arbitrary: L b)
  case (Cons t ts)
  let ?L = "snd (rl_check E t key L)"
  have ev: "evicted E key L = None"
    using Cons.prems(4) by (simp add: evicted_def rl_abs_def Let_def)
  note ref = sharding_refines_map [OF Cons.prems(1-3), of t key]
  have d: "fst (rl_check E t key L) = fst (bucket_check (rl_limit L) (rl_refill L) t b)"
    using ref Cons.prems(4) by (simp add: spec_bucket_def)
  have "rl_abs E ?L (truncate_key key) = Some (snd (bucket_check (rl_limit L) (rl_refill L) t b))"
    using ref Cons.prems(4) ev by (simp add: spec_bucket_def)
  then show ?case
    using Cons.IH [of ?L] Cons.prems rl_check_ok rl_check_placed
    by (simp add: d rl_check_params)
qed simp

text \<open>The checks of a key that the limiter has not seen: a run of a fresh, full bucket.\<close>

lemma rl_run_new_key:
  assumes "first_key_ok E" "limiter_ok L" "placed E L"
    and "rl_abs E L (truncate_key key) = None"
  shows "fst (rl_run E (map (\<lambda>t. (t, key)) (t # ts)) L) =
    fst (bucket_run (rl_limit L) (rl_refill L) (t # ts)
      \<lparr>tokens = Fin (cap (rl_limit L)), last_update = t\<rparr>)"
proof -
  let ?L = "snd (rl_check E t key L)"
  let ?b = "\<lparr>tokens = Fin (cap (rl_limit L)), last_update = t\<rparr>"
  note ref = sharding_refines_map [OF assms(1-3), of t key]
  have new: "((case evicted E key L of None \<Rightarrow> rl_abs E L | Some v \<Rightarrow> (rl_abs E L)(v := None)))
      (truncate_key key) = None"
    using assms(4) by (auto split: option.split)
  have d: "fst (rl_check E t key L) = fst (bucket_check (rl_limit L) (rl_refill L) t ?b)"
    using ref assms(4) by (simp add: spec_bucket_def f64_of_u64_cap)
  have "rl_abs E ?L (truncate_key key) = Some (snd (bucket_check (rl_limit L) (rl_refill L) t ?b))"
    using ref new by (simp add: spec_bucket_def f64_of_u64_cap)
  then have "fst (rl_run E (map (\<lambda>t. (t, key)) ts) ?L) =
      fst (bucket_run (rl_limit L) (rl_refill L) ts (snd (bucket_check (rl_limit L) (rl_refill L) t ?b)))"
    using rl_run_known_key [of E ?L key] assms rl_check_ok rl_check_placed
    by (simp add: rl_check_params)
  then show ?thesis by (simp add: d)
qed

lemma placed_new: "placed E (limiter_new c)"
  by (auto simp: placed_def limiter_new_def)

lemma rl_abs_new: "rl_abs E (limiter_new c) k = None"
  by (simp add: rl_abs_def limiter_new_def shard_index_def NUM_SHARDS_def)

subsection \<open>A burst\<close>

lemma refilled_same_instant:
  assumes "rnd t = t" "0 \<le> t" "t \<le> cap l" "last_update b = now" "tokens b = Fin t" "0 \<le> r"
  shows "refilled (Fin (cap l)) (Fin r) now b = Fin t"
proof -
  have z: "f64_round 0 = Fin 0" using f64_round_Fin [of 0] by simp
  have e: "as_secs_f64 0 = Fin 0" by (simp add: as_secs_f64_def z)
  have "f64_round t = Fin t" using assms f64_round_Fin [of t] cap_le [of l] by simp
  with assms e z show ?thesis by (simp add: refilled_def f64_min_def)
qed

lemma burst_run:
  assumes "n \<le> unat l" "unat l \<le> 2 ^ 53" "0 \<le> r"
  shows "map is_allowed (fst (bucket_run l (Fin r) (replicate k now)
           \<lparr>tokens = Fin (of_nat n), last_update = now\<rparr>)) = map (\<lambda>i. i < n) [0..<k]"
  using assms(1)
proof (induction k arbitrary: n)
  case (Suc k)
  let ?b = "\<lparr>tokens = Fin (of_nat n), last_update = now\<rparr>"
  have n: "rnd (of_nat n) = of_nat n" "of_nat n \<le> cap l"
    using Suc.prems assms by (simp_all add: rnd_of_nat cap_exact)
  have lv: "level_ok (cap l) ?b" using n by (simp add: level_ok_def)
  have rt: "rate_ok (Fin r)" using assms(3) by (simp add: rate_ok_def)
  have x: "refilled (Fin (cap l)) (Fin r) now ?b = Fin (of_nat n)"
    using n assms(3) by (intro refilled_same_instant) simp_all
  note step = bucket_check_step [OF lv rt x]
  have shift: "[0..<Suc k] = 0 # map Suc [0..<k]" by (simp add: map_Suc_upt upt_conv_Cons)
  show ?case
  proof (cases n)
    case 0
    then have "snd (bucket_check l (Fin r) now ?b) = ?b" using step(3) by simp
    with 0 Suc.IH [of 0] step(1) show ?thesis by (simp add: shift comp_def del: upt_Suc)
  next
    case (Suc n')
    then have "rnd (of_nat n - 1) = of_nat n'"
      using Suc.prems assms(2) rnd_of_nat [of n'] by simp
    then have "snd (bucket_check l (Fin r) now ?b) = \<lparr>tokens = Fin (of_nat n'), last_update = now\<rparr>"
      using step(2) Suc by simp
    moreover have "n' \<le> unat l" using Suc Suc.prems by simp
    ultimately show ?thesis using Suc.IH [of n'] step(1) Suc by (simp add: shift comp_def del: upt_Suc)
  qed
qed simp

lemma refill_rate_Fin:
  assumes "cfg_window c = Fin w" "1 \<le> w"
  shows "rl_refill (limiter_new c) = Fin (rnd (cap (cfg_limit c) / w)) \<and> 0 \<le> rnd (cap (cfg_limit c) / w)"
proof -
  let ?c = "cap (cfg_limit c)"
  have "?c / w \<le> ?c" "0 \<le> ?c / w" using assms(2) mult_left_mono [of 1 w ?c] by (simp_all add: divide_le_eq)
  then have "rnd (?c / w) \<le> rnd ?c" "0 \<le> rnd (?c / w)"
    by (simp_all only: rnd.mono rnd.nonneg)
  then have "f64_round (?c / w) = Fin (rnd (?c / w))"
    using cap_le [of "cfg_limit c"] by (intro f64_round_Fin) simp_all
  with assms \<open>0 \<le> rnd (?c / w)\<close> show ?thesis
    by (simp add: limiter_new_def f64_of_u64_cap)
qed

lemma burst_decisions:
  assumes "first_key_ok E" "cfg_window c = Fin w" "1 \<le> w" "unat (cfg_limit c) \<le> 2 ^ 53"
  shows "map is_allowed (fst (rl_run E (replicate k (now, key)) (limiter_new c))) =
    map (\<lambda>i. i < unat (cfg_limit c)) [0..<k]"
proof (cases k)
  case (Suc j)
  let ?L = "limiter_new c" and ?l = "cfg_limit c"
  let ?r = "rnd (cap ?l / w)"
  have "replicate k (now, key) = map (\<lambda>t. (t, key)) (now # replicate j now)"
    using Suc by simp
  then have "fst (rl_run E (replicate k (now, key)) ?L) =
      fst (bucket_run ?l (rl_refill ?L) (now # replicate j now) \<lparr>tokens = Fin (cap ?l), last_update = now\<rparr>)"
    using rl_run_new_key [where L = ?L and key = key and t = now and ts = "replicate j now",
        OF assms(1) limiter_ok_new placed_new rl_abs_new]
    by (simp add: limiter_new_def)
  also have "now # replicate j now = replicate k now" using Suc by simp
  finally show ?thesis
    using burst_run [of "unat ?l" ?l ?r k now] refill_rate_Fin [OF assms(2,3)] assms(4)
    by (simp add: cap_exact)
qed simp

text \<open>
  C15. A burst gets exactly the configured number of requests: of any number of requests
  of one client at one instant on a new limiter, the first \<open>limit\<close> are allowed and all
  later ones denied.
\<close>

theorem burst_exactly_limit:
  assumes "first_key_ok E" "cfg_window c = Fin w" "1 \<le> w" "unat (cfg_limit c) \<le> 2 ^ 53"
  shows "map is_allowed (fst (rl_run E (replicate k (now, key)) (limiter_new c))) =
    map (\<lambda>i. i < unat (cfg_limit c)) [0..<k]"
  by (rule burst_decisions [OF assms])

lemma check_denied_limit: "fst (rl_check E now key L) = Denied limit reset \<Longrightarrow> limit = rl_limit L"
  by (auto simp: rl_check_def bucket_check_def Let_def split: prod.splits if_splits)

lemma run_denied_limit: "Denied limit reset \<in> set (fst (rl_run E reqs L)) \<Longrightarrow> limit = rl_limit L"
proof (induction reqs arbitrary: L)
  case (Cons r reqs)
  obtain now key where r: "r = (now, key)" by fastforce
  show ?case
    using Cons.prems Cons.IH [of "snd (rl_check E now key L)"] check_denied_limit [of E now key L limit reset]
    by (auto simp: r rl_check_params)
qed simp

subsection \<open>A window that is not a number\<close>

definition levels_ok :: "limiter \<Rightarrow> bool" where
  "levels_ok L \<longleftrightarrow> length (rl_shards L) = NUM_SHARDS \<and>
     (\<forall>i < NUM_SHARDS. \<forall>k b. map_of (rl_shards L ! i) k = Some b \<longrightarrow> level_ok (cap (rl_limit L)) b)"

lemma check_entry_level:
  assumes "levels_ok L" "check_entry E now key L = (b, m')"
  shows "level_ok (cap (rl_limit L)) b"
    and "map_of m' k = Some b1 \<Longrightarrow> level_ok (cap (rl_limit L)) b1"
proof -
  let ?i = "shard_index E (truncate_key key)"
  have i: "?i < NUM_SHARDS" by (simp add: shard_index_def NUM_SHARDS_def)
  show b: "level_ok (cap (rl_limit L)) b"
    using assms(1) i fresh_level unfolding check_entry_bucket [OF assms(2)] levels_ok_def
    by (auto simp: spec_bucket_def rl_abs_def split: option.splits)
  show "map_of m' k = Some b1 \<Longrightarrow> level_ok (cap (rl_limit L)) b1"
    using assms(1) i b unfolding check_entry_shard [OF assms(2)] levels_ok_def
    by (auto split: option.splits if_splits)
qed

lemma rl_check_levels:
  assumes "levels_ok L" "rate_ok (rl_refill L)"
  shows "levels_ok (snd (rl_check E now key L))"
proof -
  let ?k = "truncate_key key"
  let ?i = "shard_index E (truncate_key key)"
  obtain b m' where e: "check_entry E now key L = (b, m')" by fastforce
  define b' where "b' = snd (bucket_check (rl_limit L) (rl_refill L) now b)"
  have b': "level_ok (cap (rl_limit L)) b'"
    unfolding b'_def by (rule bucket_check_level [OF check_entry_level(1) [OF assms(1) e] assms(2)])
  have sh: "snd (rl_check E now key L) = L\<lparr>rl_shards := (rl_shards L)[?i := al_put ?k b' m']\<rparr>"
    by (simp add: rl_check_entry [OF e] b'_def)
  have put: "map_of (al_put ?k b' m') k = Some b1 \<Longrightarrow> level_ok (cap (rl_limit L)) b1" for k b1
    using b' check_entry_level(2) [OF assms(1) e] by (auto split: if_splits)
  have "map_of ((rl_shards L)[?i := al_put ?k b' m'] ! j) k = Some b1 \<Longrightarrow> j < NUM_SHARDS \<Longrightarrow>
      level_ok (cap (rl_limit L)) b1" for j k b1
    using assms(1) put by (cases "j = ?i") (auto simp: levels_ok_def simp del: map_of_al_put)
  then show ?thesis
    using assms(1) unfolding levels_ok_def sh by simp
qed

lemma levels_ok_new: "levels_ok (limiter_new c)"
  by (simp add: levels_ok_def limiter_new_def)

lemma nan_check_allowed:
  assumes "levels_ok L" "rl_refill L = NaN" "rl_limit L \<noteq> 0"
  shows "is_allowed (fst (rl_check E now key L))"
proof -
  obtain b m' where e: "check_entry E now key L = (b, m')" by fastforce
  have b: "level_ok (cap (rl_limit L)) b" by (rule check_entry_level(1) [OF assms(1) e])
  then obtain t where t: "tokens b = Fin t" by (auto simp: level_ok_def)
  have nan: "f64_mul a NaN = NaN" for a by (cases a) simp_all
  have "refilled (Fin (cap (rl_limit L))) NaN now b = Fin (cap (rl_limit L))"
    by (simp add: refilled_def t nan f64_min_def)
  from bucket_check_step(1) [OF b _ this] show ?thesis
    using cap_ge_1 [OF assms(3)] by (simp add: rl_check_entry [OF e] assms(2) rate_ok_def)
qed

lemma nan_run_allowed:
  "levels_ok L \<Longrightarrow> rl_refill L = NaN \<Longrightarrow> rl_limit L \<noteq> 0 \<Longrightarrow>
   list_all is_allowed (fst (rl_run E reqs L))"
proof (induction reqs arbitrary: L)
  case (Cons r reqs)
  obtain now key where r: "r = (now, key)" by fastforce
  have "levels_ok (snd (rl_check E now key L))"
    using Cons.prems by (intro rl_check_levels) (simp_all add: rate_ok_def)
  then have "list_all is_allowed (fst (rl_run E reqs (snd (rl_check E now key L))))"
    using Cons.prems by (intro Cons.IH) (simp_all add: rl_check_params)
  then show ?case using nan_check_allowed [OF Cons.prems] by (simp add: r)
qed simp

text \<open>
  C40. The parser accepts a window of \<open>nan\<close> seconds (NaN fails the test for a value at
  most zero), and the limiter that it configures never denies a request.
\<close>

theorem nan_window_disables_limit:
  "rl_parse ''5/nans'' None = Ok \<lparr>cfg_limit = 5, cfg_window = NaN, cfg_strategy = Ip\<rparr> \<and>
   list_all is_allowed
     (fst (rl_run E reqs (limiter_new \<lparr>cfg_limit = 5, cfg_window = NaN, cfg_strategy = Ip\<rparr>)))"
proof
  show "rl_parse ''5/nans'' None = Ok \<lparr>cfg_limit = 5, cfg_window = NaN, cfg_strategy = Ip\<rparr>"
    by (simp add: rl_parse_def parse_window_def parse_f64_def str_simps)
  show "list_all is_allowed
     (fst (rl_run E reqs (limiter_new \<lparr>cfg_limit = 5, cfg_window = NaN, cfg_strategy = Ip\<rparr>)))"
    by (rule nan_run_allowed [OF levels_ok_new])
      (simp_all add: limiter_new_def f64_of_u64_cap)
qed

end
