(* ===== verification/RateLimitRun.thy ===== *)
theory RateLimitRun
  imports RateLimit
begin

text \<open>
  The token bucket over time (\<open>src/src/rate_limit.rs\<close>): how many requests of one key a
  limiter lets through in any interval, with the rounding of the arithmetic accounted for.
\<close>

subsection \<open>The long run\<close>

text \<open>The seconds that \<open>as_secs_f64\<close> computes, exactly.\<close>

definition secs_val :: "nat \<Rightarrow> rat" where
  "secs_val ns = rnd (of_nat (ns div 10 ^ 9) + rnd (of_nat (ns mod 10 ^ 9) / 10 ^ 9))"

lemma f64_le_of_bound: "0 \<le> x \<Longrightarrow> x \<le> 2 ^ 53 \<Longrightarrow> f64_round x = Fin (rnd x) \<and> 0 \<le> rnd x \<and> rnd x \<le> 2 ^ 53"
proof -
  assume x: "0 \<le> x" "x \<le> 2 ^ 53"
  then have "0 \<le> rnd x" "rnd x \<le> rnd (of_int (2 ^ 53))" by (auto intro: rnd.mono rnd.nonneg)
  moreover have "rnd (of_int (2 ^ 53)) = of_int (2 ^ 53)" by (rule rnd.ints) simp
  ultimately have b: "0 \<le> rnd x" "rnd x \<le> 2 ^ 53" by simp_all
  then show ?thesis by (intro conjI f64_round_Fin) simp_all
qed

lemma as_secs_val:
  assumes "ns < 2 ^ 52 * 10 ^ 9"
  shows "as_secs_f64 ns = Fin (secs_val ns) \<and> 0 \<le> secs_val ns"
proof -
  let ?s = "ns div 10 ^ 9" and ?n = "ns mod 10 ^ 9"
  have s: "?s < 2 ^ 52" using assms by (simp add: less_mult_imp_div_less)
  have n: "?n < 10 ^ 9" by simp
  have rs: "rnd (of_nat ?s) = of_nat ?s" using s by (intro rnd_of_nat) simp
  have rn: "rnd (of_nat ?n) = of_nat ?n" using n by (intro rnd_of_nat) simp
  have s': "(of_nat ?s :: rat) \<le> 2 ^ 52"
  proof -
    have "(of_nat ?s :: rat) \<le> of_nat (2 ^ 52)" using s by (simp only: of_nat_le_iff less_imp_le)
    then show ?thesis by simp
  qed
  have n': "(of_nat ?n :: rat) \<le> 10 ^ 9"
  proof -
    have "(of_nat ?n :: rat) \<le> of_nat (10 ^ 9)" using n by (simp only: of_nat_le_iff less_imp_le)
    then show ?thesis by simp
  qed
  have q: "0 \<le> (of_nat ?n :: rat) / 10 ^ 9" "(of_nat ?n :: rat) / 10 ^ 9 \<le> 1"
    using n' by simp_all
  have q1: "rnd (of_nat ?n / 10 ^ 9) \<le> 1"
    using rnd.mono [OF q(2)] rnd.ints [of 1] by simp
  note q0 = f64_le_of_bound [OF q(1) order_trans [OF q(2)]]
  have sum: "0 \<le> (of_nat ?s :: rat) + rnd (of_nat ?n / 10 ^ 9)"
    "(of_nat ?s :: rat) + rnd (of_nat ?n / 10 ^ 9) \<le> 2 ^ 53"
    using s' q1 q0 by simp_all
  have "f64_round (of_nat ?s) = Fin (of_nat ?s)" "f64_round (of_nat ?n) = Fin (of_nat ?n)"
    using f64_le_of_bound [of "of_nat ?s"] f64_le_of_bound [of "of_nat ?n"] s' n' rs rn by simp_all
  then show ?thesis
    using q0 f64_le_of_bound [OF sum] by (simp add: as_secs_f64_def secs_val_def)
qed

lemma secs_val_upper:
  "secs_val ns \<le> of_nat ns / 10 ^ 9 * (1 + eps53) * (1 + eps53) + (2 + eps53) * tiny"
proof -
  have "ns = ns div 10 ^ 9 * 10 ^ 9 + ns mod 10 ^ 9" by simp
  then have "(of_nat ns :: rat) = of_nat (ns div 10 ^ 9) * 10 ^ 9 + of_nat (ns mod 10 ^ 9)"
    by (metis of_nat_add of_nat_mult of_nat_numeral of_nat_power)
  then have eq: "of_nat (ns div 10 ^ 9) + of_nat (ns mod 10 ^ 9) / 10 ^ 9 = (of_nat ns :: rat) / 10 ^ 9"
    by (simp add: add_divide_distrib)
  have "0 \<le> (of_nat (ns mod 10 ^ 9) :: rat) / 10 ^ 9" by simp
  from rnd.sum_upper [OF _ this, of "of_nat (ns div 10 ^ 9)"] show ?thesis
    unfolding secs_val_def eq by simp
qed

text \<open>
  What rounding can add to the credit of one request: relative \<open>2^-53\<close> of the capacity,
  and terms of the size of the smallest float.
\<close>

definition slack :: "rat \<Rightarrow> rat \<Rightarrow> rat" where
  "slack c r = c * eps53 + (2 + eps53) * tiny + (2 + eps53) * tiny * r * (1 + eps53) * (1 + eps53)"

definition credit :: "rat \<Rightarrow> nat \<Rightarrow> rat" where
  "credit r ns = of_nat ns / 10 ^ 9 * r * (1 + eps53) ^ 4"

lemma f64_round_cases:
  assumes "0 \<le> x"
  obtains "f64_round x = Fin (rnd x)" "0 \<le> rnd x" | "f64_round x = PInf" "2 ^ 64 \<le> rnd x"
proof (cases "rnd x \<le> 2 ^ 64")
  case True
  then show ?thesis using f64_round_Fin [of x] rnd.nonneg [OF assms] that by blast
next
  case False
  then show ?thesis using f64_round_nonneg [OF assms] that by force
qed

lemma refilled_le:
  assumes t: "tokens b = Fin t" "0 \<le> t" and s: "as_secs_f64 (now - last_update b) = Fin s"
    and g: "0 \<le> s * r"
    and x: "refilled (Fin (cap l)) (Fin r) now b = Fin x"
  shows "x \<le> min (rnd (t + rnd (s * r))) (cap l)"
proof (cases rule: f64_round_cases [OF g])
  case 1
  have "0 \<le> t + rnd (s * r)" using t(2) 1(2) by simp
  then show ?thesis
    using x t(1) s 1 cap_le [of l]
    by (cases rule: f64_round_cases) (auto simp: refilled_def f64_min_def split: if_splits)
next
  case 2
  have "rnd (s * r) \<le> rnd (t + rnd (s * r))"
    using rnd.mono [of "rnd (s * r)" "t + rnd (s * r)"] t(2) by (simp add: rnd.idem)
  moreover have "x = cap l" using x t(1) s 2 by (simp add: refilled_def f64_min_def)
  ultimately show ?thesis using 2 cap_le [of l] by linarith
qed

lemma four_factors:
  fixes a k r e :: rat
  shows "(a * e * e + k) * r * (e * e) = a * r * e ^ 4 + k * r * e * e"
  by (simp add: algebra_simps power4_eq_xxxx)

lemma allowed_gain:
  assumes b: "level_ok (cap l) b" and r: "0 \<le> r" and l: "unat l \<le> 2 ^ 53"
    and dt: "now - last_update b < 2 ^ 52 * 10 ^ 9"
    and al: "is_allowed (fst (bucket_check l (Fin r) now b))"
  shows "\<exists>t t'. tokens b = Fin t \<and> snd (bucket_check l (Fin r) now b) = \<lparr>tokens = Fin t', last_update = now\<rparr>
    \<and> t' + 1 \<le> t + credit r (now - last_update b) + slack (cap l) r"
proof -
  let ?d = "now - last_update b" and ?c = "cap l"
  have rt: "rate_ok (Fin r)" using r by (simp add: rate_ok_def)
  obtain t where t: "tokens b = Fin t" "0 \<le> t" "t \<le> ?c" "rnd t = t" using b by (auto simp: level_ok_def)
  obtain x where x: "refilled (Fin ?c) (Fin r) now b = Fin x" "rnd x = x" "x \<le> ?c"
    using refilled_range [OF b cap_fix rt] by blast
  note step = bucket_check_step [OF b rt x(1)]
  have x1: "1 \<le> x" using step(1) al by simp
  have "cap l \<le> 2 ^ 53"
  proof -
    have "(of_nat (unat l) :: rat) \<le> of_nat (2 ^ 53)" using l by (simp only: of_nat_le_iff)
    then show ?thesis using cap_exact [OF l] by simp
  qed
  then have minus: "rnd (x - 1) = x - 1" using rnd.take_one [OF x(2) x1 x(3)] by simp
  have sec: "as_secs_f64 ?d = Fin (secs_val ?d)" "0 \<le> secs_val ?d" using as_secs_val [OF dt] by auto
  let ?g = "secs_val ?d * r"
  have g: "0 \<le> ?g" using sec r by simp
  have "x \<le> min (rnd (t + rnd ?g)) ?c"
    by (rule refilled_le [OF t(1,2) sec(1) g x(1)])
  also have "\<dots> \<le> t + ?g * (1 + eps53) * (1 + eps53) + ?c * eps53 + (2 + eps53) * tiny"
    using rnd.refill_gain [OF t(2,3) g] by linarith
  also have "\<dots> \<le> t + credit r ?d + slack ?c r"
  proof -
    have e: "0 \<le> (1 + eps53) * (1 + eps53)" by (simp add: eps53_def)
    have "?g * ((1 + eps53) * (1 + eps53)) \<le>
      (of_nat ?d / 10 ^ 9 * (1 + eps53) * (1 + eps53) + (2 + eps53) * tiny) * r * ((1 + eps53) * (1 + eps53))"
      using secs_val_upper r e by (intro mult_right_mono) auto
    also have "\<dots> = credit r ?d + (2 + eps53) * tiny * r * (1 + eps53) * (1 + eps53)"
      unfolding credit_def by (rule four_factors)
    finally show ?thesis unfolding slack_def by linarith
  qed
  finally have "x \<le> t + credit r ?d + slack ?c r" .
  then show ?thesis using t(1) step(2) [OF x1] minus by auto
qed

text \<open>A run: the requests let through are paid for by the starting level and the refill.\<close>

definition allowed_count :: "rl_decision list \<Rightarrow> nat" where
  "allowed_count ds = length (filter is_allowed ds)"

lemma allowed_count_simps [simp]:
  "allowed_count [] = 0"
  "allowed_count (d # ds) = (if is_allowed d then Suc (allowed_count ds) else allowed_count ds)"
  by (simp_all add: allowed_count_def)

lemma denied_bucket: "\<not> is_allowed (fst (bucket_check l r now b)) \<Longrightarrow> snd (bucket_check l r now b) = b"
  by (auto simp: bucket_check_def Let_def)

lemma credit_add: "credit r (a + b) = credit r a + credit r b"
  by (simp add: credit_def algebra_simps add_divide_distrib)

lemma credit_mono: "0 \<le> r \<Longrightarrow> a \<le> b \<Longrightarrow> credit r a \<le> credit r b"
  unfolding credit_def by (intro mult_right_mono divide_right_mono) (simp_all add: eps53_def)

lemma limiter_new_limit: "rl_limit (limiter_new c) = cfg_limit c"
  by (simp add: limiter_new_def)

lemma run_gain:
  assumes "level_ok (cap l) b" "0 \<le> r" "unat l \<le> 2 ^ 53" "tokens b = Fin t"
    and "sorted (last_update b # ts)" "\<forall>x \<in> set ts. x \<le> h" "h - last_update b < 2 ^ 52 * 10 ^ 9"
    and "last_update b \<le> h"
  shows "of_nat (allowed_count (fst (bucket_run l (Fin r) ts b))) \<le>
    t + credit r (h - last_update b)
      + of_nat (allowed_count (fst (bucket_run l (Fin r) ts b))) * slack (cap l) r"
  using assms
proof (induction ts arbitrary: b t)
  case Nil
  then show ?case by (auto simp: level_ok_def credit_def eps53_def)
next
  case (Cons now ts)
  let ?b = "snd (bucket_check l (Fin r) now b)"
  show ?case
  proof (cases "is_allowed (fst (bucket_check l (Fin r) now b))")
    case False
    then show ?thesis using Cons.IH [of b t] Cons.prems denied_bucket [OF False] by simp
  next
    case True
    have lt: "last_update b \<le> now" "now \<le> h" using Cons.prems by auto
    have dt: "now - last_update b < 2 ^ 52 * 10 ^ 9" using lt Cons.prems(7) by linarith
    from allowed_gain [OF Cons.prems(1-3) dt True] Cons.prems(4) obtain t'
      where b': "?b = \<lparr>tokens = Fin t', last_update = now\<rparr>"
        and g: "t' + 1 \<le> t + credit r (now - last_update b) + slack (cap l) r" by auto
    have lv: "level_ok (cap l) ?b"
      using Cons.prems(1,2) by (intro bucket_check_level) (simp_all add: rate_ok_def)
    have "h - last_update b = (now - last_update b) + (h - now)" using lt by simp
    then have cr: "credit r (h - last_update b) = credit r (now - last_update b) + credit r (h - now)"
      by (simp only: credit_add)
    let ?n = "of_nat (allowed_count (fst (bucket_run l (Fin r) ts ?b))) :: rat"
    have "?n \<le> t' + credit r (h - now) + ?n * slack (cap l) r"
      using Cons.IH [of ?b t'] Cons.prems lv lt b' by simp
    then show ?thesis
      using True g unfolding cr by (simp add: algebra_simps)
  qed
qed

text \<open>
  C16. The long run: of the requests of one client on a new limiter at times \<open>t \<le> \<dots> \<le> h\<close>
  (less than \<open>2^52\<close> seconds apart), the number allowed is at most the limit plus the
  refill rate times the time passed, up to the rounding: four factors \<open>1 + 2^-53\<close> on the
  refill and one \<open>slack\<close>, of the order of \<open>limit * 2^-53\<close>, for each request allowed.
\<close>

theorem allowed_in_interval:
  assumes "first_key_ok E" "cfg_window c = Fin w" "1 \<le> w" "unat (cfg_limit c) \<le> 2 ^ 53"
    and "sorted (t # ts)" "\<forall>x \<in> set ts. x \<le> h" "t \<le> h" "h - t < 2 ^ 52 * 10 ^ 9"
    and "n = allowed_count (fst (rl_run E (map (\<lambda>now. (now, key)) (t # ts)) (limiter_new c)))"
    and "r = rnd (of_nat (unat (cfg_limit c)) / w)"
  shows "of_nat n \<le> of_nat (unat (cfg_limit c)) + credit r (h - t)
    + of_nat n * slack (of_nat (unat (cfg_limit c))) r"
proof -
  let ?l = "cfg_limit c"
  have cap: "cap ?l = of_nat (unat ?l)" by (rule cap_exact [OF assms(4)])
  have r: "rl_refill (limiter_new c) = Fin r" "0 \<le> r"
    using refill_rate_Fin [OF assms(2,3)] unfolding cap assms(10) by auto
  let ?b = "\<lparr>tokens = Fin (cap ?l), last_update = t\<rparr>"
  have lv: "level_ok (cap ?l) ?b" by (simp add: level_ok_def)
  have run: "fst (rl_run E (map (\<lambda>now. (now, key)) (t # ts)) (limiter_new c)) =
      fst (bucket_run ?l (Fin r) (t # ts) ?b)"
    using rl_run_new_key [OF assms(1) limiter_ok_new placed_new rl_abs_new,
        where t = t and ts = ts and key = key]
    by (simp only: r limiter_new_limit)
  show ?thesis
    using run_gain [OF lv r(2) assms(4), where t = "cap ?l" and ts = "t # ts" and h = h] assms(5-8)
    unfolding assms(9) run cap by simp
qed

section \<open>The properties at concrete inputs\<close>

text \<open>An environment that satisfies the promises: the hash is the length, the first key the list's.\<close>

definition sample_rl_env :: rl_env where
  "sample_rl_env = \<lparr>hash_key = length, first_key = (\<lambda>m. case m of [] \<Rightarrow> None | e # _ \<Rightarrow> Some (fst e))\<rparr>"

lemma sample_rl_env_ok: "first_key_ok sample_rl_env"
  by (auto simp: first_key_ok_def sample_rl_env_def split: list.split)

definition sample_cfg :: rl_config where
  "sample_cfg = \<lparr>cfg_limit = 5, cfg_window = Fin 60, cfg_strategy = Ip\<rparr>"

lemma sample_cfg_simps [simp]:
  "cfg_limit sample_cfg = 5" "cfg_window sample_cfg = Fin 60" "cfg_strategy sample_cfg = Ip"
  by (simp_all add: sample_cfg_def)

theorem limiter_memory_bounded_witness:
  "length (rl_shards (snd (rl_run sample_rl_env [(0, ''a''), (7, ''b'')] (limiter_new sample_cfg))) ! 1) \<le> 8192"
proof -
  have "limiter_ok (snd (rl_run sample_rl_env [(0, ''a''), (7, ''b'')] (limiter_new sample_cfg)))"
    by (rule rl_run_ok [OF sample_rl_env_ok limiter_ok_new])
  then have "rl_shards (snd (rl_run sample_rl_env [(0, ''a''), (7, ''b'')] (limiter_new sample_cfg))) ! 1
    \<in> set (rl_shards (snd (rl_run sample_rl_env [(0, ''a''), (7, ''b'')] (limiter_new sample_cfg))))"
    by (intro nth_mem) (simp add: limiter_ok_def NUM_SHARDS_def)
  from limiter_memory_bounded [OF sample_rl_env_ok this] show ?thesis by blast
qed

theorem sharding_refines_map_witness:
  "fst (rl_check sample_rl_env 3 ''a'' (limiter_new sample_cfg)) =
     fst (spec_check 5 (rl_refill (limiter_new sample_cfg)) 3 ''a'' Map.empty)"
proof -
  have "rl_abs sample_rl_env (limiter_new sample_cfg) = Map.empty" by (rule ext) (rule rl_abs_new)
  then show ?thesis
    using sharding_refines_map [OF sample_rl_env_ok limiter_ok_new placed_new, of 3 "''a''" sample_cfg]
    by (simp add: limiter_new_def truncate_key_id MAX_KEY_LEN_def)
qed

theorem burst_exactly_limit_witness:
  "map is_allowed (fst (rl_run sample_rl_env (replicate 7 (0, ''a'')) (limiter_new sample_cfg))) =
    [True, True, True, True, True, False, False]"
  using burst_exactly_limit [OF sample_rl_env_ok, of sample_cfg 60 7 0 "''a''"] by (simp add: upt_rec)

theorem allowed_in_interval_witness:
  "of_nat (allowed_count (fst (rl_run sample_rl_env (map (\<lambda>now. (now, ''a'')) [0, 10 ^ 9]) (limiter_new sample_cfg))))
    \<le> 5 + credit (rnd (5 / 60)) (10 ^ 9)
      + of_nat (allowed_count (fst (rl_run sample_rl_env (map (\<lambda>now. (now, ''a'')) [0, 10 ^ 9]) (limiter_new sample_cfg))))
        * slack 5 (rnd (5 / 60))"
  using allowed_in_interval [OF sample_rl_env_ok, where c = sample_cfg and w = 60 and t = 0
      and ts = "[10 ^ 9]" and h = "10 ^ 9" and key = "''a''", OF _ _ _ _ _ _ _ refl refl]
  by simp

end
