(* ===== verification/Token.thy ===== *)
theory Token
  imports PyObj
begin

text \<open>
  \<open>src/src/token.rs\<close>: reading a token from the \<open>Authorization\<close> or \<open>Cookie\<close> header and
  preparing its verification. The cryptography is the crate \<open>jsonwebtoken\<close>, an argument
  (\<open>jwt_lib\<close>): its key constructors, its default validation, the two setters that the
  code calls and \<open>decode\<close>. The keys and the claims are types of that library.
\<close>

section \<open>Headers\<close>

definition extract_bearer :: "string option \<Rightarrow> string option" where
  "extract_bearer h =
     Option.bind h (\<lambda>h. Option.bind (split_once is_ascii_whitespace (trim h)) (\<lambda>(scheme, rest).
       if eq_ignore_ascii_case scheme ''bearer''
       then (let token = trim rest in if token = [] then None else Some token)
       else None))"

definition trim_cookie_dquotes :: "string \<Rightarrow> string" where
  "trim_cookie_dquotes s0 =
     (let s = trim s0
      in if 2 \<le> length s \<and> hd s = CHR 0x22 \<and> last s = CHR 0x22
         then take (length s - 2) (drop 1 s) else s)"

fun cookie_parts :: "string list \<Rightarrow> string \<Rightarrow> string option" where
  "cookie_parts [] name = None"
| "cookie_parts (part0 # parts) name =
     (let part = trim part0
      in if part = [] then cookie_parts parts name
         else (case split_once (\<lambda>c. c = CHR ''='') part of
             None \<Rightarrow> cookie_parts parts name
           | Some (k, v) \<Rightarrow>
               if trim k \<noteq> name then cookie_parts parts name
               else (let v1 = trim_cookie_dquotes (trim v)
                     in if v1 = [] then None else Some v1)))"

definition extract_cookie_value :: "string \<Rightarrow> string \<Rightarrow> string option" where
  "extract_cookie_value raw name = cookie_parts (split_on CHR '';'' raw) name"

section \<open>Keys and validation\<close>

datatype algorithm =
    HS256 | HS384 | HS512 | RS256 | RS384 | RS512 | PS256 | PS384 | PS512 | ES256 | ES384 | EdDSA

datatype jwt_error = InvalidAlgorithm | InvalidKeyFormat | ExpiredSignature | OtherJwtError string

fun key_family :: "algorithm \<Rightarrow> nat" where
  "key_family HS256 = 0" | "key_family HS384 = 0" | "key_family HS512 = 0"
| "key_family RS256 = 1" | "key_family RS384 = 1" | "key_family RS512 = 1"
| "key_family PS256 = 1" | "key_family PS384 = 1" | "key_family PS512 = 1"
| "key_family ES256 = 2" | "key_family ES384 = 2"
| "key_family EdDSA = 3"

record validation =
  v_algorithms :: "algorithm list"
  v_validate_nbf :: bool
  v_validate_exp :: bool
  v_leeway :: u64
  v_validate_aud :: bool
  v_iss :: "string list option"
  v_aud :: "string list option"

record ('k, 'c) jwt_lib =
  from_secret :: "bytes \<Rightarrow> 'k"
  from_rsa_pem :: "bytes \<Rightarrow> ('k, jwt_error) rust"
  from_ec_pem :: "bytes \<Rightarrow> ('k, jwt_error) rust"
  from_ed_pem :: "bytes \<Rightarrow> ('k, jwt_error) rust"
  validation_new :: "algorithm \<Rightarrow> validation"
  set_issuer :: "string list \<Rightarrow> validation \<Rightarrow> validation"
  set_audience :: "string list \<Rightarrow> validation \<Rightarrow> validation"
  jwt_decode :: "string \<Rightarrow> 'k \<Rightarrow> validation \<Rightarrow> ('c, jwt_error) rust"
  jwt_error_text :: "jwt_error \<Rightarrow> string"
  claims_to_py :: "'c \<Rightarrow> pyobj pyres"

definition build_decoding_key :: "('k, 'c) jwt_lib \<Rightarrow> string \<Rightarrow> algorithm list \<Rightarrow> ('k, jwt_error) rust" where
  "build_decoding_key J key_material algs =
     (case algs of
        [] \<Rightarrow> Err InvalidAlgorithm
      | a # _ \<Rightarrow>
          let fam = key_family a
          in if \<not> list_all (\<lambda>b. key_family b = fam) algs then Err InvalidKeyFormat
             else if fam = 0 then Ok (from_secret J key_material)
             else if fam = 1 then from_rsa_pem J key_material
             else if fam = 2 then from_ec_pem J key_material
             else if fam = 3 then from_ed_pem J key_material
             else Err InvalidAlgorithm)"

definition build_route_jwt_state ::
    "('k, 'c) jwt_lib \<Rightarrow> string \<Rightarrow> algorithm list \<Rightarrow> string option \<Rightarrow> string option \<Rightarrow> u64
     \<Rightarrow> ('k \<times> validation, jwt_error) rust" where
  "build_route_jwt_state J key_material algs jwt_issuer jwt_audience jwt_leeway =
     (if algs = [] then Err InvalidAlgorithm
      else rbind (build_decoding_key J key_material algs) (\<lambda>dk.
        let v0 = (validation_new J (hd algs))\<lparr>v_algorithms := algs, v_validate_nbf := True,
                   v_leeway := jwt_leeway\<rparr>;
            v1 = (case jwt_issuer of Some iss \<Rightarrow> set_issuer J [iss] v0 | None \<Rightarrow> v0);
            v2 = (case jwt_audience of Some aud \<Rightarrow> set_audience J [aud] v1
                  | None \<Rightarrow> v1\<lparr>v_validate_aud := False\<rparr>)
        in Ok (dk, v2)))"

definition is_hs :: "algorithm \<Rightarrow> bool" where
  "is_hs a \<longleftrightarrow> a = HS256 \<or> a = HS384 \<or> a = HS512"

definition decode_hs_claims ::
    "('k, 'c) jwt_lib \<Rightarrow> string \<Rightarrow> string \<Rightarrow> algorithm list \<Rightarrow> ('c, jwt_error) rust" where
  "decode_hs_claims J token key algs =
     (if algs = [] then Err InvalidAlgorithm
      else if \<not> list_all is_hs algs then Err InvalidAlgorithm
      else (let v = (validation_new J (hd algs))\<lparr>v_algorithms := algs, v_validate_nbf := True\<rparr>
            in rbind (build_decoding_key J key algs) (\<lambda>dk. jwt_decode J token dk v)))"

fun hs_algorithms :: "pyobj list \<Rightarrow> algorithm list pyres" where
  "hs_algorithms [] = Ok []"
| "hs_algorithms (item # items) =
     (case extract_string item of
        None \<Rightarrow> type_error ''expected str''
      | Some s \<Rightarrow>
          rbind (if s = ''HS256'' then Ok HS256
                 else if s = ''HS384'' then Ok HS384
                 else if s = ''HS512'' then Ok HS512
                 else value_error ''only HS* supported in decode_jwt_hs'')
            (\<lambda>a. rbind (hs_algorithms items) (\<lambda>as. Ok (a # as))))"

definition decode_jwt_hs :: "('k, 'c) jwt_lib \<Rightarrow> string \<Rightarrow> string \<Rightarrow> pyobj list \<Rightarrow> pyobj pyres" where
  "decode_jwt_hs J token key algorithm_list =
     rbind (hs_algorithms algorithm_list) (\<lambda>v.
       let algs = (if v = [] then [HS256] else v)
       in case decode_hs_claims J token key algs of
            Ok claims \<Rightarrow> claims_to_py J claims
          | Err e \<Rightarrow> value_error (if e = ExpiredSignature then ''expired'' else jwt_error_text J e)
          | Panic m \<Rightarrow> Panic m)"

section \<open>The keys that verify a route's tokens\<close>

lemma build_decoding_key_family:
  assumes "build_decoding_key J key algs = Ok dk"
  shows "algs \<noteq> [] \<and> (\<forall>a \<in> set algs. key_family a = key_family (hd algs))"
  using assms by (cases algs) (auto simp: build_decoding_key_def Let_def list_all_iff split: if_splits)

text \<open>What the documentation of the library promises of the two setters.\<close>

definition setters_ok :: "('k, 'c) jwt_lib \<Rightarrow> bool" where
  "setters_ok J \<longleftrightarrow>
     (\<forall>xs v. set_issuer J xs v = v\<lparr>v_iss := Some xs\<rparr>) \<and>
     (\<forall>xs v. set_audience J xs v = v\<lparr>v_aud := Some xs\<rparr>)"

text \<open>
  C18. No algorithm confusion: a route whose JWT state is built accepts exactly the
  algorithms it was given, they all belong to one family of keys, the shared secret is used
  as an HMAC key only when that family is HMAC, \<open>nbf\<close> is checked with the route's leeway,
  an issuer is checked when configured and the audience check is off only without one.
\<close>

theorem route_jwt_state_sound:
  assumes "setters_ok J" "build_route_jwt_state J key algs iss aud leeway = Ok (dk, v)"
  shows "v_algorithms v = algs \<and> algs \<noteq> []
    \<and> (\<forall>a \<in> set algs. key_family a = key_family (hd algs))
    \<and> ((\<exists>a \<in> set algs. is_hs a) \<longrightarrow> (\<forall>a \<in> set algs. is_hs a) \<and> dk = from_secret J key)
    \<and> v_validate_nbf v \<and> v_leeway v = leeway
    \<and> (\<forall>i. iss = Some i \<longrightarrow> v_iss v = Some [i])
    \<and> (case aud of Some a \<Rightarrow> v_aud v = Some [a] \<and> v_validate_aud v = v_validate_aud (validation_new J (hd algs))
       | None \<Rightarrow> \<not> v_validate_aud v)"
proof -
  have ne: "algs \<noteq> []" and dk: "build_decoding_key J key algs = Ok dk"
    using assms(2) by (auto simp: build_route_jwt_state_def Let_def split: if_splits)
  note fam = build_decoding_key_family [OF dk]
  have set: "set_issuer J xs w = w\<lparr>v_iss := Some xs\<rparr>" "set_audience J xs w = w\<lparr>v_aud := Some xs\<rparr>" for xs w
    using assms(1) unfolding setters_ok_def by blast+
  have hs: "is_hs a \<longleftrightarrow> key_family a = 0" for a by (cases a) (simp_all add: is_hs_def)
  have "(\<exists>a \<in> set algs. is_hs a) \<longrightarrow> (\<forall>a \<in> set algs. is_hs a) \<and> dk = from_secret J key"
  proof (intro impI conjI)
    assume "\<exists>a \<in> set algs. is_hs a"
    then obtain a where a: "a \<in> set algs" "is_hs a" by blast
    have same: "key_family b = key_family (hd algs)" if "b \<in> set algs" for b using fam that by blast
    have h: "key_family (hd algs) = 0" using same [OF a(1)] a(2) hs [of a] by simp
    show "\<forall>a \<in> set algs. is_hs a" using same h unfolding hs by simp
    show "dk = from_secret J key"
    proof -
      have "build_decoding_key J key algs = Ok (from_secret J key)"
        using dk h ne by (cases algs) (auto simp: build_decoding_key_def Let_def split: if_splits)
      then show ?thesis
        using assms(2) ne by (cases iss; cases aud) (auto simp: build_route_jwt_state_def Let_def)
    qed
  qed
  moreover have "v_algorithms v = algs \<and> v_validate_nbf v \<and> v_leeway v = leeway
    \<and> (\<forall>i. iss = Some i \<longrightarrow> v_iss v = Some [i])
    \<and> (case aud of Some a \<Rightarrow> v_aud v = Some [a] \<and> v_validate_aud v = v_validate_aud (validation_new J (hd algs))
       | None \<Rightarrow> \<not> v_validate_aud v)"
  proof -
    let ?v0 = "(validation_new J (hd algs))\<lparr>v_algorithms := algs, v_validate_nbf := True, v_leeway := leeway\<rparr>"
    have v: "v = (let v1 = (case iss of Some i \<Rightarrow> set_issuer J [i] ?v0 | None \<Rightarrow> ?v0)
        in case aud of Some a \<Rightarrow> set_audience J [a] v1 | None \<Rightarrow> v1\<lparr>v_validate_aud := False\<rparr>)"
      using assms(2) by (simp add: build_route_jwt_state_def ne dk Let_def eq_commute [of v])
    show ?thesis
      unfolding v Let_def set by (cases iss; cases aud; simp)
  qed
  ultimately show ?thesis using fam by blast
qed

section \<open>Reading a cookie\<close>

text \<open>The octets that RFC 6265 allows in a cookie's name and value, quotes apart.\<close>

definition cookie_octet :: "char \<Rightarrow> bool" where
  "cookie_octet c \<longleftrightarrow> 33 \<le> (of_char c :: nat) \<and> (of_char c :: nat) \<le> 126
     \<and> c \<noteq> CHR '';'' \<and> c \<noteq> CHR 0x22"

lemma ws_prefix_octet: "cookie_octet c \<Longrightarrow> ws_prefix (c # s) = 0"
  by (auto simp: ws_prefix_def cookie_octet_def split: list.split)

lemma ws_suffix_octets:
  assumes "list_all cookie_octet s"
  shows "ws_suffix s = 0"
proof -
  have "ws_prefix (drop n s) = 0" for n
  proof (cases "drop n s")
    case (Cons c r)
    then have "c \<in> set s" using in_set_dropD [of c n s] by simp
    then show ?thesis using assms Cons by (simp add: list_all_iff ws_prefix_octet)
  qed simp
  then show ?thesis by (simp add: ws_suffix_def)
qed

lemma trim_octets:
  assumes "list_all cookie_octet s"
  shows "trim s = s" and "trim (CHR '' '' # s) = s"
proof -
  have p: "ws_prefix s = 0" using assms ws_prefix_octet by (cases s) auto
  show s: "trim s = s" using p ws_suffix_octets [OF assms] by (rule trim_id)
  have "ws_prefix (CHR '' '' # s) = 1" by (simp add: ws_prefix_def)
  then have "trim_start (CHR '' '' # s) = trim_start s" by (simp add: trim_start.simps [of "_ # _"])
  then show "trim (CHR '' '' # s) = s" using s by (simp add: trim_def)
qed

lemma dquotes_octets: "list_all cookie_octet s \<Longrightarrow> trim_cookie_dquotes s = s"
  by (cases s) (auto simp: trim_cookie_dquotes_def trim_octets(1) cookie_octet_def Let_def)

definition cookie_pair :: "string \<times> string \<Rightarrow> string" where
  "cookie_pair kv = fst kv @ ''='' @ snd kv"

definition cookie_ok :: "string \<times> string \<Rightarrow> bool" where
  "cookie_ok kv \<longleftrightarrow> list_all (\<lambda>c. cookie_octet c \<and> c \<noteq> CHR ''='') (fst kv) \<and> list_all cookie_octet (snd kv)"

lemma cookie_pair_octets: "cookie_ok kv \<Longrightarrow> list_all cookie_octet (cookie_pair kv)"
  by (auto simp: cookie_ok_def cookie_pair_def cookie_octet_def list_all_iff)

lemma split_once_append: "\<forall>x\<in>set a. \<not> p x \<Longrightarrow> p c \<Longrightarrow> split_once p (a @ c # b) = Some (a, b)"
  by (induction a) auto

lemma cookie_part_step:
  assumes "cookie_ok (k, v)" "part \<in> {cookie_pair (k, v), CHR '' '' # cookie_pair (k, v)}"
  shows "cookie_parts (part # parts) name =
    (if k = name then (if v = [] then None else Some v) else cookie_parts parts name)"
proof -
  have t: "trim part = cookie_pair (k, v)"
    using assms(2) trim_octets [OF cookie_pair_octets [OF assms(1)]] by auto
  have ne: "cookie_pair (k, v) \<noteq> []" by (simp add: cookie_pair_def)
  have s: "split_once (\<lambda>c. c = CHR ''='') (cookie_pair (k, v)) = Some (k, v)"
    using assms(1) unfolding cookie_pair_def
    by (simp add: cookie_ok_def list_all_iff split_once_append)
  have o: "list_all cookie_octet k" "list_all cookie_octet v"
    using assms(1) by (auto simp: cookie_ok_def list_all_iff)
  show ?thesis
    by (simp add: t ne s trim_octets(1) [OF o(1)] trim_octets(1) [OF o(2)] dquotes_octets [OF o(2)] Let_def)
qed

lemma split_on_append: "c \<notin> set a \<Longrightarrow> split_on c (a @ c # b) = a # split_on c b"
  by (induction a) auto

lemma cookie_no_semicolon: "cookie_ok kv \<Longrightarrow> CHR '';'' \<notin> set (cookie_pair kv)"
  using cookie_pair_octets [of kv] by (auto simp: list_all_iff cookie_octet_def)

lemma cookie_parts_header:
  assumes "list_all cookie_ok kvs" "sp \<in> {[], '' ''}"
  shows "cookie_parts (split_on CHR '';'' (sp @ join ''; '' (map cookie_pair kvs))) name =
    (case map_of kvs name of Some v \<Rightarrow> if v = [] then None else Some v | None \<Rightarrow> None)"
  using assms
proof (induction kvs arbitrary: sp)
  case Nil
  have "trim '' '' = []" using trim_octets(2) [of "[]"] by simp
  with Nil show ?case using trim_octets(1) [of "[]"] by auto
next
  case (Cons kv kvs)
  obtain k v where kv: "kv = (k, v)" by fastforce
  have ok: "cookie_ok (k, v)" using Cons.prems(1) by (simp add: kv)
  have no: "CHR '';'' \<notin> set (sp @ cookie_pair kv)"
    using cookie_no_semicolon [OF ok] Cons.prems(2) by (auto simp: kv)
  have part: "sp @ cookie_pair kv \<in> {cookie_pair (k, v), CHR '' '' # cookie_pair (k, v)}"
    using Cons.prems(2) by (auto simp: kv)
  note step = cookie_part_step [OF ok part]
  show ?case
  proof (cases kvs)
    case Nil
    then show ?thesis using step no by (simp add: split_on_id kv)
  next
    case (Cons kv2 kvs2)
    then have "sp @ join ''; '' (map cookie_pair (kv # kvs)) =
        (sp @ cookie_pair kv) @ CHR '';'' # ('' '' @ join ''; '' (map cookie_pair kvs))"
      by simp
    then have "split_on CHR '';'' (sp @ join ''; '' (map cookie_pair (kv # kvs))) =
        (sp @ cookie_pair kv) # split_on CHR '';'' ('' '' @ join ''; '' (map cookie_pair kvs))"
      by (simp only: split_on_append [OF no])
    then show ?thesis
      using step Cons.IH [of "'' ''"] Cons.prems(1) by (simp add: kv)
  qed
qed

text \<open>
  C33. A cookie that a client sends is the one that is read: from the header that joins
  any pairs of RFC 6265 octets with \<open>; \<close>, the value of the first pair of the name is
  returned, case sensitively, and an empty value counts as absent.
\<close>

theorem cookie_roundtrip:
  assumes "list_all cookie_ok kvs"
  shows "extract_cookie_value (join ''; '' (map cookie_pair kvs)) name =
    (case map_of kvs name of Some v \<Rightarrow> if v = [] then None else Some v | None \<Rightarrow> None)"
  using cookie_parts_header [OF assms, of "[]"] by (simp add: extract_cookie_value_def)

text \<open>
  A bearer token: what is read is not empty, carries no white space at its ends and
  is the rest of the header after a scheme that is \<open>bearer\<close> in any case.
\<close>

theorem bearer_sound:
  "extract_bearer (Some h) = Some t \<longleftrightarrow>
   (\<exists>scheme c rest. trim h = scheme @ c # rest \<and> is_ascii_whitespace c
     \<and> list_all (\<lambda>x. \<not> is_ascii_whitespace x) scheme
     \<and> eq_ignore_ascii_case scheme ''bearer'' \<and> t = trim rest \<and> t \<noteq> [])"
proof
  assume "extract_bearer (Some h) = Some t"
  then obtain scheme rest where s: "split_once is_ascii_whitespace (trim h) = Some (scheme, rest)"
    and t: "eq_ignore_ascii_case scheme ''bearer''" "t = trim rest" "t \<noteq> []"
    by (auto simp: extract_bearer_def bind_eq_Some_conv Let_def split: if_splits)
  from split_once_Some [OF s] t show "\<exists>scheme c rest. trim h = scheme @ c # rest \<and> is_ascii_whitespace c
     \<and> list_all (\<lambda>x. \<not> is_ascii_whitespace x) scheme
     \<and> eq_ignore_ascii_case scheme ''bearer'' \<and> t = trim rest \<and> t \<noteq> []"
    unfolding list_all_iff by blast
next
  assume "\<exists>scheme c rest. trim h = scheme @ c # rest \<and> is_ascii_whitespace c
     \<and> list_all (\<lambda>x. \<not> is_ascii_whitespace x) scheme
     \<and> eq_ignore_ascii_case scheme ''bearer'' \<and> t = trim rest \<and> t \<noteq> []"
  then show "extract_bearer (Some h) = Some t"
    by (auto simp: extract_bearer_def list_all_iff split_once_append)
qed

section \<open>Concrete inputs\<close>

text \<open>A library whose keys and claims are texts.\<close>

definition sample_jwt :: "(string, string) jwt_lib" where
  "sample_jwt = \<lparr>from_secret = (\<lambda>b. ''hmac:'' @ b), from_rsa_pem = (\<lambda>b. Ok (''rsa:'' @ b)),
     from_ec_pem = (\<lambda>b. Ok (''ec:'' @ b)), from_ed_pem = (\<lambda>b. Ok (''ed:'' @ b)),
     validation_new = (\<lambda>a. \<lparr>v_algorithms = [a], v_validate_nbf = False, v_validate_exp = True,
        v_leeway = 60, v_validate_aud = True, v_iss = None, v_aud = None\<rparr>),
     set_issuer = (\<lambda>xs v. v\<lparr>v_iss := Some xs\<rparr>), set_audience = (\<lambda>xs v. v\<lparr>v_aud := Some xs\<rparr>),
     jwt_decode = (\<lambda>t k v. if t = k then Ok t else Err ExpiredSignature),
     jwt_error_text = (\<lambda>e. ''error''), claims_to_py = (\<lambda>c. Ok (PyStr c))\<rparr>"

theorem route_jwt_state_sound_witness:
  "\<exists>v. build_route_jwt_state sample_jwt ''k'' [HS256, HS512] (Some ''me'') None 5 = Ok (''hmac:k'', v)
    \<and> v_iss v = Some [''me''] \<and> \<not> v_validate_aud v"
proof -
  have ok: "setters_ok sample_jwt" by (simp add: setters_ok_def sample_jwt_def)
  obtain v where v: "build_route_jwt_state sample_jwt ''k'' [HS256, HS512] (Some ''me'') None 5 = Ok (''hmac:k'', v)"
    by (simp add: build_route_jwt_state_def build_decoding_key_def sample_jwt_def Let_def)
  from route_jwt_state_sound [OF ok v] v show ?thesis by simp
qed

theorem cookie_roundtrip_witness:
  "extract_cookie_value ''sid=1; token=abc'' ''token'' = Some ''abc''"
  using cookie_roundtrip [of "[(''sid'', ''1''), (''token'', ''abc'')]" "''token''"]
  by (simp add: cookie_ok_def cookie_pair_def cookie_octet_def)

end
