(* ===== verification/Cors.thy ===== *)
theory Cors
  imports PyObj
begin

text \<open>
  \<open>src/src/cors.rs\<close> and \<open>src/src/security_headers.rs\<close>: the configurations compiled from
  the Python objects, the answer to a preflight and the headers merged into a response.
  A \<open>HashSet\<close> is modelled as a set; the compilation returns \<open>None\<close> where it raises.
\<close>

section \<open>CORS\<close>

record cors_config =
  allow_origins :: "string list"
  allow_origins_wildcard :: bool
  allow_methods_upper :: "string set"
  allow_methods_header :: string
  allow_headers :: "string list"
  allow_headers_wildcard :: bool
  allow_headers_lower :: "string set"
  expose_headers_header :: "string option"
  allow_credentials :: bool
  max_age_header :: "string option"

definition cors_from_py :: "pyobj \<Rightarrow> cors_config option" where
  "cors_from_py obj =
     do {
       origins \<leftarrow> getattr_as (extract_vec extract_string) ''allow_origins'' obj;
       methods \<leftarrow> getattr_as (extract_vec extract_string) ''allow_methods'' obj;
       headers \<leftarrow> getattr_as (extract_vec extract_string) ''allow_headers'' obj;
       expose \<leftarrow> getattr_as (extract_vec extract_string) ''expose_headers'' obj;
       cred \<leftarrow> getattr_as extract_bool ''allow_credentials'' obj;
       max_age \<leftarrow> getattr_as (extract_option extract_u64) ''max_age'' obj;
       Some \<lparr>allow_origins = origins,
         allow_origins_wildcard = (''*'' \<in> set origins),
         allow_methods_upper = to_ascii_uppercase ` set methods,
         allow_methods_header = join '', '' methods,
         allow_headers = headers,
         allow_headers_wildcard = (''*'' \<in> set headers),
         allow_headers_lower = to_ascii_lowercase ` (set headers - {''*''}),
         expose_headers_header = (if expose = [] then None else Some (join '', '' expose)),
         allow_credentials = cred,
         max_age_header = map_option show_u64 max_age\<rparr>
     }"

definition select_allow_origin :: "cors_config \<Rightarrow> string \<Rightarrow> string option" where
  "select_allow_origin c origin =
     (if origin = [] then None
      else if allow_credentials c \<or> \<not> allow_origins_wildcard c
           then (if origin \<in> set (allow_origins c) then Some origin else None)
      else if length (allow_origins c) = 1 \<and> allow_origins_wildcard c then Some ''*''
      else if origin \<in> set (allow_origins c) then Some origin
      else None)"

text \<open>\<open>raw.split(|c| c.is_whitespace() || c == ',')\<close>, with the piece read so far.\<close>

function header_pieces :: "string \<Rightarrow> string \<Rightarrow> string list" where
  "header_pieces [] piece = [piece]"
| "header_pieces (x # xs) piece =
     (if ws_prefix (x # xs) \<noteq> 0 then piece # header_pieces (drop (ws_prefix (x # xs)) (x # xs)) []
      else if x = CHR '','' then piece # header_pieces xs []
      else header_pieces xs (piece @ [x]))"
  by pat_completeness auto
termination
  by (relation "measure (\<lambda>(s, piece). length s)") auto

definition preflight_allow_headers :: "cors_config \<Rightarrow> string \<Rightarrow> string option" where
  "preflight_allow_headers c raw_ach =
     (if allow_headers_wildcard c \<and> length (allow_headers c) = 1 then Some ''*''
      else (let parts = filter (\<lambda>p. p \<noteq> []) (header_pieces raw_ach [])
            in if parts = [] then Some (join '', '' (allow_headers c))
               else if list_all (\<lambda>p. to_ascii_lowercase p \<in> allow_headers_lower c) parts
                    then Some (join '', '' parts)
               else None))"

type_synonym header_pairs = "(string \<times> string) list"

definition handle_preflight :: "cors_config \<Rightarrow> string \<Rightarrow> string \<Rightarrow> string \<Rightarrow> (header_pairs, u16 \<times> string) rust" where
  "handle_preflight c raw_acrm origin raw_ach =
     (if to_ascii_uppercase (trim raw_acrm) \<notin> allow_methods_upper c
      then Err (400, ''Disallowed CORS method'')
      else (case select_allow_origin c origin of
          None \<Rightarrow> Err (400, ''CORS origin not allowed'')
        | Some selected \<Rightarrow>
           (case preflight_allow_headers c raw_ach of
              None \<Rightarrow> Err (400, ''Disallowed CORS request headers'')
            | Some acah \<Rightarrow>
                Ok ([(''Access-Control-Allow-Origin'', selected),
                     (''Access-Control-Allow-Methods'', allow_methods_header c),
                     (''Access-Control-Allow-Headers'', acah)]
                  @ (if allow_credentials c then [(''Access-Control-Allow-Credentials'', ''true'')] else [])
                  @ (case max_age_header c of
                       Some a \<Rightarrow> [(''Access-Control-Max-Age'', a)] | None \<Rightarrow> [])
                  @ (if selected \<noteq> ''*'' then [(''Vary'', ''Origin'')] else [])))))"

definition cors_header_pairs :: "cors_config \<Rightarrow> string \<Rightarrow> header_pairs" where
  "cors_header_pairs c origin =
     (case select_allow_origin c origin of
        None \<Rightarrow> []
      | Some selected \<Rightarrow>
          [(''Access-Control-Allow-Origin'', selected)]
          @ (if allow_credentials c then [(''Access-Control-Allow-Credentials'', ''true'')] else [])
          @ (case expose_headers_header c of
               Some e \<Rightarrow> [(''Access-Control-Expose-Headers'', e)] | None \<Rightarrow> [])
          @ (if selected \<noteq> ''*'' then [(''Vary'', ''Origin'')] else []))"

section \<open>Security headers\<close>

record security_config =
  hsts :: "string option"
  x_content_type_options :: "string option"
  x_frame_options :: "string option"
  referrer_policy :: "string option"
  content_security_policy :: "string option"
  permissions_policy :: "string option"
  sec_extra :: header_pairs

fun extract_pairs :: "(pyobj \<times> pyobj) list \<Rightarrow> header_pairs option" where
  "extract_pairs [] = Some []"
| "extract_pairs ((k, v) # d) =
     Option.bind (extract_string k) (\<lambda>key. Option.bind (extract_string v) (\<lambda>val.
       map_option ((#) (key, val)) (extract_pairs d)))"

definition security_from_py :: "pyobj \<Rightarrow> security_config option" where
  "security_from_py obj =
     do {
       a \<leftarrow> getattr_as (extract_option extract_string) ''hsts'' obj;
       b \<leftarrow> getattr_as (extract_option extract_string) ''x_content_type_options'' obj;
       c \<leftarrow> getattr_as (extract_option extract_string) ''x_frame_options'' obj;
       d \<leftarrow> getattr_as (extract_option extract_string) ''referrer_policy'' obj;
       e \<leftarrow> getattr_as (extract_option extract_string) ''content_security_policy'' obj;
       f \<leftarrow> getattr_as (extract_option extract_string) ''permissions_policy'' obj;
       extra \<leftarrow> (case py_getattr obj ''extra'' of
                  Some (PyDict ents) \<Rightarrow> extract_pairs ents
                | _ \<Rightarrow> Some []);
       Some \<lparr>hsts = a, x_content_type_options = b, x_frame_options = c, referrer_policy = d,
         content_security_policy = e, permissions_policy = f, sec_extra = extra\<rparr>
     }"

definition opt_header :: "string \<Rightarrow> string option \<Rightarrow> header_pairs" where
  "opt_header name v = (case v of Some x \<Rightarrow> [(name, x)] | None \<Rightarrow> [])"

definition security_header_pairs :: "security_config \<Rightarrow> string \<Rightarrow> header_pairs" where
  "security_header_pairs c scheme =
     (if scheme = ''https'' then opt_header ''Strict-Transport-Security'' (hsts c) else [])
     @ opt_header ''X-Content-Type-Options'' (x_content_type_options c)
     @ opt_header ''X-Frame-Options'' (x_frame_options c)
     @ opt_header ''Referrer-Policy'' (referrer_policy c)
     @ opt_header ''Content-Security-Policy'' (content_security_policy c)
     @ opt_header ''Permissions-Policy'' (permissions_policy c)
     @ sec_extra c"

section \<open>Which origins are allowed\<close>

definition cors_compiled :: "cors_config \<Rightarrow> bool" where
  "cors_compiled c \<longleftrightarrow> allow_origins_wildcard c = (''*'' \<in> set (allow_origins c))
     \<and> allow_headers_wildcard c = (''*'' \<in> set (allow_headers c))
     \<and> allow_headers_lower c = to_ascii_lowercase ` (set (allow_headers c) - {''*''})"

lemma cors_from_py_compiled: "cors_from_py obj = Some c \<Longrightarrow> cors_compiled c"
  by (auto simp: cors_from_py_def cors_compiled_def bind_eq_Some_conv)

lemma single_wildcard:
  "length xs = 1 \<and> x \<in> set xs \<longleftrightarrow> xs = [x]"
  by (auto simp: length_Suc_conv)

text \<open>
  C31. The allowed origin, exactly: without credentials the configuration \<open>["*"]\<close> answers
  \<open>*\<close> to any origin; every other configuration echoes the request's origin when it is
  listed and allows nothing else. In particular a credentialed answer always names one
  listed origin.
\<close>

theorem cors_origin_iff:
  assumes "cors_from_py obj = Some c"
  shows "select_allow_origin c origin = Some s \<longleftrightarrow>
    origin \<noteq> [] \<and> (if \<not> allow_credentials c \<and> allow_origins c = [''*''] then s = ''*''
      else s = origin \<and> origin \<in> set (allow_origins c))"
proof -
  have w: "allow_origins_wildcard c = (''*'' \<in> set (allow_origins c))"
    using cors_from_py_compiled [OF assms] by (simp add: cors_compiled_def)
  show ?thesis
    unfolding select_allow_origin_def w single_wildcard by (auto split: if_splits)
qed

section \<open>What a preflight grants\<close>

lemma header_pieces_chars:
  "list_all (\<lambda>x. ws_prefix [x] = 0 \<and> x \<noteq> CHR '','') piece \<Longrightarrow> p \<in> set (header_pieces s piece) \<Longrightarrow>
   list_all (\<lambda>x. ws_prefix [x] = 0 \<and> x \<noteq> CHR '','') p"
proof (induction s piece arbitrary: p rule: header_pieces.induct)
  case (2 x xs piece)
  have one: "ws_prefix (x # xs) = 0 \<Longrightarrow> ws_prefix [x] = 0"
    by (auto simp: ws_prefix_def split: if_splits)
  show ?case
  proof (cases "ws_prefix (x # xs) = 0 \<and> x \<noteq> CHR '',''")
    case True
    then show ?thesis using 2(3) [of p] 2(4,5) one by auto
  next
    case False
    then show ?thesis using 2(1) [of p] 2(2) [of p] 2(4,5) by (auto split: if_splits)
  qed
qed auto

lemma preflight_tokens:
  assumes "cors_compiled c" "preflight_allow_headers c raw = Some acah" "allow_headers c \<noteq> [''*'']"
    "p \<in> set (header_pieces raw [])" "p \<noteq> []"
  shows "\<exists>h \<in> set (allow_headers c). eq_ignore_ascii_case p h"
proof -
  have "\<not> (allow_headers_wildcard c \<and> length (allow_headers c) = 1)"
    using assms(1,3) single_wildcard [of "allow_headers c" "''*''"] by (auto simp: cors_compiled_def)
  then have "to_ascii_lowercase p \<in> allow_headers_lower c"
    using assms(2,4,5) by (auto simp: preflight_allow_headers_def Let_def filter_empty_conv list_all_iff split: if_splits)
  then show ?thesis
    using assms(1) by (auto simp: cors_compiled_def eq_ignore_ascii_case_def to_ascii_lowercase_def)
qed

text \<open>
  C30. A preflight that is granted was granted by the configuration: the method is one of
  the configured ones, the origin is allowed and is the one in the answer, every header
  that the request names is configured (case apart, or the configuration is \<open>["*"]\<close>), and
  \<open>Vary: Origin\<close> is sent exactly when the answer depends on the origin.
\<close>

theorem preflight_granted:
  assumes "cors_from_py obj = Some c" "handle_preflight c raw_acrm origin raw_ach = Ok hs"
  shows "to_ascii_uppercase (trim raw_acrm) \<in> allow_methods_upper c
    \<and> (\<exists>s. select_allow_origin c origin = Some s
        \<and> map_of hs ''Access-Control-Allow-Origin'' = Some s
        \<and> (map_of hs ''Vary'' = (if s = ''*'' then None else Some ''Origin''))
        \<and> (map_of hs ''Access-Control-Allow-Credentials'' = (if allow_credentials c then Some ''true'' else None)))
    \<and> (allow_headers c \<noteq> [''*''] \<longrightarrow> (\<forall>p \<in> set (header_pieces raw_ach []). p \<noteq> [] \<longrightarrow>
        (\<exists>h \<in> set (allow_headers c). eq_ignore_ascii_case p h)))"
proof -
  have m: "to_ascii_uppercase (trim raw_acrm) \<in> allow_methods_upper c"
    using assms(2) by (auto simp: handle_preflight_def split: if_splits)
  obtain s acah where s: "select_allow_origin c origin = Some s"
    and a: "preflight_allow_headers c raw_ach = Some acah"
    using assms(2) m by (auto simp: handle_preflight_def split: option.splits)
  have "map_of hs ''Access-Control-Allow-Origin'' = Some s"
    and "map_of hs ''Vary'' = (if s = ''*'' then None else Some ''Origin'')"
    and "map_of hs ''Access-Control-Allow-Credentials'' = (if allow_credentials c then Some ''true'' else None)"
    using assms(2) m s a by (auto simp: handle_preflight_def split: option.splits)
  with m s show ?thesis
    using preflight_tokens [OF cors_from_py_compiled [OF assms(1)] a] by blast
qed

section \<open>No header is split\<close>

text \<open>A header value without CR and LF cannot end its line.\<close>

definition clean :: "string \<Rightarrow> bool" where
  "clean s \<longleftrightarrow> list_all (\<lambda>x. (of_char x :: nat) \<noteq> 10 \<and> (of_char x :: nat) \<noteq> 13) s"

definition clean_pairs :: "header_pairs \<Rightarrow> bool" where
  "clean_pairs hs \<longleftrightarrow> list_all (\<lambda>(k, v). clean k \<and> clean v) hs"

lemma clean_simps [simp]:
  "clean []" "clean (x # xs) \<longleftrightarrow> (of_char x :: nat) \<noteq> 10 \<and> (of_char x :: nat) \<noteq> 13 \<and> clean xs"
  "clean (a @ b) \<longleftrightarrow> clean a \<and> clean b"
  by (auto simp: clean_def)

lemma clean_pairs_simps [simp]:
  "clean_pairs []" "clean_pairs ((k, v) # hs) \<longleftrightarrow> clean k \<and> clean v \<and> clean_pairs hs"
  "clean_pairs (hs @ hs') \<longleftrightarrow> clean_pairs hs \<and> clean_pairs hs'"
  by (auto simp: clean_pairs_def)

lemma clean_join: "clean sep \<Longrightarrow> (\<And>x. x \<in> set xs \<Longrightarrow> clean x) \<Longrightarrow> clean (join sep xs)"
  by (induction sep xs rule: join.induct) auto

text \<open>
  What the response path relies on of a source of headers: from a configuration that its
  author wrote without line breaks, no request can make one appear.
\<close>

locale header_source =
  fixes pairs :: "'c \<Rightarrow> 'q \<Rightarrow> header_pairs" and clean_cfg :: "'c \<Rightarrow> bool"
  assumes pairs_clean: "clean_cfg c \<Longrightarrow> clean_pairs (pairs c q)"
begin

lemma value_clean: "clean_cfg c \<Longrightarrow> (k, v) \<in> set (pairs c q) \<Longrightarrow> clean k \<and> clean v"
  using pairs_clean [of c q] by (auto simp: clean_pairs_def list_all_iff)

end

definition cors_clean :: "cors_config \<Rightarrow> bool" where
  "cors_clean c \<longleftrightarrow> list_all clean (allow_origins c) \<and> clean (allow_methods_header c)
     \<and> list_all clean (allow_headers c) \<and> pred_option clean (expose_headers_header c)
     \<and> pred_option clean (max_age_header c)"

lemma select_clean: "cors_clean c \<Longrightarrow> select_allow_origin c origin = Some s \<Longrightarrow> clean s"
  by (auto simp: cors_clean_def select_allow_origin_def list_all_iff split: if_splits)

lemma preflight_headers_clean:
  assumes "cors_clean c" "preflight_allow_headers c raw = Some s"
  shows "clean s"
proof -
  have line: "ws_prefix [x] \<noteq> 0" if "(of_char x :: nat) = 10 \<or> (of_char x :: nat) = 13" for x
    using that by (auto simp: ws_prefix_def)
  have pieces: "clean p" if "p \<in> set (header_pieces raw [])" for p
    using header_pieces_chars [of "[]" p raw] that line unfolding clean_def list_all_iff by fastforce
  have sep: "clean '', ''" by simp
  have "clean (join '', '' (filter (\<lambda>p. p \<noteq> []) (header_pieces raw [])))"
    by (rule clean_join [OF sep]) (simp add: pieces)
  moreover have "clean (join '', '' (allow_headers c))"
    using assms(1) by (intro clean_join [OF sep]) (simp add: cors_clean_def list_all_iff)
  moreover have "s = ''*'' \<or> s = join '', '' (allow_headers c)
      \<or> s = join '', '' (filter (\<lambda>p. p \<noteq> []) (header_pieces raw []))"
    using assms(2) unfolding preflight_allow_headers_def Let_def by (simp split: if_splits)
  ultimately show ?thesis by auto
qed

definition preflight_pairs :: "cors_config \<Rightarrow> string \<times> string \<times> string \<Rightarrow> header_pairs" where
  "preflight_pairs c q = (case q of (acrm, origin, ach) \<Rightarrow>
     case handle_preflight c acrm origin ach of Ok hs \<Rightarrow> hs | _ \<Rightarrow> [])"

definition security_clean :: "security_config \<Rightarrow> bool" where
  "security_clean c \<longleftrightarrow> pred_option clean (hsts c) \<and> pred_option clean (x_content_type_options c)
     \<and> pred_option clean (x_frame_options c) \<and> pred_option clean (referrer_policy c)
     \<and> pred_option clean (content_security_policy c) \<and> pred_option clean (permissions_policy c)
     \<and> clean_pairs (sec_extra c)"

lemma opt_header_clean: "clean n \<Longrightarrow> pred_option clean v \<Longrightarrow> clean_pairs (opt_header n v)"
  by (auto simp: opt_header_def split: option.split)

interpretation cors_src: header_source cors_header_pairs cors_clean
proof
  fix c origin assume "cors_clean c"
  then show "clean_pairs (cors_header_pairs c origin)"
    using select_clean [of c origin]
    by (auto simp: cors_header_pairs_def cors_clean_def split: option.split)
qed

interpretation preflight_src: header_source preflight_pairs cors_clean
proof
  fix c and q :: "string \<times> string \<times> string" assume c: "cors_clean c"
  obtain acrm origin ach where q: "q = (acrm, origin, ach)" by (cases q) auto
  show "clean_pairs (preflight_pairs c q)"
    using c select_clean [OF c, of origin] preflight_headers_clean [OF c, of ach]
    by (auto simp: preflight_pairs_def q handle_preflight_def cors_clean_def split: option.split)
qed

interpretation security_src: header_source security_header_pairs security_clean
  by unfold_locales (auto simp: security_header_pairs_def security_clean_def intro!: opt_header_clean)

text \<open>
  C32. No request can inject a response header through CORS: from a configuration without
  line breaks, no \<open>Origin\<close>, method or header list of a request makes a header name or
  value that contains one.
\<close>

theorem cors_no_header_injection:
  assumes "cors_clean c"
  shows "clean_pairs (cors_header_pairs c origin)
    \<and> (case handle_preflight c raw_acrm origin raw_ach of Ok hs \<Rightarrow> clean_pairs hs | _ \<Rightarrow> True)"
proof
  show "clean_pairs (cors_header_pairs c origin)"
    by (rule cors_src.pairs_clean [OF assms])
  show "case handle_preflight c raw_acrm origin raw_ach of Ok hs \<Rightarrow> clean_pairs hs | _ \<Rightarrow> True"
    using preflight_src.pairs_clean [OF assms, of "(raw_acrm, origin, raw_ach)"]
    by (simp add: preflight_pairs_def split: rust.splits)
qed

section \<open>A concrete configuration\<close>

definition sample_cors_py :: pyobj where
  "sample_cors_py = PyObject ''CORSConfig''
     [(''allow_origins'', PyList [PyStr ''https://a'']), (''allow_methods'', PyList [PyStr ''POST'']),
      (''allow_headers'', PyList [PyStr ''X-A'']), (''expose_headers'', PyList []),
      (''allow_credentials'', PyBool True), (''max_age'', PyInt 600)]"

definition sample_cors :: cors_config where
  "sample_cors = \<lparr>allow_origins = [''https://a''], allow_origins_wildcard = False,
     allow_methods_upper = {''POST''}, allow_methods_header = ''POST'', allow_headers = [''X-A''],
     allow_headers_wildcard = False, allow_headers_lower = {''x-a''}, expose_headers_header = None,
     allow_credentials = True, max_age_header = Some ''600''\<rparr>"

lemma sample_cors_from_py: "cors_from_py sample_cors_py = Some sample_cors"
  by (simp add: cors_from_py_def sample_cors_py_def sample_cors_def getattr_as_def extract_vec_def
      extract_option_def str_simps show_u64_def show_nat.simps) code_simp

theorem cors_origin_iff_witness:
  "select_allow_origin sample_cors ''https://a'' = Some ''https://a''"
  using cors_origin_iff [OF sample_cors_from_py, of "''https://a''" "''https://a''"]
  by (simp add: sample_cors_def)

theorem preflight_granted_witness:
  "to_ascii_uppercase (trim ''post'') \<in> allow_methods_upper sample_cors"
proof -
  have "handle_preflight sample_cors ''post'' ''https://a'' ''x-a'' =
      Ok [(''Access-Control-Allow-Origin'', ''https://a''), (''Access-Control-Allow-Methods'', ''POST''),
        (''Access-Control-Allow-Headers'', ''x-a''), (''Access-Control-Allow-Credentials'', ''true''),
        (''Access-Control-Max-Age'', ''600''), (''Vary'', ''Origin'')]"
    by (simp add: handle_preflight_def sample_cors_def select_allow_origin_def preflight_allow_headers_def
        str_simps) code_simp
  from preflight_granted [OF sample_cors_from_py this] show ?thesis by blast
qed

theorem cors_no_header_injection_witness: "clean_pairs (cors_header_pairs sample_cors [CHR 0x0A])"
proof -
  have "cors_clean sample_cors" by (simp add: cors_clean_def sample_cors_def)
  from cors_no_header_injection [OF this] show ?thesis by blast
qed

end
