(* ===== verification/Dependency.thy ===== *)
theory Dependency
  imports PyObj
begin

text \<open>
  \<open>src/src/dependency.rs\<close>: the graph of a route's dependency factories and Kahn's
  algorithm on it. A \<open>HashSet\<close> is the list of its elements in iteration order, a
  \<open>HashMap\<close> an association list; nothing that is proved depends on those orders, and
  \<open>topological_sort_deterministic\<close> says so of the result. A degree is a natural number
  whose decrement panics at zero; \<open>dependency_order_correct\<close> shows that this never happens,
  so that the wrapping subtraction of a release build computes the same.
\<close>

section \<open>The graph\<close>

record dependency_entry =
  de_name :: string
  de_factory :: pyobj
  de_is_async :: bool
  de_wants_request :: bool
  de_params :: "string list"
  de_varkw :: bool

record dep_graph =
  adj :: "(string \<times> string list) list"
  nodes :: "string list"

definition set_add :: "'a \<Rightarrow> 'a list \<Rightarrow> 'a list" where
  "set_add x xs = (if x \<in> set xs then xs else xs @ [x])"

definition graph_new :: dep_graph where
  "graph_new = \<lparr>adj = [], nodes = []\<rparr>"

definition or_default :: "string \<Rightarrow> (string \<times> string list) list \<Rightarrow> (string \<times> string list) list" where
  "or_default k m = (case map_of m k of Some _ \<Rightarrow> m | None \<Rightarrow> al_put k [] m)"

definition ensure_node :: "string \<Rightarrow> dep_graph \<Rightarrow> dep_graph" where
  "ensure_node n g = \<lparr>adj = or_default n (adj g), nodes = set_add n (nodes g)\<rparr>"

definition add_edge :: "string \<Rightarrow> string \<Rightarrow> dep_graph \<Rightarrow> dep_graph" where
  "add_edge prereq dep g =
     (let g1 = ensure_node dep (ensure_node prereq g)
      in g1\<lparr>adj := al_put prereq
                     (set_add dep (the (map_of (or_default prereq (adj g1)) prereq)))
                     (or_default prereq (adj g1))\<rparr>)"

definition build_graph_from_entries :: "dependency_entry list \<Rightarrow> dep_graph" where
  "build_graph_from_entries entries =
     (let names = map de_name entries;
          g0 = fold (\<lambda>e. ensure_node (de_name e)) entries graph_new
      in fold (\<lambda>e g. fold (\<lambda>p g. if p \<in> set names then add_edge p (de_name e) g else g) (de_params e) g)
           entries g0)"

section \<open>Kahn's algorithm\<close>

type_synonym degrees = "(string \<times> nat) list"

definition in_degrees :: "dep_graph \<Rightarrow> degrees" where
  "in_degrees g =
     fold (\<lambda>d m. al_put d (Suc (case map_of m d of Some n \<Rightarrow> n | None \<Rightarrow> 0)) m)
       (concat (map snd (adj g)))
       (fold (\<lambda>n m. al_put n 0 m) (nodes g) [])"

text \<open>Lines 62 to 70: count one prerequisite off each dependent; collect those at zero.\<close>

fun relax :: "string list \<Rightarrow> degrees \<Rightarrow> string list \<Rightarrow> (degrees \<times> string list, string) rust" where
  "relax [] deg next_nodes = Ok (deg, next_nodes)"
| "relax (d # ds) deg next_nodes =
     (case map_of deg d of
        None \<Rightarrow> relax ds deg next_nodes
      | Some 0 \<Rightarrow> Panic ''attempt to subtract with overflow''
      | Some (Suc n) \<Rightarrow>
          relax ds (al_put d n deg) (if n = 0 then next_nodes @ [d] else next_nodes))"

definition positives :: "degrees \<Rightarrow> nat" where
  "positives deg = card {k. \<exists>n. map_of deg k = Some (Suc n)}"

lemma finite_positive [simp]: "finite {k. \<exists>n. map_of deg k = Some (Suc n)}"
  by (rule finite_subset [OF _ finite_dom_map_of [of deg]]) blast

lemma relax_positives:
  "relax ds deg next_nodes = Ok (deg', next') \<Longrightarrow>
   length next' + positives deg' = length next_nodes + positives deg"
proof (induction ds deg next_nodes rule: relax.induct)
  case (2 d ds deg next_nodes)
  show ?case
  proof (cases "map_of deg d")
    case (Some m)
    with 2(3) obtain n where n: "map_of deg d = Some (Suc n)" by (cases m) auto
    let ?P = "\<lambda>m. {k. \<exists>n. map_of m k = Some (Suc n)}"
    have "?P (al_put d n deg) = (if n = 0 then ?P deg - {d} else ?P deg)"
    proof (cases n)
      case (Suc i)
      have "(\<exists>j. map_of (al_put d n deg) k = Some (Suc j)) = (\<exists>j. map_of deg k = Some (Suc j))" for k
        using n Suc by (cases "k = d") simp_all
      then show ?thesis using Suc by simp
    next
      case 0
      have "(\<exists>j. map_of (al_put d 0 deg) k = Some (Suc j)) =
          ((\<exists>j. map_of deg k = Some (Suc j)) \<and> k \<noteq> d)" for k
        by (cases "k = d") simp_all
      then show ?thesis using 0 by (simp add: set_eq_iff)
    qed
    moreover have "d \<in> ?P deg" using n by simp
    then have "Suc (card (?P deg - {d})) = card (?P deg)" by (intro card.remove [symmetric]) simp_all
    ultimately have "positives (al_put d n deg) + (if n = 0 then 1 else 0) = positives deg"
      by (simp add: positives_def)
    moreover have "length next' + positives deg' =
        length (if n = 0 then next_nodes @ [d] else next_nodes) + positives (al_put d n deg)"
      using 2 n by simp
    ultimately show ?thesis by (simp split: if_splits)
  qed (use 2 in auto)
qed simp

text \<open>The \<open>while\<close> loop: \<open>queue\<close> is the vector, whose end is popped and pushed to.\<close>

function kahn :: "(string \<times> string list) list \<Rightarrow> string list \<Rightarrow> degrees \<Rightarrow> string list
    \<Rightarrow> (string list, string) rust" where
  "kahn A queue deg order =
     (if queue = [] then Ok order
      else (let node = last queue; rest = butlast queue; order' = order @ [node]
            in case map_of A node of
                 None \<Rightarrow> kahn A rest deg order'
               | Some dependents \<Rightarrow>
                   (case relax dependents deg [] of
                      Ok (deg', next_nodes) \<Rightarrow> kahn A (rest @ rev (sort next_nodes)) deg' order'
                    | Err e \<Rightarrow> Err e
                    | Panic m \<Rightarrow> Panic m)))"
  by pat_completeness auto
termination
proof (relation "measure (\<lambda>(A, queue, deg, order). length queue + positives deg)", goal_cases)
  case (3 A queue deg order node rest order' ds r deg' next_nodes)
  then show ?case using relax_positives [of ds deg "[]" deg' next_nodes] by (cases queue) simp_all
qed (auto simp: length_butlast neq_Nil_conv)

declare kahn.simps [simp del]

definition topological_sort :: "dep_graph \<Rightarrow> (string list, string) rust" where
  "topological_sort g =
     (let deg = in_degrees g;
          queue = sort (map fst (filter (\<lambda>(n, d). d = 0) deg))
      in rbind (kahn (adj g) queue deg [])
           (\<lambda>order. if length order = length (nodes g) then Ok order
                    else Err ''dependency cycle detected''))"

section \<open>Directed graphs\<close>

text \<open>What makes an order of the nodes possible, for any finite graph.\<close>

fun topo_from :: "('a \<times> 'a) set \<Rightarrow> 'a set \<Rightarrow> 'a list \<Rightarrow> bool" where
  "topo_from E seen [] = True"
| "topo_from E seen (n # ns) = ((\<forall>p. (p, n) \<in> E \<longrightarrow> p \<in> seen) \<and> topo_from E (insert n seen) ns)"

lemma topo_from_snoc:
  "topo_from E seen (ns @ [n]) \<longleftrightarrow> topo_from E seen ns \<and> (\<forall>p. (p, n) \<in> E \<longrightarrow> p \<in> seen \<union> set ns)"
  by (induction ns arbitrary: seen) auto

lemma topo_from_take:
  "topo_from E seen ns \<Longrightarrow> i < length ns \<Longrightarrow> (p, ns ! i) \<in> E \<Longrightarrow> p \<in> seen \<union> set (take i ns)"
proof (induction ns arbitrary: seen i)
  case (Cons n ns)
  then show ?case by (cases i) fastforce+
qed simp

locale digraph =
  fixes V :: "'a set" and E :: "('a \<times> 'a) set"
  assumes finite_nodes: "finite V" and edges_sub: "E \<subseteq> V \<times> V"
begin

lemma finite_edges: "finite E"
  by (rule finite_subset [OF edges_sub]) (simp add: finite_nodes)

lemma stuck_cyclic:
  assumes "S \<noteq> {}" "\<And>n. n \<in> S \<Longrightarrow> \<exists>p\<in>S. (p, n) \<in> E"
  shows "\<not> acyclic E"
proof
  assume "acyclic E"
  then have "wf E" by (rule finite_acyclic_wf [OF finite_edges])
  with assms(1) obtain z where "z \<in> S" "\<And>y. (y, z) \<in> E \<Longrightarrow> y \<notin> S" by (metis ex_in_conv wfE_min)
  with assms(2) show False by blast
qed

lemma ordered_acyclic:
  assumes "distinct order" "set order = V" "topo_from E {} order"
  shows "acyclic E"
proof -
  define idx where "idx n = (THE i. i < length order \<and> order ! i = n)" for n
  have idx: "idx (order ! i) = i" if "i < length order" for i
    unfolding idx_def using that assms(1) by (intro the_equality) (auto simp: nth_eq_iff_index_eq)
  have "E \<subseteq> measure idx"
  proof clarify
    fix p n assume e: "(p, n) \<in> E"
    then have "n \<in> set order" using edges_sub assms(2) by auto
    then obtain j where j: "j < length order" "n = order ! j" by (metis in_set_conv_nth)
    with e topo_from_take [OF assms(3)] have "p \<in> set (take j order)" by auto
    then obtain i where "i < j" "p = order ! i"
      using j(1) by (auto simp: in_set_conv_nth)
    then show "(p, n) \<in> measure idx" using j idx by simp
  qed
  then show ?thesis using acyclic_subset wf_acyclic [OF wf_measure] by blast
qed

end

section \<open>The graph that is built\<close>

definition edges :: "dep_graph \<Rightarrow> (string \<times> string) set" where
  "edges g = {(p, d). \<exists>ds. map_of (adj g) p = Some ds \<and> d \<in> set ds}"

definition graph_ok :: "dep_graph \<Rightarrow> bool" where
  "graph_ok g \<longleftrightarrow> distinct (nodes g) \<and> distinct (map fst (adj g))
     \<and> (\<forall>k. k \<in> set (nodes g) \<longleftrightarrow> map_of (adj g) k \<noteq> None)
     \<and> (\<forall>k ds. map_of (adj g) k = Some ds \<longrightarrow> distinct ds \<and> set ds \<subseteq> set (nodes g))"

lemma graph_okD:
  assumes "graph_ok g"
  shows "distinct (nodes g)" and "distinct (map fst (adj g))"
    and "k \<in> set (nodes g) \<Longrightarrow> \<exists>ds. map_of (adj g) k = Some ds"
    and "map_of (adj g) k = Some ds \<Longrightarrow> k \<in> set (nodes g)"
    and "map_of (adj g) k = Some ds \<Longrightarrow> distinct ds"
    and "map_of (adj g) k = Some ds \<Longrightarrow> d \<in> set ds \<Longrightarrow> d \<in> set (nodes g)"
proof -
  have 1: "distinct (nodes g)" "distinct (map fst (adj g))"
    and 2: "\<forall>k. k \<in> set (nodes g) \<longleftrightarrow> map_of (adj g) k \<noteq> None"
    and 3: "\<forall>k ds. map_of (adj g) k = Some ds \<longrightarrow> distinct ds \<and> set ds \<subseteq> set (nodes g)"
    using assms unfolding graph_ok_def by blast+
  show "distinct (nodes g)" "distinct (map fst (adj g))" by (fact 1)+
  show "k \<in> set (nodes g) \<Longrightarrow> \<exists>ds. map_of (adj g) k = Some ds"
    and "map_of (adj g) k = Some ds \<Longrightarrow> k \<in> set (nodes g)"
    using 2 [rule_format, of k] by (cases "map_of (adj g) k"; simp)+
  show "map_of (adj g) k = Some ds \<Longrightarrow> distinct ds"
    and "map_of (adj g) k = Some ds \<Longrightarrow> d \<in> set ds \<Longrightarrow> d \<in> set (nodes g)"
    using 3 [rule_format, of k ds] by blast+
qed

lemma graph_okI:
  assumes "distinct (nodes g)" "distinct (map fst (adj g))"
    "\<And>k. k \<in> set (nodes g) \<longleftrightarrow> map_of (adj g) k \<noteq> None"
    "\<And>k ds. map_of (adj g) k = Some ds \<Longrightarrow> distinct ds \<and> set ds \<subseteq> set (nodes g)"
  shows "graph_ok g"
  using assms unfolding graph_ok_def by blast

lemma graph_digraph: "graph_ok g \<Longrightarrow> digraph (set (nodes g)) (edges g)"
  by unfold_locales (auto simp: edges_def dest: graph_okD)

lemma set_set_add [simp]: "set (set_add x xs) = insert x (set xs)"
  by (auto simp: set_add_def)

lemma distinct_set_add [simp]: "distinct (set_add x xs) = distinct xs"
  by (auto simp: set_add_def)

lemma map_of_or_default:
  "map_of (or_default k m) = (case map_of m k of None \<Rightarrow> (map_of m)(k \<mapsto> []) | Some _ \<Rightarrow> map_of m)"
  by (auto simp: or_default_def split: option.split)

lemma distinct_or_default: "distinct (map fst m) \<Longrightarrow> distinct (map fst (or_default k m))"
  by (auto simp: or_default_def split: option.split)

lemma graph_new_ok: "graph_ok graph_new" "edges graph_new = {}" "nodes graph_new = []"
  by (auto simp: graph_ok_def graph_new_def edges_def)

lemma ensure_node_ok:
  assumes "graph_ok g"
  shows "graph_ok (ensure_node n g)" "edges (ensure_node n g) = edges g"
    "set (nodes (ensure_node n g)) = insert n (set (nodes g))"
proof -
  have look: "map_of (adj (ensure_node n g)) k =
      (if map_of (adj g) n = None \<and> k = n then Some [] else map_of (adj g) k)" for k
    by (simp add: ensure_node_def map_of_or_default split: option.split)
  show ns: "set (nodes (ensure_node n g)) = insert n (set (nodes g))"
    by (simp add: ensure_node_def)
  show "edges (ensure_node n g) = edges g"
    by (auto simp: edges_def look split: if_splits)
  show "graph_ok (ensure_node n g)"
  proof (rule graph_okI)
    show "distinct (nodes (ensure_node n g))" "distinct (map fst (adj (ensure_node n g)))"
      using graph_okD(1,2) [OF assms] by (simp_all add: ensure_node_def distinct_or_default)
    show "k \<in> set (nodes (ensure_node n g)) \<longleftrightarrow> map_of (adj (ensure_node n g)) k \<noteq> None" for k
      using assms unfolding ns look graph_ok_def by (metis insert_iff option.distinct(1))
    show "map_of (adj (ensure_node n g)) k = Some ds \<Longrightarrow>
        distinct ds \<and> set ds \<subseteq> set (nodes (ensure_node n g))" for k ds
      unfolding ns look using graph_okD(5,6) [OF assms, of k ds] by (cases "map_of (adj g) n = None \<and> k = n") auto
  qed
qed

lemma add_edge_ok:
  assumes "graph_ok g"
  shows "graph_ok (add_edge p d g) \<and> edges (add_edge p d g) = insert (p, d) (edges g) \<and>
    set (nodes (add_edge p d g)) = {p, d} \<union> set (nodes g)"
proof -
  let ?g = "ensure_node d (ensure_node p g)"
  have ok: "graph_ok ?g" "edges ?g = edges g" "set (nodes ?g) = {p, d} \<union> set (nodes g)"
    using assms by (simp_all add: ensure_node_ok insert_commute)
  then obtain ds where ds: "map_of (adj ?g) p = Some ds" using graph_okD(3) [OF ok(1), of p] by auto
  then have dflt: "or_default p (adj ?g) = adj ?g" by (simp add: or_default_def)
  have eq: "add_edge p d g = ?g\<lparr>adj := al_put p (set_add d ds) (adj ?g)\<rparr>"
    by (simp add: add_edge_def Let_def dflt ds)
  have "edges (add_edge p d g) = insert (p, d) (edges ?g)"
    unfolding eq using ds by (auto simp: edges_def split: if_splits)
  moreover have "graph_ok (add_edge p d g)"
  proof (rule graph_okI)
    have h: "nodes (add_edge p d g) = nodes ?g" "adj (add_edge p d g) = al_put p (set_add d ds) (adj ?g)"
      by (simp_all add: eq)
    show "distinct (nodes (add_edge p d g))" "distinct (map fst (adj (add_edge p d g)))"
      unfolding h using graph_okD(1,2) [OF ok(1)] by simp_all
    show "k \<in> set (nodes (add_edge p d g)) \<longleftrightarrow> map_of (adj (add_edge p d g)) k \<noteq> None" for k
      unfolding h using graph_okD(3,4) [OF ok(1), of k] ds by (cases "k = p") auto
    show "map_of (adj (add_edge p d g)) k = Some es \<Longrightarrow>
        distinct es \<and> set es \<subseteq> set (nodes (add_edge p d g))" for k es
    proof -
      assume a: "map_of (adj (add_edge p d g)) k = Some es"
      have sub: "set ds \<subseteq> set (nodes ?g)" "distinct ds" using graph_okD(5,6) [OF ok(1) ds] by auto
      have d: "d \<in> set (nodes ?g)" using ok(3) by simp
      have "k \<noteq> p \<Longrightarrow> set es \<subseteq> set (nodes ?g) \<and> distinct es"
        using a graph_okD(5,6) [OF ok(1), of k es] unfolding h by auto
      then show ?thesis using a sub d unfolding h by (cases "k = p") auto
    qed
  qed
  ultimately show ?thesis using ok by (simp add: eq)
qed

lemma fold_ensure_ok:
  "graph_ok g \<Longrightarrow> graph_ok (fold (\<lambda>e. ensure_node (de_name e)) es g) \<and>
   edges (fold (\<lambda>e. ensure_node (de_name e)) es g) = edges g \<and>
   set (nodes (fold (\<lambda>e. ensure_node (de_name e)) es g)) = de_name ` set es \<union> set (nodes g)"
  by (induction es arbitrary: g) (auto simp: ensure_node_ok)

lemma fold_params_ok:
  assumes "graph_ok g" "n \<in> N" "N \<subseteq> set (nodes g)"
  shows "graph_ok (fold (\<lambda>p g. if p \<in> N then add_edge p n g else g) ps g) \<and>
   edges (fold (\<lambda>p g. if p \<in> N then add_edge p n g else g) ps g) =
     edges g \<union> {(p, n) | p. p \<in> set ps \<and> p \<in> N} \<and>
   set (nodes (fold (\<lambda>p g. if p \<in> N then add_edge p n g else g) ps g)) = set (nodes g)"
  using assms
proof (induction ps arbitrary: g)
  case (Cons p ps)
  let ?g = "if p \<in> N then add_edge p n g else g"
  have g: "graph_ok ?g" "edges ?g = edges g \<union> (if p \<in> N then {(p, n)} else {})"
    "set (nodes ?g) = set (nodes g)"
    using add_edge_ok [OF Cons.prems(1), of p n] Cons.prems by auto
  then have "N \<subseteq> set (nodes ?g)" using Cons.prems(3) by simp
  note ih = Cons.IH [OF g(1) Cons.prems(2) this]
  show ?case using ih g by auto
qed simp

lemma fold_entries_ok:
  assumes "graph_ok g" "de_name ` set es \<subseteq> N" "N \<subseteq> set (nodes g)"
  shows "graph_ok (fold (\<lambda>e g. fold (\<lambda>p g. if p \<in> N then add_edge p (de_name e) g else g) (de_params e) g) es g) \<and>
   edges (fold (\<lambda>e g. fold (\<lambda>p g. if p \<in> N then add_edge p (de_name e) g else g) (de_params e) g) es g) =
     edges g \<union> {(p, de_name e) | p e. e \<in> set es \<and> p \<in> set (de_params e) \<and> p \<in> N} \<and>
   set (nodes (fold (\<lambda>e g. fold (\<lambda>p g. if p \<in> N then add_edge p (de_name e) g else g) (de_params e) g) es g)) =
     set (nodes g)"
  using assms
proof (induction es arbitrary: g)
  case (Cons e es)
  let ?g = "fold (\<lambda>p g. if p \<in> N then add_edge p (de_name e) g else g) (de_params e) g"
  have g: "graph_ok ?g" "edges ?g = edges g \<union> {(p, de_name e) | p. p \<in> set (de_params e) \<and> p \<in> N}"
    "set (nodes ?g) = set (nodes g)"
    using fold_params_ok [OF Cons.prems(1), of "de_name e" N "de_params e"] Cons.prems by auto
  then have "N \<subseteq> set (nodes ?g)" "de_name ` set es \<subseteq> N" using Cons.prems(2,3) by auto
  note ih = Cons.IH [OF g(1) this(2,1)]
  show ?case using ih g by auto
qed simp

text \<open>The prerequisites that the entries name among themselves.\<close>

definition requires :: "dependency_entry list \<Rightarrow> (string \<times> string) set" where
  "requires es = {(p, de_name e) | p e. e \<in> set es \<and> p \<in> set (de_params e) \<and> p \<in> de_name ` set es}"

lemma build_graph:
  "graph_ok (build_graph_from_entries es) \<and> edges (build_graph_from_entries es) = requires es \<and>
   set (nodes (build_graph_from_entries es)) = de_name ` set es"
proof -
  let ?g0 = "fold (\<lambda>e. ensure_node (de_name e)) es graph_new"
  have "graph_ok ?g0 \<and> edges ?g0 = {} \<and> set (nodes ?g0) = de_name ` set es"
    using fold_ensure_ok [OF graph_new_ok(1), of es] by (simp add: graph_new_ok)
  then show ?thesis
    using fold_entries_ok [of ?g0 es "de_name ` set es"]
    by (simp add: build_graph_from_entries_def Let_def requires_def)
qed

lemmas build_graph_ok = build_graph [THEN conjunct1]

interpretation deps: digraph "set (nodes (build_graph_from_entries es))" "edges (build_graph_from_entries es)"
  for es
  by (rule graph_digraph [OF build_graph_ok])

section \<open>The loop\<close>

lemma map_of_count_fold:
  "map_of (fold (\<lambda>d m. al_put d (Suc (case map_of m d of Some n \<Rightarrow> n | None \<Rightarrow> 0)) m) xs m) k =
   (if k \<in> set xs then Some (count_list xs k + (case map_of m k of Some n \<Rightarrow> n | None \<Rightarrow> 0))
    else map_of m k)"
  by (induction xs arbitrary: m) (auto split: option.split)

lemma map_of_zero_fold:
  "map_of (fold (\<lambda>n m. al_put n (0 :: nat) m) ns m) k = (if k \<in> set ns then Some 0 else map_of m k)"
  by (induction ns arbitrary: m) auto

lemma distinct_fold_put:
  "distinct (map fst m) \<Longrightarrow> distinct (map fst (fold (\<lambda>x m. al_put x (f x m) m) xs m))"
  by (induction xs arbitrary: m) auto

text \<open>The prerequisites of \<open>n\<close> that are not in the order yet.\<close>

definition unmet :: "dep_graph \<Rightarrow> string list \<Rightarrow> string \<Rightarrow> string set" where
  "unmet g order n = {p. (p, n) \<in> edges g \<and> p \<notin> set order}"

lemma finite_unmet: "graph_ok g \<Longrightarrow> finite (unmet g order n)"
  by (rule finite_subset [of _ "set (nodes g)"]) (auto simp: unmet_def edges_def dest: graph_okD)

lemma count_list_distinct: "distinct xs \<Longrightarrow> count_list xs x = (if x \<in> set xs then 1 else 0)"
  by (induction xs) auto

lemma count_concat:
  assumes "distinct (map fst A)" "\<forall>(k, ds) \<in> set A. distinct ds"
  shows "count_list (concat (map snd A)) n = card {p. \<exists>ds. map_of A p = Some ds \<and> n \<in> set ds}"
  using assms
proof (induction A)
  case (Cons a A)
  obtain k ds where a: "a = (k, ds)" by fastforce
  let ?P = "{p. \<exists>ds. map_of A p = Some ds \<and> n \<in> set ds}"
  have "map_of A k = None" using Cons.prems(1) by (simp add: a map_of_eq_None_iff)
  then have k: "k \<notin> ?P" by simp
  have "finite ?P" by (rule finite_subset [OF _ finite_dom_map_of [of A]]) auto
  moreover have "{p. \<exists>ds. map_of (a # A) p = Some ds \<and> n \<in> set ds} =
      (if n \<in> set ds then insert k ?P else ?P)"
    using k by (auto simp: a split: if_splits)
  ultimately show ?case
    using Cons k by (simp add: a count_list_distinct)
qed simp

lemma in_degrees_spec:
  assumes "graph_ok g"
  shows "map_of (in_degrees g) n = (if n \<in> set (nodes g) then Some (card (unmet g [] n)) else None)"
    and "distinct (map fst (in_degrees g))"
proof -
  let ?A = "adj g"
  have dA: "distinct (map fst ?A)" by (rule graph_okD(2) [OF assms])
  have look: "(k, ds) \<in> set ?A \<Longrightarrow> map_of ?A k = Some ds" for k ds using dA by simp
  have "\<forall>(k, ds) \<in> set ?A. distinct ds" using graph_okD(5) [OF assms look] by blast
  note A = dA this
  have c: "count_list (concat (map snd ?A)) n = card (unmet g [] n)"
    unfolding count_concat [OF A] by (rule arg_cong [where f = card]) (auto simp: unmet_def edges_def)
  have sub: "n \<in> set (concat (map snd ?A)) \<Longrightarrow> n \<in> set (nodes g)"
    using graph_okD(6) [OF assms look] by auto
  have "n \<notin> set (concat (map snd ?A)) \<Longrightarrow> card (unmet g [] n) = 0"
    using c count_list_0_iff by metis
  with sub c show "map_of (in_degrees g) n =
      (if n \<in> set (nodes g) then Some (card (unmet g [] n)) else None)"
    unfolding in_degrees_def map_of_count_fold map_of_zero_fold by auto
  show "distinct (map fst (in_degrees g))"
    unfolding in_degrees_def by (intro distinct_fold_put) simp
qed

lemma relax_spec:
  assumes "distinct ds" "\<And>d. d \<in> set ds \<Longrightarrow> \<exists>n. map_of deg d = Some (Suc n)"
  shows "\<exists>deg'. relax ds deg nx = Ok (deg', nx @ filter (\<lambda>d. map_of deg d = Some 1) ds) \<and>
    (\<forall>k. map_of deg' k = (if k \<in> set ds then map_option (\<lambda>n. n - 1) (map_of deg k) else map_of deg k))"
  using assms
proof (induction ds arbitrary: deg nx)
  case (Cons d ds)
  obtain n where n: "map_of deg d = Some (Suc n)" using Cons.prems(2) [of d] by auto
  let ?deg = "al_put d n deg" and ?nx = "if n = 0 then nx @ [d] else nx"
  have eq: "e \<in> set ds \<Longrightarrow> map_of ?deg e = map_of deg e" for e using Cons.prems(1) by auto
  then have "\<exists>n. map_of ?deg e = Some (Suc n)" if "e \<in> set ds" for e
    using that Cons.prems(2) [of e] by simp
  with Cons.IH [of ?deg ?nx] Cons.prems(1) obtain deg' where
    r: "relax ds ?deg ?nx = Ok (deg', ?nx @ filter (\<lambda>d. map_of ?deg d = Some 1) ds)" and
    m: "\<forall>k. map_of deg' k = (if k \<in> set ds then map_option (\<lambda>n. n - 1) (map_of ?deg k) else map_of ?deg k)"
    by auto
  have f: "filter (\<lambda>d. map_of ?deg d = Some 1) ds = filter (\<lambda>d. map_of deg d = Some 1) ds"
    using eq by (intro filter_cong) simp_all
  have "relax (d # ds) deg nx = Ok (deg', nx @ filter (\<lambda>d. map_of deg d = Some 1) (d # ds))"
    using r n unfolding f by (simp split: if_splits)
  moreover have "map_of deg' k = (if k \<in> set (d # ds) then map_option (\<lambda>n. n - 1) (map_of deg k)
      else map_of deg k)" for k
    using m [rule_format, of k] n Cons.prems(1) by (cases "k = d") simp_all
  ultimately show ?case by blast
qed simp

text \<open>The invariant of the loop.\<close>

definition kahn_inv :: "dep_graph \<Rightarrow> string list \<Rightarrow> degrees \<Rightarrow> string list \<Rightarrow> bool" where
  "kahn_inv g queue deg order \<longleftrightarrow>
     distinct (order @ queue) \<and> set (order @ queue) \<subseteq> set (nodes g) \<and> topo_from (edges g) {} order
     \<and> (\<forall>n. map_of deg n = (if n \<in> set (nodes g) then Some (card (unmet g order n)) else None))
     \<and> (\<forall>n \<in> set (nodes g). n \<in> set (order @ queue) \<longleftrightarrow> unmet g order n = {})"

lemma kahn_inv_start:
  assumes "graph_ok g"
  shows "kahn_inv g (sort (map fst (filter (\<lambda>(n, d). d = 0) (in_degrees g)))) (in_degrees g) []"
proof -
  let ?deg = "in_degrees g"
  let ?q = "map fst (filter (\<lambda>(n, d). d = (0 :: nat)) ?deg)"
  note deg = in_degrees_spec [OF assms]
  have "n \<in> set ?q \<longleftrightarrow> map_of ?deg n = Some 0" for n
    using deg(2) by (force simp: image_iff dest: map_of_SomeD)
  then have q: "set (sort ?q) = {n \<in> set (nodes g). unmet g [] n = {}}"
    using finite_unmet [OF assms] by (auto simp: deg(1) simp del: set_map split: if_splits)
  have "distinct (sort ?q)" using distinct_map_filter [OF deg(2)] by (simp add: case_prod_unfold)
  then show ?thesis
    unfolding kahn_inv_def append_Nil q by (auto simp: deg(1))
qed

lemma unmet_snoc: "unmet g (order @ [node]) n = unmet g order n - {node}"
  by (auto simp: unmet_def)

lemma kahn_step:
  assumes g: "graph_ok g" and inv: "kahn_inv g (rest @ [node]) deg order"
  obtains ds deg' nx where "map_of (adj g) node = Some ds" "relax ds deg [] = Ok (deg', nx)"
    "kahn_inv g (rest @ rev (sort nx)) deg' (order @ [node])"
    "distinct nx" "set nx = {d. (node, d) \<in> edges g \<and> unmet g order d = {node}}"
proof -
  have dis: "distinct (order @ rest @ [node])" and sub: "set (order @ rest @ [node]) \<subseteq> set (nodes g)"
    and topo: "topo_from (edges g) {} order"
    and deg: "\<And>n. map_of deg n = (if n \<in> set (nodes g) then Some (card (unmet g order n)) else None)"
    and zero: "\<And>n. n \<in> set (nodes g) \<Longrightarrow> n \<in> set (order @ rest @ [node]) \<longleftrightarrow> unmet g order n = {}"
    using inv by (simp_all add: kahn_inv_def)
  have node: "node \<in> set (nodes g)" "node \<notin> set order" "unmet g order node = {}"
    using sub dis zero [of node] by auto
  obtain ds where ds: "map_of (adj g) node = Some ds" using graph_okD(3) [OF g node(1)] by auto
  have e: "(node, d) \<in> edges g \<longleftrightarrow> d \<in> set ds" for d by (simp add: edges_def ds)
  have mem: "d \<in> set ds \<Longrightarrow> d \<in> set (nodes g) \<and> node \<in> unmet g order d" for d
    using graph_okD(6) [OF g ds] node(2) by (auto simp: unmet_def e)
  have "\<exists>n. map_of deg d = Some (Suc n)" if "d \<in> set ds" for d
  proof -
    have "card (unmet g order d) \<noteq> 0"
      using mem [OF that] finite_unmet [OF g] by auto
    then show ?thesis using mem [OF that] deg [of d] by (simp add: not0_implies_Suc)
  qed
  from relax_spec [OF graph_okD(5) [OF g ds] this, where nx = "[]"]
  obtain deg' where r: "relax ds deg [] = Ok (deg', filter (\<lambda>d. map_of deg d = Some 1) ds)"
    and m: "\<And>k. map_of deg' k = (if k \<in> set ds then map_option (\<lambda>n. n - 1) (map_of deg k) else map_of deg k)"
    by auto
  let ?nx = "filter (\<lambda>d. map_of deg d = Some 1) ds"
  have one: "card (unmet g order d) = 1 \<longleftrightarrow> unmet g order d = {node}" if "d \<in> set ds" for d
    using mem [OF that] by (metis card_1_singletonE is_singletonI is_singleton_altdef singletonD)
  have nx: "set ?nx = {d. (node, d) \<in> edges g \<and> unmet g order d = {node}}"
    using mem one by (auto simp: e deg)
  have deg': "map_of deg' n = (if n \<in> set (nodes g) then Some (card (unmet g (order @ [node]) n)) else None)" for n
  proof (cases "n \<in> set ds")
    case True
    then have "card (unmet g order n - {node}) = card (unmet g order n) - 1"
      using mem [OF True] by (intro card_Diff_singleton) simp
    then show ?thesis using mem [OF True] True by (simp add: m deg unmet_snoc)
  next
    case False
    then have "node \<notin> unmet g order n" by (simp add: unmet_def e)
    then show ?thesis using False by (simp add: m deg unmet_snoc)
  qed
  have fresh: "set ?nx \<inter> set (order @ rest @ [node]) = {}"
    using zero mem unfolding nx by (auto simp: e)
  have "kahn_inv g (rest @ rev (sort ?nx)) deg' (order @ [node])"
    unfolding kahn_inv_def
  proof (intro conjI allI ballI)
    show "distinct ((order @ [node]) @ rest @ rev (sort ?nx))"
      using dis fresh graph_okD(5) [OF g ds] by auto
    show "set ((order @ [node]) @ rest @ rev (sort ?nx)) \<subseteq> set (nodes g)"
      using sub mem by auto
    show "topo_from (edges g) {} (order @ [node])"
      using topo node(3) by (auto simp: topo_from_snoc unmet_def)
    show "map_of deg' n = (if n \<in> set (nodes g) then Some (card (unmet g (order @ [node]) n)) else None)" for n
      by (rule deg')
    show "n \<in> set ((order @ [node]) @ rest @ rev (sort ?nx)) \<longleftrightarrow> unmet g (order @ [node]) n = {}"
      if "n \<in> set (nodes g)" for n
    proof -
      have "n \<in> set ds" if "unmet g order n = {node}"
      proof -
        have "node \<in> unmet g order n" using that by simp
        then show ?thesis by (simp add: unmet_def e)
      qed
      then have "n \<in> set ?nx \<longleftrightarrow> unmet g order n = {node}" unfolding nx e by blast
      moreover have "unmet g order n - {node} = {} \<longleftrightarrow> unmet g order n = {} \<or> unmet g order n = {node}"
        by auto
      ultimately show ?thesis using zero [OF that] by (auto simp: unmet_snoc)
    qed
  qed
  then show ?thesis using that ds r nx graph_okD(5) [OF g ds] by simp
qed

lemma kahn_returns:
  assumes "graph_ok g" "kahn_inv g queue deg order"
  shows "\<exists>deg' order'. kahn (adj g) queue deg order = Ok order' \<and> kahn_inv g [] deg' order'"
  using assms(2)
proof (induction "adj g" queue deg order rule: kahn.induct)
  case (1 queue deg order)
  show ?case
  proof (cases "queue = []")
    case True
    then show ?thesis using 1 by (auto simp: kahn.simps)
  next
    case False
    then have q: "queue = butlast queue @ [last queue]" by simp
    with 1(3) have "kahn_inv g (butlast queue @ [last queue]) deg order" by simp
    then obtain ds deg' nx where
      s: "map_of (adj g) (last queue) = Some ds" "relax ds deg [] = Ok (deg', nx)"
      "kahn_inv g (butlast queue @ rev (sort nx)) deg' (order @ [last queue])"
      by (rule kahn_step [OF assms(1)]) (rule that)
    from 1(2) [OF False refl refl refl s(1,2) refl s(3)] False s(1,2) show ?thesis
      by (simp add: kahn.simps [of "adj g" queue])
  qed
qed

lemma topological_sort_loop:
  assumes "graph_ok g"
  obtains order deg where "kahn_inv g [] deg order"
    "topological_sort g = (if length order = length (nodes g) then Ok order
       else Err ''dependency cycle detected'')"
  using kahn_returns [OF assms kahn_inv_start [OF assms]] that
  by (auto simp: topological_sort_def Let_def)

lemma full_order:
  assumes "graph_ok g" "distinct order" "set order \<subseteq> set (nodes g)"
  shows "length order = length (nodes g) \<longleftrightarrow> set order = set (nodes g)"
proof -
  have "length order = card (set order)" using distinct_card [OF assms(2)] by simp
  moreover have "length (nodes g) = card (set (nodes g))"
    using distinct_card [OF graph_okD(1) [OF assms(1)]] by simp
  ultimately show ?thesis using card_subset_eq [OF _ assms(3)] by auto
qed

lemma stuck_unmet:
  assumes "graph_ok g" "kahn_inv g [] deg order" "n \<in> set (nodes g) - set order"
  shows "\<exists>p \<in> set (nodes g) - set order. (p, n) \<in> edges g"
proof -
  have "unmet g order n \<noteq> {}" using assms(2,3) unfolding kahn_inv_def by auto
  then obtain p where p: "(p, n) \<in> edges g" "p \<notin> set order" by (auto simp: unmet_def)
  then have "p \<in> set (nodes g)" using graph_okD(4) [OF assms(1)] by (auto simp: edges_def)
  with p show ?thesis by blast
qed

lemma topological_cases:
  "case topological_sort (build_graph_from_entries es) of
     Ok order \<Rightarrow> distinct order \<and> set order = de_name ` set es \<and> acyclic (requires es)
       \<and> (\<forall>i < length order. \<forall>p. (p, order ! i) \<in> requires es \<longrightarrow> p \<in> set (take i order))
   | Err m \<Rightarrow> m = ''dependency cycle detected'' \<and> \<not> acyclic (requires es)
   | Panic m \<Rightarrow> False"
proof -
  let ?g = "build_graph_from_entries es"
  have req: "edges ?g = requires es" and ns: "set (nodes ?g) = de_name ` set es"
    using build_graph by blast+
  obtain order deg where inv: "kahn_inv ?g [] deg order"
    and res: "topological_sort ?g = (if length order = length (nodes ?g) then Ok order
       else Err ''dependency cycle detected'')"
    by (rule topological_sort_loop [OF build_graph_ok])
  have o: "distinct order" "set order \<subseteq> set (nodes ?g)" "topo_from (edges ?g) {} order"
    using inv by (simp_all add: kahn_inv_def)
  note full = full_order [OF build_graph_ok o(1,2)]
  show ?thesis
  proof (cases "set order = set (nodes ?g)")
    case True
    then have "acyclic (edges ?g)" using deps.ordered_acyclic o by blast
    moreover have "\<forall>i < length order. \<forall>p. (p, order ! i) \<in> edges ?g \<longrightarrow> p \<in> set (take i order)"
      using topo_from_take [OF o(3)] by auto
    ultimately show ?thesis using True full o(1) by (simp add: res req ns)
  next
    case False
    then have "set (nodes ?g) - set order \<noteq> {}" using o(2) by blast
    then have "\<not> acyclic (edges ?g)"
      by (rule deps.stuck_cyclic) (rule stuck_unmet [OF build_graph_ok inv])
    with False full show ?thesis by (simp add: res req)
  qed
qed

lemma topological_order:
  assumes "topological_sort (build_graph_from_entries es) = Ok order"
  shows "distinct order" "set order = de_name ` set es"
    "i < length order \<Longrightarrow> (p, order ! i) \<in> requires es \<Longrightarrow> p \<in> set (take i order)"
  using topological_cases [of es] assms by simp_all

text \<open>
  C19. The order of a route's dependencies: on the graph of any list of entries the sort
  returns, without a degree passing below zero, either every name once with all its
  prerequisites before it, or the cycle error exactly when the entries require each other
  in a cycle.
\<close>

theorem dependency_order_correct:
  "case topological_sort (build_graph_from_entries es) of
     Ok order \<Rightarrow> distinct order \<and> set order = de_name ` set es \<and> acyclic (requires es)
       \<and> (\<forall>i < length order. \<forall>p. (p, order ! i) \<in> requires es \<longrightarrow> p \<in> set (take i order))
   | Err m \<Rightarrow> m = ''dependency cycle detected'' \<and> \<not> acyclic (requires es)
   | Panic m \<Rightarrow> False"
  by (rule topological_cases)

section \<open>Independence of the iteration orders\<close>

definition graph_eq :: "dep_graph \<Rightarrow> dep_graph \<Rightarrow> bool" where
  "graph_eq g h \<longleftrightarrow> graph_ok g \<and> graph_ok h \<and> set (nodes g) = set (nodes h) \<and> edges g = edges h"

lemma kahn_same:
  assumes "graph_eq g h" "kahn_inv g queue deg order" "map_of deg = map_of deg'"
  shows "kahn (adj g) queue deg order = kahn (adj h) queue deg' order"
  using assms(2,3)
proof (induction "adj g" queue deg order arbitrary: deg' rule: kahn.induct)
  case (1 queue deg order)
  have g: "graph_ok g" "graph_ok h" and eq: "set (nodes g) = set (nodes h)" "edges g = edges h"
    using assms(1) by (simp_all add: graph_eq_def)
  show ?case
  proof (cases "queue = []")
    case True
    then show ?thesis by (simp add: kahn.simps)
  next
    case False
    then have inv: "kahn_inv g (butlast queue @ [last queue]) deg order" using 1(3) by simp
    have un: "unmet g = unmet h" by (simp add: unmet_def eq fun_eq_iff)
    have inv': "kahn_inv h (butlast queue @ [last queue]) deg' order"
      using inv 1(4) unfolding kahn_inv_def eq un by simp
    obtain ds d1 nx where s: "map_of (adj g) (last queue) = Some ds" "relax ds deg [] = Ok (d1, nx)"
      "kahn_inv g (butlast queue @ rev (sort nx)) d1 (order @ [last queue])"
      "distinct nx" "set nx = {d. (last queue, d) \<in> edges g \<and> unmet g order d = {last queue}}"
      by (rule kahn_step [OF g(1) inv])
    obtain ds' d1' nx' where s': "map_of (adj h) (last queue) = Some ds'" "relax ds' deg' [] = Ok (d1', nx')"
      "kahn_inv h (butlast queue @ rev (sort nx')) d1' (order @ [last queue])"
      "distinct nx'" "set nx' = {d. (last queue, d) \<in> edges h \<and> unmet h order d = {last queue}}"
      by (rule kahn_step [OF g(2) inv'])
    have "set nx = set nx'" unfolding s(5) s'(5) eq un ..
    then have nx: "sort nx = sort nx'"
      using s(4) s'(4) by (intro sorted_distinct_set_unique) simp_all
    have "map_of d1 = map_of d1'"
      using s(3) s'(3) unfolding kahn_inv_def eq un by (simp add: fun_eq_iff)
    with 1(2) [OF False refl refl refl s(1,2) refl s(3)] show ?thesis
      using False s(1,2) s'(1,2) nx by (simp add: kahn.simps [of _ queue])
  qed
qed

lemma topological_sort_same:
  assumes "graph_eq g h"
  shows "topological_sort g = topological_sort h"
proof -
  have g: "graph_ok g" "graph_ok h" and eq: "set (nodes g) = set (nodes h)" "edges g = edges h"
    using assms by (simp_all add: graph_eq_def)
  have un: "unmet g = unmet h" by (simp add: unmet_def eq fun_eq_iff)
  let ?q = "\<lambda>g. sort (map fst (filter (\<lambda>(n, d). d = 0) (in_degrees g)))"
  have inv: "kahn_inv g (?q g) (in_degrees g) []" "kahn_inv h (?q h) (in_degrees h) []"
    using kahn_inv_start g by blast+
  have "set (?q g) = set (?q h)"
    using inv unfolding kahn_inv_def eq un append_Nil by blast
  then have q: "?q g = ?q h"
    using inv unfolding kahn_inv_def by (intro sorted_distinct_set_unique) simp_all
  have deg: "map_of (in_degrees g) = map_of (in_degrees h)"
    using inv unfolding kahn_inv_def eq un by (simp add: fun_eq_iff)
  have "length (nodes g) = length (nodes h)"
    using distinct_card [OF graph_okD(1) [OF g(1)]] distinct_card [OF graph_okD(1) [OF g(2)]] eq(1) by simp
  then show ?thesis
    unfolding topological_sort_def Let_def using kahn_same [OF assms inv(1) deg] q by simp
qed

text \<open>
  The order does not depend on the iteration order of any set or map: entries that
  agree up to the order in which their parameter sets are listed give the same result, and
  so does a list of the same entries in another order.
\<close>

theorem topological_sort_deterministic:
  assumes "(\<lambda>e. (de_name e, set (de_params e))) ` set es = (\<lambda>e. (de_name e, set (de_params e))) ` set es'"
  shows "topological_sort (build_graph_from_entries es) = topological_sort (build_graph_from_entries es')"
proof (rule topological_sort_same)
  have names: "de_name ` set es = de_name ` set es'"
    using arg_cong [OF assms, of "image fst"] by (simp add: image_image)
  have "requires es = {(p, n). \<exists>P. (n, P) \<in> (\<lambda>e. (de_name e, set (de_params e))) ` set es \<and> p \<in> P \<and> p \<in> de_name ` set es}" for es
    by (auto simp: requires_def image_iff)
  then have "requires es = requires es'" using assms names by simp
  then show "graph_eq (build_graph_from_entries es) (build_graph_from_entries es')"
    using build_graph [of es] build_graph [of es'] names by (simp add: graph_eq_def)
qed

section \<open>Concrete inputs\<close>

definition sample_entry :: "string \<Rightarrow> string list \<Rightarrow> dependency_entry" where
  "sample_entry n ps = \<lparr>de_name = n, de_factory = PyNone, de_is_async = False, de_wants_request = False,
     de_params = ps, de_varkw = False\<rparr>"

lemma sample_order:
  "topological_sort (build_graph_from_entries
     [sample_entry ''c'' [''b'', ''x''], sample_entry ''b'' [''a''], sample_entry ''a'' []]) = Ok [''a'', ''b'', ''c'']"
  by code_simp

theorem dependency_order_correct_witness:
  "(''a'', ''b'') \<in> requires [sample_entry ''c'' [''b'', ''x''], sample_entry ''b'' [''a''], sample_entry ''a'' []]
   \<and> ''a'' \<in> set (take 1 [''a'', ''b'', ''c''])"
proof
  let ?es = "[sample_entry ''c'' [''b'', ''x''], sample_entry ''b'' [''a''], sample_entry ''a'' []]"
  show r: "(''a'', ''b'') \<in> requires ?es"
    unfolding requires_def
    by (rule CollectI, rule exI [of _ "''a''"], rule exI [of _ "sample_entry ''b'' [''a'']"])
      (simp add: sample_entry_def)
  then have "(''a'', [''a'', ''b'', ''c''] ! 1) \<in> requires ?es" by simp
  then show "''a'' \<in> set (take 1 [''a'', ''b'', ''c''])"
    using dependency_order_correct [of ?es] unfolding sample_order by fastforce
qed

theorem topological_sort_deterministic_witness:
  "topological_sort (build_graph_from_entries [sample_entry ''b'' [''a'', ''c''], sample_entry ''a'' []]) =
   topological_sort (build_graph_from_entries [sample_entry ''a'' [], sample_entry ''b'' [''c'', ''a'']])"
  by (rule topological_sort_deterministic) (auto simp: sample_entry_def)

end
