(* ===== verification/Json.thy ===== *)
theory Json
  imports F64
begin

text \<open>
  \<open>serde_json::Value\<close>, the JSON values of the request bodies and of the OpenAPI document.
  A map is the list of its entries with distinct keys; the crate keeps them in key order
  and nothing here depends on that order.
\<close>

datatype jnum = JPos u64 | JNeg int | JFloat f64

datatype json =
    JNull
  | JBool bool
  | JNum jnum
  | JStr string
  | JArr "json list"
  | JObj "(string \<times> json) list"

fun as_object :: "json \<Rightarrow> (string \<times> json) list option" where
  "as_object (JObj m) = Some m"
| "as_object _ = None"

text \<open>\<open>m.entry(k).or_insert_with(|| v)\<close>\<close>

definition obj_default :: "string \<Rightarrow> json \<Rightarrow> (string \<times> json) list \<Rightarrow> (string \<times> json) list" where
  "obj_default k v m = (case map_of m k of Some _ \<Rightarrow> m | None \<Rightarrow> al_put k v m)"

text \<open>\<open>m.get_mut(k).and_then(as_object_mut)\<close>, updated by \<open>f\<close>; unchanged when it is no object.\<close>

definition obj_update :: "string \<Rightarrow> ((string \<times> json) list \<Rightarrow> (string \<times> json) list)
    \<Rightarrow> (string \<times> json) list \<Rightarrow> (string \<times> json) list" where
  "obj_update k f m = (case map_of m k of Some (JObj o1) \<Rightarrow> al_put k (JObj (f o1)) m | _ \<Rightarrow> m)"

lemma map_of_obj_default:
  "map_of (obj_default k v m) = (case map_of m k of Some _ \<Rightarrow> map_of m | None \<Rightarrow> (map_of m)(k \<mapsto> v))"
  by (auto simp: obj_default_def split: option.split)

lemma map_of_obj_update:
  "map_of (obj_update k f m) =
    (case map_of m k of Some (JObj o1) \<Rightarrow> (map_of m)(k \<mapsto> JObj (f o1)) | _ \<Rightarrow> map_of m)"
  by (auto simp: obj_update_def split: option.split json.split)

lemma obj_update_other: "k' \<noteq> k \<Longrightarrow> map_of (obj_update k f m) k' = map_of m k'"
  by (auto simp: obj_update_def split: option.split json.split)

end
