(* ===== verification/Routing.thy ===== *)
theory Routing
  imports RateLimit Token Cors Dependency Json
begin

text \<open>
  \<open>src/src/state.rs\<close>: the method masks, the routers and the application state with its
  snapshot. The trie of the crate \<open>matchit\<close> is an argument: a router is the list of the
  templates inserted so far with their values, and the crate decides from the templates
  alone whether one more can be inserted and which one a path matches best. A \<open>Mutex\<close>
  or an \<open>RwLock\<close> is its content: each operation here is one critical section.
\<close>

section \<open>Method masks\<close>

unbundle bit_operations_syntax

type_synonym method_mask = u8

definition mask_GET :: u8 where "mask_GET = push_bit 0 1"
definition mask_HEAD :: u8 where "mask_HEAD = push_bit 1 1"
definition mask_POST :: u8 where "mask_POST = push_bit 2 1"
definition mask_PUT :: u8 where "mask_PUT = push_bit 3 1"
definition mask_PATCH :: u8 where "mask_PATCH = push_bit 4 1"
definition mask_DELETE :: u8 where "mask_DELETE = push_bit 5 1"
definition mask_OPTIONS :: u8 where "mask_OPTIONS = push_bit 6 1"

definition mask_from_method :: "string \<Rightarrow> method_mask" where
  "mask_from_method m =
     (if m = ''GET'' then mask_GET OR mask_HEAD
      else if m = ''HEAD'' then mask_HEAD
      else if m = ''POST'' then mask_POST
      else if m = ''PUT'' then mask_PUT
      else if m = ''PATCH'' then mask_PATCH
      else if m = ''DELETE'' then mask_DELETE
      else if m = ''OPTIONS'' then mask_OPTIONS
      else 0)"

definition insert_method :: "string \<Rightarrow> method_mask \<Rightarrow> method_mask" where
  "insert_method m msk = msk OR mask_from_method m"

definition mask_order :: "(string \<times> u8) list" where
  "mask_order = [(''GET'', mask_GET), (''HEAD'', mask_HEAD), (''POST'', mask_POST), (''PUT'', mask_PUT),
     (''PATCH'', mask_PATCH), (''DELETE'', mask_DELETE), (''OPTIONS'', mask_OPTIONS)]"

definition mask_to_vec :: "method_mask \<Rightarrow> string list" where
  "mask_to_vec msk = map fst (filter (\<lambda>(name, flag). msk AND flag \<noteq> 0) mask_order)"

section \<open>Routers\<close>

type_synonym path_params = "(string \<times> string) list"

text \<open>
  \<open>mi_conflict ts t\<close>: the error of inserting the template \<open>t\<close> after \<open>ts\<close>, if any.
  \<open>mi_best ts path\<close>: the template that the path matches, with its parameters.
\<close>

record matchit =
  mi_conflict :: "string list \<Rightarrow> string \<Rightarrow> string option"
  mi_best :: "string list \<Rightarrow> string \<Rightarrow> (string \<times> path_params) option"

type_synonym 'v router = "(string \<times> 'v) list"

definition router_insert :: "matchit \<Rightarrow> string \<Rightarrow> 'v \<Rightarrow> 'v router \<Rightarrow> ('v router, string) rust" where
  "router_insert M t v r =
     (case mi_conflict M (map fst r) t of Some e \<Rightarrow> Err e | None \<Rightarrow> Ok (r @ [(t, v)]))"

definition router_at :: "matchit \<Rightarrow> string \<Rightarrow> 'v router \<Rightarrow> ('v \<times> path_params) option" where
  "router_at M path r =
     Option.bind (mi_best M (map fst r) path) (\<lambda>(t, ps). map_option (\<lambda>v. (v, ps)) (map_of r t))"

record compiled_routers =
  c_get :: "nat router"
  c_post :: "nat router"
  c_put :: "nat router"
  c_patch :: "nat router"
  c_delete :: "nat router"
  c_options :: "nat router"
  c_websocket :: "nat router"
  c_all_paths :: "method_mask router"

definition router_for_compiled :: "compiled_routers \<Rightarrow> string \<Rightarrow> nat router option" where
  "router_for_compiled c m =
     (if m = ''GET'' \<or> m = ''HEAD'' then Some (c_get c)
      else if m = ''POST'' then Some (c_post c)
      else if m = ''PUT'' then Some (c_put c)
      else if m = ''PATCH'' then Some (c_patch c)
      else if m = ''DELETE'' then Some (c_delete c)
      else if m = ''OPTIONS'' then Some (c_options c)
      else None)"

definition match_ws_route_compiled :: "matchit \<Rightarrow> compiled_routers \<Rightarrow> string \<Rightarrow> (nat \<times> path_params) option" where
  "match_ws_route_compiled M c path = router_at M path (c_websocket c)"

definition match_route_compiled ::
    "matchit \<Rightarrow> compiled_routers \<Rightarrow> string \<Rightarrow> string \<Rightarrow> (nat \<times> path_params) option option" where
  "match_route_compiled M c m path = map_option (router_at M path) (router_for_compiled c m)"

text \<open>Lines 349 to 375: the routers are asked one by one.\<close>

definition methods_by_router :: "matchit \<Rightarrow> compiled_routers \<Rightarrow> string \<Rightarrow> string list" where
  "methods_by_router M c path =
     (let is_ok = (\<lambda>r. router_at M path r \<noteq> None); have_get = is_ok (c_get c)
      in map fst (filter snd
           [(''GET'', have_get), (''HEAD'', have_get), (''POST'', is_ok (c_post c)),
            (''PUT'', is_ok (c_put c)), (''PATCH'', is_ok (c_patch c)),
            (''DELETE'', is_ok (c_delete c)), (''OPTIONS'', is_ok (c_options c))]))"

definition methods_matching_path_compiled :: "matchit \<Rightarrow> compiled_routers \<Rightarrow> string \<Rightarrow> string list" where
  "methods_matching_path_compiled M c path =
     (let v = (case router_at M path (c_all_paths c) of Some (msk, ps) \<Rightarrow> mask_to_vec msk | None \<Rightarrow> [])
      in if v \<noteq> [] then v else methods_by_router M c path)"

section \<open>The application state\<close>

record websocket_route =
  ws_handler :: pyobj
  ws_is_async :: bool
  ws_allowed_origins :: "string list option"

record 'k route_extra =
  path_template :: string
  jwt_cookie :: "string option"
  jwt_decoding_key :: "'k option"
  jwt_validation :: "validation option"
  dependencies :: "dependency_entry list"
  handler_param_names :: "string list"
  body_param_name :: string
  rate_limiter :: "limiter option"
  wildcard_params :: "string list"

record 'k route_entry =
  handler :: pyobj
  body_model :: "pyobj option"
  extra :: "'k route_extra"
  is_async :: bool
  require_jwt :: bool
  read_json_body :: bool
  read_form_body :: bool
  handler_varkw :: bool
  trivial_sync :: bool
  has_rate_limit :: bool

definition route_is_trivial_sync :: "'k route_entry \<Rightarrow> bool" where
  "route_is_trivial_sync entry = trivial_sync entry"

text \<open>An exception handler: the class, the callable and whether it is asynchronous.\<close>

type_synonym exc_handler = "string \<times> pyobj \<times> bool"

text \<open>A connection pool is a handle.\<close>

type_synonym pool = nat

record 'k frozen_state =
  f_routes :: "'k route_entry list"
  f_websocket_routes :: "websocket_route list"
  f_compiled :: "compiled_routers option"
  f_cors :: "pyobj option"
  f_compiled_cors :: "cors_config option"
  f_security_headers :: "pyobj option"
  f_compiled_security :: "security_config option"
  f_request_middleware :: "pyobj list"
  f_response_middleware :: "pyobj list"
  f_exception_handlers :: "exc_handler list"
  f_include_openapi :: bool
  f_db_pool :: "pool option"

record 'k app_state =
  routes :: "'k route_entry list"
  websocket_routes :: "websocket_route list"
  r_get :: "nat router"
  r_post :: "nat router"
  r_put :: "nat router"
  r_patch :: "nat router"
  r_delete :: "nat router"
  r_options :: "nat router"
  r_websocket :: "nat router"
  openapi :: "json \<times> string option"
  compiled :: "compiled_routers option"
  frozen :: bool
  include_openapi :: bool
  request_middleware :: "pyobj list"
  response_middleware :: "pyobj list"
  exception_handlers :: "exc_handler list"
  cors :: "pyobj option"
  compiled_cors :: "cors_config option"
  security_headers :: "pyobj option"
  compiled_security :: "security_config option"
  db_pool :: "pool option"
  path_method_masks :: "(string \<times> method_mask) list"
  snapshot :: "'k frozen_state"
  in_flight :: u64
  max_concurrency :: u64
  active_websockets :: "(u64 \<times> nat) list"
  next_ws_id :: u64

definition openapi_start :: json where
  "openapi_start = JObj [(''openapi'', JStr ''3.1.0''),
     (''info'', JObj [(''title'', JStr ''OxyRoute''), (''version'', JStr ''0.7.0'')]),
     (''paths'', JObj [])]"

definition app_state_new :: "'k app_state" where
  "app_state_new =
     \<lparr>routes = [], websocket_routes = [], r_get = [], r_post = [], r_put = [], r_patch = [], r_delete = [],
      r_options = [], r_websocket = [], openapi = (openapi_start, None), compiled = None, frozen = False,
      include_openapi = True, request_middleware = [], response_middleware = [], exception_handlers = [],
      cors = None, compiled_cors = None, security_headers = None, compiled_security = None,
      db_pool = None, path_method_masks = [],
      snapshot = \<lparr>f_routes = [], f_websocket_routes = [], f_compiled = None, f_cors = None,
        f_compiled_cors = None, f_security_headers = None, f_compiled_security = None,
        f_request_middleware = [], f_response_middleware = [], f_exception_handlers = [],
        f_include_openapi = True, f_db_pool = None\<rparr>,
      in_flight = 0, max_concurrency = 0, active_websockets = [], next_ws_id = 1\<rparr>"

definition frozen_view :: "'k app_state \<Rightarrow> 'k frozen_state" where
  "frozen_view st =
     \<lparr>f_routes = routes st, f_websocket_routes = websocket_routes st, f_compiled = compiled st,
      f_cors = cors st, f_compiled_cors = compiled_cors st, f_security_headers = security_headers st,
      f_compiled_security = compiled_security st, f_request_middleware = request_middleware st,
      f_response_middleware = response_middleware st, f_exception_handlers = exception_handlers st,
      f_include_openapi = include_openapi st, f_db_pool = db_pool st\<rparr>"

definition rebuild_snapshot :: "'k app_state \<Rightarrow> 'k app_state" where
  "rebuild_snapshot st = st\<lparr>snapshot := frozen_view st\<rparr>"

definition hot_snapshot :: "'k app_state \<Rightarrow> 'k frozen_state" where
  "hot_snapshot st = snapshot st"

text \<open>
  All templates of all methods go into one router, in the iteration order of the map;
  \<open>expect\<close> turns a conflict between them into a panic.
\<close>

fun insert_all_paths :: "matchit \<Rightarrow> (string \<times> method_mask) list \<Rightarrow> method_mask router
    \<Rightarrow> (method_mask router, string) rust" where
  "insert_all_paths M [] r = Ok r"
| "insert_all_paths M ((path, msk) # masks) r =
     (case router_insert M path msk r of
        Ok r' \<Rightarrow> insert_all_paths M masks r'
      | _ \<Rightarrow> Panic ''snapshot all_paths'')"

definition snapshot_routers :: "matchit \<Rightarrow> 'k app_state \<Rightarrow> (compiled_routers, string) rust" where
  "snapshot_routers M st =
     rbind (insert_all_paths M (path_method_masks st) []) (\<lambda>all_paths.
       Ok \<lparr>c_get = r_get st, c_post = r_post st, c_put = r_put st, c_patch = r_patch st,
           c_delete = r_delete st, c_options = r_options st, c_websocket = r_websocket st,
           c_all_paths = all_paths\<rparr>)"

text \<open>The router of a method, to read and to write.\<close>

definition map_method_router :: "'k app_state \<Rightarrow> string \<Rightarrow> nat router option" where
  "map_method_router st m =
     (if m = ''GET'' \<or> m = ''HEAD'' then Some (r_get st)
      else if m = ''POST'' then Some (r_post st)
      else if m = ''PUT'' then Some (r_put st)
      else if m = ''PATCH'' then Some (r_patch st)
      else if m = ''DELETE'' then Some (r_delete st)
      else if m = ''OPTIONS'' then Some (r_options st)
      else None)"

definition set_method_router :: "string \<Rightarrow> nat router \<Rightarrow> 'k app_state \<Rightarrow> 'k app_state" where
  "set_method_router m r st =
     (if m = ''GET'' \<or> m = ''HEAD'' then st\<lparr>r_get := r\<rparr>
      else if m = ''POST'' then st\<lparr>r_post := r\<rparr>
      else if m = ''PUT'' then st\<lparr>r_put := r\<rparr>
      else if m = ''PATCH'' then st\<lparr>r_patch := r\<rparr>
      else if m = ''DELETE'' then st\<lparr>r_delete := r\<rparr>
      else if m = ''OPTIONS'' then st\<lparr>r_options := r\<rparr>
      else st)"

end
