(* ===== verification/OpenApi.thy ===== *)
theory OpenApi
  imports Routing
begin

text \<open>
  The OpenAPI document that \<open>src/src/lib.rs\<close> maintains: the scan of route templates for
  parameter names, the entry that each route adds, the setters and the cached text. The
  crate \<open>serde_json\<close> parses and prints; both functions are arguments, and so is Unicode
  lowercasing.
\<close>

section \<open>Parameter names of a template\<close>

definition is_ident_char :: "char \<Rightarrow> bool" where
  "is_ident_char c \<longleftrightarrow> is_ascii_alphanumeric c \<or> c = CHR ''_''"

function scan_names :: "(char \<Rightarrow> bool) \<Rightarrow> string \<Rightarrow> string list" where
  "scan_names marker [] = []"
| "scan_names marker (c # cs) =
     (if marker c
      then (let name = takeWhile is_ident_char cs; names = scan_names marker (dropWhile is_ident_char cs)
            in if name = [] then names else name # names)
      else scan_names marker cs)"
  by pat_completeness auto
termination
  by (relation "measure (\<lambda>(m, s). length s)") (auto simp: less_Suc_eq_le length_dropWhile_le)

definition dedup :: "string list \<Rightarrow> string list" where
  "dedup xs = fold set_add xs []"

definition wildcard_param_names :: "string \<Rightarrow> string list" where
  "wildcard_param_names path = dedup (scan_names (\<lambda>c. c = CHR ''*'') path)"

definition is_param_marker :: "char \<Rightarrow> bool" where
  "is_param_marker c \<longleftrightarrow> c = CHR '':'' \<or> c = CHR ''*''"

text \<open>
  The names that the registration compares with the handler's. The dispatcher takes a
  request's parameters from the router instead, whose names run to the next slash.
\<close>

definition all_path_param_names :: "string \<Rightarrow> string list" where
  "all_path_param_names path = dedup (scan_names is_param_marker path)"

definition path_param_object :: "string \<Rightarrow> json" where
  "path_param_object name =
     JObj [(''name'', JStr name), (''in'', JStr ''path''), (''required'', JBool True),
           (''schema'', JObj [(''type'', JStr ''string'')])]"

function openapi_path_and_params :: "string \<Rightarrow> string \<times> json list" where
  "openapi_path_and_params [] = ([], [])"
| "openapi_path_and_params (c # cs) =
     (if is_param_marker c
      then (let name = takeWhile is_ident_char cs;
                (out, params) = openapi_path_and_params (dropWhile is_ident_char cs)
            in if name = [] then (out, params)
               else (CHR ''{'' # name @ [CHR ''}''] @ out, path_param_object name # params))
      else (let (out, params) = openapi_path_and_params cs in (c # out, params)))"
  by pat_completeness auto
termination
  by (relation "measure length") (auto simp: less_Suc_eq_le length_dropWhile_le)

section \<open>The document\<close>

record json_lib =
  json_from_str :: "string \<Rightarrow> (json, string) rust"
  json_to_string :: "json \<Rightarrow> string"
  json_not_array :: string
  str_to_lowercase :: "string \<Rightarrow> string"

definition bearer_scheme :: json where
  "bearer_scheme =
     JObj [(''type'', JStr ''http''), (''scheme'', JStr ''bearer''), (''bearerFormat'', JStr ''JWT'')]"

definition openapi_ensure_bearer_auth :: "json \<Rightarrow> json" where
  "openapi_ensure_bearer_auth oa =
     (case oa of
        JObj rt \<Rightarrow>
          JObj (obj_update ''components''
            (\<lambda>comp. obj_update ''securitySchemes'' (obj_default ''bearerAuth'' bearer_scheme)
               (obj_default ''securitySchemes'' (JObj []) comp))
            (obj_default ''components'' (JObj []) rt))
      | _ \<Rightarrow> oa)"

definition openapi_operation ::
    "string \<Rightarrow> json option \<Rightarrow> bool \<Rightarrow> string list option \<Rightarrow> json list \<Rightarrow> json" where
  "openapi_operation op_id request_schema jwt tags path_params =
     (let responses =
            [(''200'', JObj [(''description'', JStr ''OK'')])]
            @ (if jwt then [(''401'', JObj [(''description'', JStr ''Unauthorized'')])] else [])
            @ (if request_schema \<noteq> None
               then [(''422'', JObj [(''description'', JStr ''Validation Error'')])] else []);
          body = (case request_schema of
              Some schema \<Rightarrow>
                [(''requestBody'', JObj [(''required'', JBool True),
                   (''content'', JObj [(''application/json'', JObj [(''schema'', schema)])])])]
            | None \<Rightarrow> [])
      in JObj ([(''summary'', JStr op_id), (''operationId'', JStr op_id)] @ body
           @ [(''responses'', JObj responses)]
           @ (if path_params \<noteq> [] then [(''parameters'', JArr path_params)] else [])
           @ (if jwt then [(''security'', JArr [JObj [(''bearerAuth'', JArr [])]])] else [])
           @ (case tags of
                Some t \<Rightarrow> if t \<noteq> [] then [(''tags'', JArr (map JStr t))] else []
              | None \<Rightarrow> [])))"

definition openapi_add_path ::
    "json_lib \<Rightarrow> string \<Rightarrow> string \<Rightarrow> string \<Rightarrow> json option \<Rightarrow> bool \<Rightarrow> string list option \<Rightarrow> json list option
     \<Rightarrow> json \<Rightarrow> json" where
  "openapi_add_path J method path op_id request_schema jwt tags extra_parameters oa =
     (let (oa_path, path_params) = openapi_path_and_params path;
          params = path_params @ (case extra_parameters of Some e \<Rightarrow> e | None \<Rightarrow> []);
          oa1 = (if jwt then openapi_ensure_bearer_auth oa else oa)
      in case oa1 of
           JObj rt \<Rightarrow>
             JObj (obj_update ''paths''
               (\<lambda>paths. obj_update oa_path
                  (al_put (str_to_lowercase J method) (openapi_operation op_id request_schema jwt tags params))
                  (obj_default oa_path (JObj []) paths))
               rt)
         | _ \<Rightarrow> oa1)"

type_synonym openapi_doc = "json \<times> string option"

definition set_title :: "string \<Rightarrow> openapi_doc \<Rightarrow> openapi_doc" where
  "set_title title oa =
     (case fst oa of
        JObj rt \<Rightarrow>
          (case map_of rt ''info'' of
             Some (JObj info) \<Rightarrow>
               (JObj (obj_update ''info'' (al_put ''title'' (JStr title)) rt), None)
           | _ \<Rightarrow> oa)
      | _ \<Rightarrow> oa)"

definition set_version :: "string \<Rightarrow> openapi_doc \<Rightarrow> openapi_doc" where
  "set_version version oa =
     (case fst oa of
        JObj rt \<Rightarrow> (JObj (al_put ''openapi'' (JStr version) rt), None)
      | _ \<Rightarrow> oa)"

text \<open>
  The three parts are applied in order; the first part that does not parse returns with
  the earlier ones applied and the cached text as it was.
\<close>

definition info_put :: "string \<Rightarrow> json \<Rightarrow> json \<Rightarrow> json" where
  "info_put k v doc =
     (case doc of JObj rt \<Rightarrow> JObj (obj_update ''info'' (al_put k v) rt) | _ \<Rightarrow> doc)"

definition root_put :: "string \<Rightarrow> json \<Rightarrow> json \<Rightarrow> json" where
  "root_put k v doc = (case doc of JObj rt \<Rightarrow> JObj (al_put k v rt) | _ \<Rightarrow> doc)"

definition set_info ::
    "json_lib \<Rightarrow> string option \<Rightarrow> string option \<Rightarrow> string option \<Rightarrow> openapi_doc \<Rightarrow> openapi_doc \<times> unit pyres" where
  "set_info J description contact_json servers_json oa =
     (if as_object (fst oa) = None then (oa, Ok ())
      else
        (let doc1 = (case description of Some d \<Rightarrow> info_put ''description'' (JStr d) (fst oa) | None \<Rightarrow> fst oa)
         in case (case contact_json of
                    None \<Rightarrow> Ok doc1
                  | Some raw \<Rightarrow> rbind (json_from_str J raw) (\<lambda>contact. Ok (info_put ''contact'' contact doc1))) of
              Err e \<Rightarrow> ((doc1, snd oa), value_error (''invalid contact JSON: '' @ e))
            | Panic m \<Rightarrow> ((doc1, snd oa), Panic m)
            | Ok doc2 \<Rightarrow>
               (case (case servers_json of
                        None \<Rightarrow> Ok doc2
                      | Some raw \<Rightarrow> rbind (json_from_str J raw) (\<lambda>servers. Ok (root_put ''servers'' servers doc2))) of
                  Err e \<Rightarrow> ((doc2, snd oa), value_error (''invalid servers JSON: '' @ e))
                | Panic m \<Rightarrow> ((doc2, snd oa), Panic m)
                | Ok doc3 \<Rightarrow> ((doc3, None), Ok ()))))"

definition openapi_json :: "json_lib \<Rightarrow> openapi_doc \<Rightarrow> string \<times> openapi_doc" where
  "openapi_json J oa =
     (case snd oa of
        Some s \<Rightarrow> (s, oa)
      | None \<Rightarrow> (json_to_string J (fst oa), (fst oa, Some (json_to_string J (fst oa)))))"

section \<open>Facts\<close>

lemma set_fold_set_add: "set (fold set_add xs acc) = set xs \<union> set acc"
  by (induction xs arbitrary: acc) auto

lemma distinct_fold_set_add: "distinct acc \<Longrightarrow> distinct (fold set_add xs acc)"
  by (induction xs arbitrary: acc) auto

lemma set_dedup [simp]: "set (dedup xs) = set xs"
  by (simp add: dedup_def set_fold_set_add)

lemma distinct_dedup [simp]: "distinct (dedup xs)"
  by (simp add: dedup_def distinct_fold_set_add)

text \<open>The document lists the names that the scanner of the registration finds, in order.\<close>

lemma params_scan: "snd (openapi_path_and_params s) = map path_param_object (scan_names is_param_marker s)"
  by (induction s rule: openapi_path_and_params.induct)
    (auto simp: Let_def split: prod.splits if_splits)

lemma markers_not_ident: "is_param_marker c \<Longrightarrow> \<not> is_ident_char c"
  by (auto simp: is_param_marker_def is_ident_char_def is_ascii_alphanumeric_def is_ascii_digit_def
      is_ascii_uppercase_def)

lemma scan_skip_ident:
  "(\<And>c. marker c \<Longrightarrow> \<not> is_ident_char c) \<Longrightarrow> scan_names marker s = scan_names marker (dropWhile is_ident_char s)"
  by (induction s) auto

lemma wildcard_subset: "set (wildcard_param_names path) \<subseteq> set (all_path_param_names path)"
proof -
  have star: "c = CHR ''*'' \<Longrightarrow> \<not> is_ident_char c" for c
    by (rule markers_not_ident) (simp add: is_param_marker_def)
  have "set (scan_names (\<lambda>c. c = CHR ''*'') s) \<subseteq> set (scan_names is_param_marker s)" for s
  proof (induction is_param_marker s rule: scan_names.induct)
    case (2 c cs)
    then show ?case
      using scan_skip_ident [of "\<lambda>c. c = CHR ''*''" cs, OF star]
      by (auto simp: is_param_marker_def Let_def split: if_splits)
  qed simp
  then show ?thesis by (simp add: wildcard_param_names_def all_path_param_names_def)
qed

section \<open>The cached text\<close>

text \<open>What the cache is for: the text, when there is one, prints the current document.\<close>

definition cache_ok :: "json_lib \<Rightarrow> openapi_doc \<Rightarrow> bool" where
  "cache_ok J oa \<longleftrightarrow> (\<forall>s. snd oa = Some s \<longrightarrow> s = json_to_string J (fst oa))"

lemma cache_ok_None [simp]: "cache_ok J (doc, None)"
  by (simp add: cache_ok_def)

lemma cache_ok_openapi_json: "cache_ok J oa \<Longrightarrow> cache_ok J (snd (openapi_json J oa))"
  by (auto simp: cache_ok_def openapi_json_def split: option.splits)

lemma cache_ok_set_title: "cache_ok J oa \<Longrightarrow> cache_ok J (set_title title oa)"
  by (auto simp: set_title_def split: json.splits option.splits)

lemma cache_ok_set_version: "cache_ok J oa \<Longrightarrow> cache_ok J (set_version v oa)"
  by (auto simp: set_version_def split: json.splits)

lemma cache_ok_set_info:
  "cache_ok J oa \<Longrightarrow> snd (set_info J d c s oa) = Ok () \<Longrightarrow> cache_ok J (fst (set_info J d c s oa))"
  by (auto simp: set_info_def Let_def split: if_splits option.splits rust.splits)

text \<open>
  Serving the document: the text is the current document printed, as long as no
  \<open>set_openapi_info\<close> has failed; serving it twice gives the same text.
\<close>

theorem openapi_served_current:
  assumes "cache_ok J oa"
  shows "fst (openapi_json J oa) = json_to_string J (fst oa)
    \<and> openapi_json J (snd (openapi_json J oa)) = (fst (openapi_json J oa), snd (openapi_json J oa))"
  using assms by (auto simp: openapi_json_def cache_ok_def split: option.splits)

text \<open>
  A failed \<open>set_openapi_info\<close> leaves a stale text: once the document has been served,
  a call whose description is good and whose contact is not JSON raises, has nevertheless
  written the description into the document, and the next request is served the old text.
\<close>

theorem failed_set_info_stale:
  assumes "json_from_str J bad = Err e"
  shows "let served = snd (openapi_json J (openapi_start, None));
             (oa, res) = set_info J (Some d) (Some bad) None served
         in res = value_error (''invalid contact JSON: '' @ e)
          \<and> fst oa = info_put ''description'' (JStr d) openapi_start
          \<and> fst oa \<noteq> openapi_start
          \<and> fst (openapi_json J oa) = json_to_string J openapi_start"
  by (simp add: assms openapi_json_def set_info_def openapi_start_def info_put_def obj_update_def)

section \<open>Concrete inputs\<close>

definition sample_json :: json_lib where
  "sample_json = \<lparr>json_from_str = (\<lambda>s. if s = ''{}'' then Ok (JObj []) else Err ''bad''),
     json_to_string = (\<lambda>j. ''doc''), json_not_array = ''not an array'', str_to_lowercase = to_ascii_lowercase\<rparr>"

theorem openapi_served_current_witness:
  "fst (openapi_json sample_json (openapi_start, None)) = ''doc''"
  using openapi_served_current [of sample_json "(openapi_start, None)"] by (simp add: sample_json_def)

theorem failed_set_info_stale_witness:
  "snd (set_info sample_json (Some ''d'') (Some ''x'') None (snd (openapi_json sample_json (openapi_start, None))))
    \<noteq> Ok ()"
  using failed_set_info_stale [of sample_json "''x''" "''bad''" "''d''"]
  by (auto simp: sample_json_def Let_def split: prod.splits)

end
