(* ===== verification/App.thy ===== *)
theory App
  imports OpenApi
begin

text \<open>
  The class \<open>App\<close> of \<open>src/src/lib.rs\<close>: route registration, the setters, \<open>freeze\<close> and the
  compilation of the routers on first use. An operation returns the state and its result:
  some of them raise after they have changed the state. What Python answers about a
  callable (\<open>inspect\<close>) and the third-party crates are arguments.
\<close>

section \<open>Callables\<close>

datatype param_kind = PositionalOnly | PositionalOrKeyword | VarPositional | KeywordOnly | VarKeyword

record ('k, 'c) libs =
  lib_matchit :: matchit
  lib_json :: json_lib
  lib_jwt :: "('k, 'c) jwt_lib"
  alg_from_str :: "string \<Rightarrow> algorithm option"
  iscoroutinefunction :: "pyobj \<Rightarrow> bool pyres"
  inspect_signature :: "pyobj \<Rightarrow> (string \<times> param_kind) list pyres"
  callable_name :: "pyobj \<Rightarrow> string pyres"

definition handler_signature_kinds :: "('k, 'c) libs \<Rightarrow> pyobj \<Rightarrow> (string list \<times> bool) pyres" where
  "handler_signature_kinds B f =
     rbind (inspect_signature B f) (\<lambda>ps.
       Ok (dedup (map fst (filter (\<lambda>(n, k). k = PositionalOrKeyword \<or> k = KeywordOnly) ps)),
           list_ex (\<lambda>(n, k). k = VarKeyword) ps))"

definition dependency_wants_request :: "('k, 'c) libs \<Rightarrow> pyobj \<Rightarrow> bool pyres" where
  "dependency_wants_request B f =
     rbind (inspect_signature B f) (\<lambda>ps. Ok (list_ex (\<lambda>(n, k). n = ''request'') ps))"

fun parse_dependencies :: "('k, 'c) libs \<Rightarrow> string list \<Rightarrow> pyobj list \<Rightarrow> dependency_entry list pyres" where
  "parse_dependencies B names [] = Ok []"
| "parse_dependencies B names (it # items) =
     (case it of
        PyTuple tup \<Rightarrow>
          (case tup of
             [n, f] \<Rightarrow>
               (case extract_string n of
                  None \<Rightarrow> type_error ''expected str''
                | Some name \<Rightarrow>
                    if name \<in> set names then value_error ''duplicate dependency name''
                    else rbind (iscoroutinefunction B f) (\<lambda>coro.
                      rbind (dependency_wants_request B f) (\<lambda>wants.
                      rbind (handler_signature_kinds B f) (\<lambda>(ps, kw).
                      rbind (parse_dependencies B (name # names) items) (\<lambda>rest.
                        Ok (\<lparr>de_name = name, de_factory = f, de_is_async = coro, de_wants_request = wants,
                             de_params = ps, de_varkw = kw\<rparr> # rest))))))
           | _ \<Rightarrow> value_error ''each dependency must be (name, callable)'')
      | _ \<Rightarrow> type_error ''expected tuple'')"

section \<open>Registration of a route\<close>

record route_args =
  ra_method :: string
  ra_path :: string
  ra_handler :: pyobj
  ra_require_jwt :: bool
  ra_jwt_secret :: "string option"
  ra_algorithms :: "pyobj list option"
  ra_read_json_body :: bool
  ra_read_form_body :: bool
  ra_dependencies :: "pyobj list option"
  ra_jwt_issuer :: "string option"
  ra_jwt_audience :: "string option"
  ra_jwt_leeway :: "u64 option"
  ra_jwt_cookie :: "string option"
  ra_body_schema_json :: "string option"
  ra_body_model :: "pyobj option"
  ra_tags :: "pyobj list option"
  ra_body_param_name :: "string option"
  ra_extra_params_json :: "string option"
  ra_rate_limit :: "string option"
  ra_rate_limit_key :: "string option"

fun parse_algorithms :: "('k, 'c) libs \<Rightarrow> pyobj list \<Rightarrow> algorithm list pyres" where
  "parse_algorithms B [] = Ok []"
| "parse_algorithms B (item # items) =
     (case extract_string item of
        None \<Rightarrow> type_error ''expected str''
      | Some s \<Rightarrow>
          (case alg_from_str B s of
             None \<Rightarrow> value_error ''unknown JWT algorithm (see jsonwebtoken: HS* / RS* / PS* / ES* / EdDSA)''
           | Some a \<Rightarrow> rbind (parse_algorithms B items) (\<lambda>as. Ok (a # as))))"

definition route_algorithms :: "('k, 'c) libs \<Rightarrow> pyobj list option \<Rightarrow> algorithm list pyres" where
  "route_algorithms B l =
     rbind (case l of Some items \<Rightarrow> parse_algorithms B items | None \<Rightarrow> Ok [HS256])
       (\<lambda>algs. Ok (if algs = [] then [HS256] else algs))"

definition jwt_secret_missing :: string where
  "jwt_secret_missing =
     ''require_jwt needs jwt_secret (HMAC shared secret, or public key PEM for RS*/PS*/ES*/EdDSA)''"

definition route_jwt :: "('k, 'c) libs \<Rightarrow> route_args \<Rightarrow> algorithm list \<Rightarrow> ('k option \<times> validation option) pyres" where
  "route_jwt B a algs =
     (if ra_require_jwt a
      then (case ra_jwt_secret a of
              None \<Rightarrow> value_error jwt_secret_missing
            | Some k \<Rightarrow>
               (case build_route_jwt_state (lib_jwt B) k algs (ra_jwt_issuer a) (ra_jwt_audience a)
                       (case ra_jwt_leeway a of Some l \<Rightarrow> l | None \<Rightarrow> 60) of
                  Ok (dk, v) \<Rightarrow> Ok (Some dk, Some v)
                | Err e \<Rightarrow> value_error (''jwt_secret and algorithms are incompatible: ''
                    @ jwt_error_text (lib_jwt B) e)
                | Panic m \<Rightarrow> Panic m))
      else Ok (None, None))"

fun take_entries :: "string list \<Rightarrow> (string \<times> dependency_entry) list \<Rightarrow> dependency_entry list" where
  "take_entries [] m = []"
| "take_entries (n # ns) m =
     (case map_of m n of Some e \<Rightarrow> e # take_entries ns (al_del n m) | None \<Rightarrow> take_entries ns m)"

definition order_dependencies :: "dependency_entry list \<Rightarrow> dependency_entry list pyres" where
  "order_dependencies deps =
     (if deps = [] then Ok []
      else (case topological_sort (build_graph_from_entries deps) of
              Ok order \<Rightarrow> Ok (take_entries order (fold (\<lambda>d. al_put (de_name d) d) deps []))
            | Err e \<Rightarrow> value_error (''dependency cycle detected: '' @ e)
            | Panic m \<Rightarrow> Panic m))"

definition route_limiter :: "route_args \<Rightarrow> limiter option pyres" where
  "route_limiter a =
     (case ra_rate_limit a of
        None \<Rightarrow> Ok None
      | Some s \<Rightarrow>
          (case rl_parse s (ra_rate_limit_key a) of
             Ok cfg \<Rightarrow> Ok (Some (limiter_new cfg))
           | Err e \<Rightarrow> value_error e
           | Panic m \<Rightarrow> Panic m))"

definition reserved_names :: "string list" where
  "reserved_names = [''query'', ''request'', ''scope'', ''proto'', ''protocol'', ''body'', ''form'', ''files'', ''claims'']"

text \<open>Lines 432 to 556: everything that is computed before the routes are touched.\<close>

definition build_entry :: "('k, 'c) libs \<Rightarrow> route_args \<Rightarrow> ('k route_entry \<times> string) pyres" where
  "build_entry B a =
     rbind (iscoroutinefunction B (ra_handler a)) (\<lambda>coro.
     rbind (route_algorithms B (ra_algorithms a)) (\<lambda>algs.
     if ra_read_json_body a \<and> ra_read_form_body a
     then value_error ''read_json_body and read_form_body are mutually exclusive''
     else if ra_require_jwt a \<and> ra_jwt_secret a = None then value_error jwt_secret_missing
     else
     rbind (route_jwt B a algs) (\<lambda>(dk, v).
     rbind (case ra_dependencies a of Some d \<Rightarrow> parse_dependencies B [] d | None \<Rightarrow> Ok []) (\<lambda>deps0.
     rbind (order_dependencies deps0) (\<lambda>deps.
     rbind (route_limiter a) (\<lambda>lim.
     rbind (callable_name B (ra_handler a)) (\<lambda>op_id.
     rbind (handler_signature_kinds B (ra_handler a)) (\<lambda>(names, varkw).
       let has_rl = (lim \<noteq> None);
           has_reserved = list_ex (\<lambda>n. n \<in> set reserved_names) names;
           compatible = (\<not> varkw \<and> \<not> has_reserved
             \<and> set names = set (all_path_param_names (ra_path a)));
           trivial = (\<not> coro \<and> \<not> ra_require_jwt a \<and> \<not> ra_read_json_body a \<and> \<not> ra_read_form_body a
             \<and> deps = [] \<and> compatible \<and> \<not> has_rl)
       in Ok (\<lparr>handler = ra_handler a, body_model = ra_body_model a,
               extra = \<lparr>path_template = ra_path a, jwt_cookie = ra_jwt_cookie a, jwt_decoding_key = dk,
                 jwt_validation = v, dependencies = deps, handler_param_names = names,
                 body_param_name = (case ra_body_param_name a of Some n \<Rightarrow> n | None \<Rightarrow> ''json''),
                 rate_limiter = lim, wildcard_params = wildcard_param_names (ra_path a)\<rparr>,
               is_async = coro, require_jwt = ra_require_jwt a, read_json_body = ra_read_json_body a,
               read_form_body = ra_read_form_body a, handler_varkw = varkw, trivial_sync = trivial,
               has_rate_limit = has_rl\<rparr>, op_id)))))))))"

definition parse_json_arg :: "json_lib \<Rightarrow> string \<Rightarrow> string option \<Rightarrow> json option pyres" where
  "parse_json_arg J what arg =
     (case map_option trim arg of
        None \<Rightarrow> Ok None
      | Some s \<Rightarrow>
          if s = [] then Ok None
          else (case json_from_str J s of
                  Ok v \<Rightarrow> Ok (Some v)
                | Err e \<Rightarrow> value_error (''invalid '' @ what @ '' JSON: '' @ e)
                | Panic m \<Rightarrow> Panic m))"

text \<open>The extra parameters deserialize as an array; any other value is an error of the parse.\<close>

definition parse_extra_params :: "json_lib \<Rightarrow> string option \<Rightarrow> json list option pyres" where
  "parse_extra_params J arg =
     rbind (parse_json_arg J ''extra_params'' arg) (\<lambda>v.
       case v of
         None \<Rightarrow> Ok None
       | Some (JArr xs) \<Rightarrow> Ok (Some xs)
       | Some _ \<Rightarrow> value_error (''invalid extra_params JSON: '' @ json_not_array J))"

definition parse_tags :: "pyobj list option \<Rightarrow> string list option pyres" where
  "parse_tags tags =
     (case tags of
        None \<Rightarrow> Ok None
      | Some l \<Rightarrow> (case extract_all extract_string l of
                     Some ts \<Rightarrow> Ok (Some ts) | None \<Rightarrow> type_error ''expected str''))"

definition insert_route ::
    "('k, 'c) libs \<Rightarrow> string \<Rightarrow> string \<Rightarrow> nat \<Rightarrow> 'k app_state \<Rightarrow> 'k app_state \<times> unit pyres" where
  "insert_route B method path idx st =
     (case map_method_router st method of
        None \<Rightarrow> (st, value_error ''unsupported HTTP method'')
      | Some r \<Rightarrow>
         (case router_insert (lib_matchit B) path idx r of
            Err e \<Rightarrow> (st, value_error e)
          | Panic m \<Rightarrow> (st, Panic m)
          | Ok r' \<Rightarrow>
              (let st1 = set_method_router method r' st;
                   old = (case map_of (path_method_masks st1) path of Some msk \<Rightarrow> msk | None \<Rightarrow> 0);
                   st2 = st1\<lparr>path_method_masks := al_put path (insert_method method old) (path_method_masks st1)\<rparr>
               in (rebuild_snapshot (st2\<lparr>compiled := None\<rparr>), Ok ()))))"

text \<open>
  \<open>App::add_route\<close>. The route is pushed before its JSON arguments are parsed and before
  the method and the template are checked: the errors after that return the state with the
  route in it, and the last two with the document changed as well.
\<close>

definition add_route :: "('k, 'c) libs \<Rightarrow> route_args \<Rightarrow> 'k app_state \<Rightarrow> 'k app_state \<times> unit pyres" where
  "add_route B a st =
     (if frozen st then (st, value_error ''app is frozen; no more add_route'')
      else (case build_entry B a of
          Err e \<Rightarrow> (st, Err e)
        | Panic m \<Rightarrow> (st, Panic m)
        | Ok (entry, op_id) \<Rightarrow>
           (let st1 = st\<lparr>routes := routes st @ [entry]\<rparr>
            in case rbind (parse_json_arg (lib_json B) ''body_schema'' (ra_body_schema_json a)) (\<lambda>schema.
                    rbind (parse_tags (ra_tags a)) (\<lambda>tags.
                    rbind (parse_extra_params (lib_json B) (ra_extra_params_json a)) (\<lambda>ps.
                      Ok (schema, tags, ps)))) of
                 Err e \<Rightarrow> (st1, Err e)
               | Panic m \<Rightarrow> (st1, Panic m)
               | Ok (schema, tags, ps) \<Rightarrow>
                  insert_route B (ra_method a) (ra_path a) (length (routes st))
                    (st1\<lparr>openapi := (openapi_add_path (lib_json B) (ra_method a) (ra_path a) op_id schema
                       (ra_require_jwt a) tags ps (fst (openapi st)), None)\<rparr>))))"

definition add_websocket_route ::
    "('k, 'c) libs \<Rightarrow> string \<Rightarrow> pyobj \<Rightarrow> string list option \<Rightarrow> 'k app_state \<Rightarrow> 'k app_state \<times> unit pyres" where
  "add_websocket_route B path h origins st =
     (if frozen st then (st, value_error ''app is frozen; no more add_websocket_route'')
      else (case iscoroutinefunction B h of
          Err e \<Rightarrow> (st, Err e)
        | Panic m \<Rightarrow> (st, Panic m)
        | Ok coro \<Rightarrow>
           (let idx = length (websocket_routes st);
                st1 = st\<lparr>websocket_routes := websocket_routes st
                   @ [\<lparr>ws_handler = h, ws_is_async = coro, ws_allowed_origins = origins\<rparr>]\<rparr>
            in case router_insert (lib_matchit B) path idx (r_websocket st1) of
                 Err e \<Rightarrow> (st1, value_error e)
               | Panic m \<Rightarrow> (st1, Panic m)
               | Ok r \<Rightarrow> (rebuild_snapshot (st1\<lparr>r_websocket := r, compiled := None\<rparr>), Ok ()))))"

section \<open>Freezing and compiling\<close>

definition freeze :: "('k, 'c) libs \<Rightarrow> 'k app_state \<Rightarrow> 'k app_state \<times> unit pyres" where
  "freeze B st =
     (let st1 = st\<lparr>frozen := True\<rparr>
      in case compiled st1 of
           Some c \<Rightarrow> (rebuild_snapshot st1, Ok ())
         | None \<Rightarrow>
            (case snapshot_routers (lib_matchit B) st1 of
               Ok c \<Rightarrow> (rebuild_snapshot (st1\<lparr>compiled := Some c\<rparr>), Ok ())
             | Err e \<Rightarrow> (st1, runtime_error e)
             | Panic m \<Rightarrow> (st1, Panic m)))"

text \<open>\<open>dispatch::ensure_compiled_snapshot\<close>\<close>

definition ensure_compiled_snapshot ::
    "('k, 'c) libs \<Rightarrow> 'k app_state \<Rightarrow> 'k app_state \<times> (compiled_routers, string) rust" where
  "ensure_compiled_snapshot B st =
     (case compiled st of
        Some c \<Rightarrow> (st, Ok c)
      | None \<Rightarrow>
         (case snapshot_routers (lib_matchit B) st of
            Ok c \<Rightarrow> (rebuild_snapshot (st\<lparr>compiled := Some c\<rparr>), Ok c)
          | Err e \<Rightarrow> (st, Err e)
          | Panic m \<Rightarrow> (st, Panic m)))"

section \<open>Setters\<close>

definition set_openapi_served :: "bool \<Rightarrow> 'k app_state \<Rightarrow> 'k app_state" where
  "set_openapi_served enabled st = rebuild_snapshot (st\<lparr>include_openapi := enabled\<rparr>)"

definition set_openapi_title :: "string \<Rightarrow> 'k app_state \<Rightarrow> 'k app_state" where
  "set_openapi_title title st = st\<lparr>openapi := set_title title (openapi st)\<rparr>"

definition set_openapi_version :: "string \<Rightarrow> 'k app_state \<Rightarrow> 'k app_state" where
  "set_openapi_version version st = st\<lparr>openapi := set_version version (openapi st)\<rparr>"

definition set_openapi_info ::
    "json_lib \<Rightarrow> string option \<Rightarrow> string option \<Rightarrow> string option \<Rightarrow> 'k app_state \<Rightarrow> 'k app_state \<times> unit pyres" where
  "set_openapi_info J d c s st =
     (let (oa, res) = set_info J d c s (openapi st) in (st\<lparr>openapi := oa\<rparr>, res))"

definition app_openapi_json :: "json_lib \<Rightarrow> 'k app_state \<Rightarrow> string \<times> 'k app_state" where
  "app_openapi_json J st = (let (s, oa) = openapi_json J (openapi st) in (s, st\<lparr>openapi := oa\<rparr>))"

definition add_exception_handler :: "('k, 'c) libs \<Rightarrow> string \<Rightarrow> pyobj \<Rightarrow> 'k app_state \<Rightarrow> 'k app_state" where
  "add_exception_handler B exc_type h st =
     (let coro = (case iscoroutinefunction B h of Ok b \<Rightarrow> b | _ \<Rightarrow> False)
      in rebuild_snapshot (st\<lparr>exception_handlers := exception_handlers st @ [(exc_type, h, coro)]\<rparr>))"

definition set_middleware :: "pyobj option \<Rightarrow> 'k app_state \<Rightarrow> 'k app_state" where
  "set_middleware h st =
     rebuild_snapshot (st\<lparr>request_middleware := (case h of Some m \<Rightarrow> [m] | None \<Rightarrow> [])\<rparr>)"

definition add_middleware :: "pyobj \<Rightarrow> string \<Rightarrow> 'k app_state \<Rightarrow> 'k app_state \<times> unit pyres" where
  "add_middleware h phase st =
     (let st1 = (if phase = ''request'' \<or> phase = ''both''
                 then st\<lparr>request_middleware := request_middleware st @ [h]\<rparr> else st);
          st2 = (if phase = ''response'' \<or> phase = ''both''
                 then st1\<lparr>response_middleware := response_middleware st1 @ [h]\<rparr> else st1)
      in if phase \<noteq> ''request'' \<and> phase \<noteq> ''response'' \<and> phase \<noteq> ''both''
         then (st2, value_error (''phase must be ''
                 @ quoted ''request'' @ '', '' @ quoted ''response'' @ '', or '' @ quoted ''both''))
         else (rebuild_snapshot st2, Ok ()))"

definition type_name :: "pyobj \<Rightarrow> string option" where
  "type_name obj = (case obj of PyObject cls attrs \<Rightarrow> Some cls | _ \<Rightarrow> None)"

definition set_cors :: "pyobj option \<Rightarrow> 'k app_state \<Rightarrow> 'k app_state" where
  "set_cors config st =
     rebuild_snapshot (st\<lparr>cors := config,
       compiled_cors := Option.bind config (\<lambda>c.
         if type_name c = Some ''CORSConfig'' then cors_from_py c else None)\<rparr>)"

definition set_security_headers :: "pyobj option \<Rightarrow> 'k app_state \<Rightarrow> 'k app_state" where
  "set_security_headers config st =
     rebuild_snapshot (st\<lparr>security_headers := config,
       compiled_security := Option.bind config (\<lambda>c.
         if type_name c = Some ''SecurityHeadersConfig'' then security_from_py c else None)\<rparr>)"

text \<open>The parts of the two database calls that run under the write lock.\<close>

definition setup_database :: "pool \<Rightarrow> 'k app_state \<Rightarrow> 'k app_state" where
  "setup_database p st = rebuild_snapshot (st\<lparr>db_pool := Some p\<rparr>)"

definition close_database :: "'k app_state \<Rightarrow> 'k app_state \<times> pool option" where
  "close_database st = (rebuild_snapshot (st\<lparr>db_pool := None\<rparr>), db_pool st)"

end
