(* ===== verification/AppInv.thy ===== *)
theory AppInv
  imports App
begin

text \<open>
  What holds of the application state after any sequence of registrations, setters, freezes
  and first requests, including those that raise: the entries of the route table are
  consistent, every index that a router holds is in its table, the compiled routers are
  the current ones and the published snapshot can be used on its own.
\<close>

section \<open>Route entries\<close>

definition entry_ok :: "'k route_entry \<Rightarrow> bool" where
  "entry_ok e \<longleftrightarrow>
     (require_jwt e \<longrightarrow> jwt_decoding_key (extra e) \<noteq> None \<and> jwt_validation (extra e) \<noteq> None)
   \<and> (has_rate_limit e \<longleftrightarrow> rate_limiter (extra e) \<noteq> None)
   \<and> \<not> (read_json_body e \<and> read_form_body e)
   \<and> (trivial_sync e \<longrightarrow> \<not> is_async e \<and> \<not> require_jwt e \<and> \<not> read_json_body e \<and> \<not> read_form_body e
        \<and> dependencies (extra e) = [] \<and> \<not> has_rate_limit e \<and> \<not> handler_varkw e
        \<and> set (handler_param_names (extra e)) = set (all_path_param_names (path_template (extra e)))
        \<and> \<not> list_ex (\<lambda>n. n \<in> set reserved_names) (handler_param_names (extra e)))"

lemma build_entry_ok:
  assumes "build_entry B a = Ok (e, op_id)"
  shows "entry_ok e \<and> require_jwt e = ra_require_jwt a \<and> path_template (extra e) = ra_path a
    \<and> (\<exists>deps0. (case ra_dependencies a of Some d \<Rightarrow> parse_dependencies B [] d | None \<Rightarrow> Ok []) = Ok deps0
         \<and> order_dependencies deps0 = Ok (dependencies (extra e)))"
proof -
  obtain coro algs dk v deps0 deps lim names varkw where
    x: "\<not> (ra_read_json_body a \<and> ra_read_form_body a)"
      "route_jwt B a algs = Ok (dk, v)"
      "(case ra_dependencies a of Some d \<Rightarrow> parse_dependencies B [] d | None \<Rightarrow> Ok []) = Ok deps0"
      "order_dependencies deps0 = Ok deps"
    and e: "e = \<lparr>handler = ra_handler a, body_model = ra_body_model a,
               extra = \<lparr>path_template = ra_path a, jwt_cookie = ra_jwt_cookie a, jwt_decoding_key = dk,
                 jwt_validation = v, dependencies = deps, handler_param_names = names,
                 body_param_name = (case ra_body_param_name a of Some n \<Rightarrow> n | None \<Rightarrow> ''json''),
                 rate_limiter = lim, wildcard_params = wildcard_param_names (ra_path a)\<rparr>,
               is_async = coro, require_jwt = ra_require_jwt a, read_json_body = ra_read_json_body a,
               read_form_body = ra_read_form_body a, handler_varkw = varkw,
               trivial_sync = (\<not> coro \<and> \<not> ra_require_jwt a \<and> \<not> ra_read_json_body a \<and> \<not> ra_read_form_body a
                 \<and> deps = [] \<and> (\<not> varkw \<and> \<not> list_ex (\<lambda>n. n \<in> set reserved_names) names
                   \<and> set names = set (all_path_param_names (ra_path a))) \<and> \<not> lim \<noteq> None),
               has_rate_limit = (lim \<noteq> None)\<rparr>"
    using assms by (auto simp: build_entry_def Let_def split: if_splits)
  have "ra_require_jwt a \<Longrightarrow> dk \<noteq> None \<and> v \<noteq> None"
    using x(2) by (auto simp: route_jwt_def split: option.splits rust.splits)
  with x show ?thesis by (simp add: e entry_ok_def)
qed

section \<open>The invariant\<close>

definition router_ok :: "nat \<Rightarrow> nat router \<Rightarrow> bool" where
  "router_ok n r \<longleftrightarrow> (\<forall>v \<in> snd ` set r. v < n)"

definition compiled_ok :: "nat \<Rightarrow> nat \<Rightarrow> compiled_routers \<Rightarrow> bool" where
  "compiled_ok n k c \<longleftrightarrow> router_ok n (c_get c) \<and> router_ok n (c_post c) \<and> router_ok n (c_put c)
     \<and> router_ok n (c_patch c) \<and> router_ok n (c_delete c) \<and> router_ok n (c_options c)
     \<and> router_ok k (c_websocket c)"

definition snapshot_ok :: "'k frozen_state \<Rightarrow> bool" where
  "snapshot_ok f \<longleftrightarrow> list_all entry_ok (f_routes f)
     \<and> pred_option (compiled_ok (length (f_routes f)) (length (f_websocket_routes f))) (f_compiled f)"

definition live_routers :: "'k app_state \<Rightarrow> nat router list" where
  "live_routers st = [r_get st, r_post st, r_put st, r_patch st, r_delete st, r_options st]"

definition current :: "'k app_state \<Rightarrow> compiled_routers \<Rightarrow> bool" where
  "current st c \<longleftrightarrow> c_get c = r_get st \<and> c_post c = r_post st \<and> c_put c = r_put st \<and> c_patch c = r_patch st
     \<and> c_delete c = r_delete st \<and> c_options c = r_options st \<and> c_websocket c = r_websocket st
     \<and> c_all_paths c = path_method_masks st"

definition core_ok :: "'k app_state \<Rightarrow> bool" where
  "core_ok st \<longleftrightarrow> list_all entry_ok (routes st)
     \<and> list_all (router_ok (length (routes st))) (live_routers st)
     \<and> router_ok (length (websocket_routes st)) (r_websocket st)
     \<and> pred_option (current st) (compiled st)"

definition app_ok :: "'k app_state \<Rightarrow> bool" where
  "app_ok st \<longleftrightarrow> core_ok st \<and> snapshot_ok (snapshot st)"

lemma router_ok_mono: "router_ok n r \<Longrightarrow> n \<le> m \<Longrightarrow> router_ok m r"
  by (auto simp: router_ok_def)

lemma router_ok_insert:
  assumes "router_insert M t v r = Ok r'" "router_ok n r" "v < n"
  shows "router_ok n r'"
  using assms by (auto simp: router_insert_def router_ok_def split: option.splits)

lemma router_at_ok: "router_at M path r = Some (v, ps) \<Longrightarrow> router_ok n r \<Longrightarrow> v < n"
  by (force simp: router_at_def router_ok_def bind_eq_Some_conv split: prod.splits dest: map_of_SomeD)

lemma core_okD:
  assumes "core_ok st"
  shows "list_all entry_ok (routes st)" "router_ok (length (routes st)) (r_get st)"
    "router_ok (length (routes st)) (r_post st)" "router_ok (length (routes st)) (r_put st)"
    "router_ok (length (routes st)) (r_patch st)" "router_ok (length (routes st)) (r_delete st)"
    "router_ok (length (routes st)) (r_options st)"
    "router_ok (length (websocket_routes st)) (r_websocket st)" "compiled st = Some c \<Longrightarrow> current st c"
  using assms by (simp_all add: core_ok_def live_routers_def)

lemma current_compiled_ok:
  assumes "core_ok st" "current st c"
  shows "compiled_ok (length (routes st)) (length (websocket_routes st)) c"
  using assms(2) core_okD(2-8) [OF assms(1)] by (simp add: current_def compiled_ok_def)

lemma frozen_view_ok: "core_ok st \<Longrightarrow> snapshot_ok (frozen_view st)"
  using core_okD(1) [of st] core_okD(9) [of st] current_compiled_ok [of st]
  by (cases "compiled st") (simp_all add: snapshot_ok_def frozen_view_def)

text \<open>The fields that the invariant reads, and publication of a new snapshot.\<close>

definition same_core :: "'k app_state \<Rightarrow> 'k app_state \<Rightarrow> bool" where
  "same_core s t \<longleftrightarrow> routes s = routes t \<and> websocket_routes s = websocket_routes t
     \<and> live_routers s = live_routers t \<and> r_websocket s = r_websocket t \<and> compiled s = compiled t
     \<and> path_method_masks s = path_method_masks t"

lemma current_same: "same_core s t \<Longrightarrow> current s = current t"
  by (simp add: fun_eq_iff current_def same_core_def live_routers_def)

lemma core_ok_same: "same_core s t \<Longrightarrow> core_ok s = core_ok t"
  using current_same [of s t] by (simp add: core_ok_def same_core_def)

lemma core_ok_rebuild: "core_ok (rebuild_snapshot st) = core_ok st"
  by (rule core_ok_same) (simp add: same_core_def rebuild_snapshot_def live_routers_def)

lemma app_ok_publish: "core_ok st \<Longrightarrow> app_ok (rebuild_snapshot st)"
  using frozen_view_ok [of st] by (simp add: app_ok_def core_ok_rebuild) (simp add: rebuild_snapshot_def)

lemma app_ok_republish: "app_ok s \<Longrightarrow> same_core s t \<Longrightarrow> app_ok (rebuild_snapshot t)"
  using core_ok_same [of s t] by (intro app_ok_publish) (simp add: app_ok_def)

lemma app_ok_same: "app_ok s \<Longrightarrow> same_core s t \<Longrightarrow> snapshot t = snapshot s \<Longrightarrow> app_ok t"
  using core_ok_same [of s t] by (simp add: app_ok_def)

section \<open>Every operation keeps it\<close>

lemma core_ok_push:
  assumes "core_ok st" "entry_ok e"
  shows "core_ok (st\<lparr>routes := routes st @ [e]\<rparr>)"
proof -
  have m: "router_ok (length (routes st)) r \<Longrightarrow> router_ok (Suc (length (routes st))) r" for r
    by (erule router_ok_mono) simp
  have "current (st\<lparr>routes := routes st @ [e]\<rparr>) = current st"
    by (simp add: fun_eq_iff current_def)
  then show ?thesis
    using core_okD [OF assms(1)] assms(2)
    by (cases "compiled st") (simp_all add: core_ok_def live_routers_def m)
qed

lemma core_ok_push_ws:
  assumes "core_ok st"
  shows "core_ok (st\<lparr>websocket_routes := websocket_routes st @ [w]\<rparr>)"
proof -
  have "current (st\<lparr>websocket_routes := websocket_routes st @ [w]\<rparr>) = current st"
    by (simp add: fun_eq_iff current_def)
  moreover have "router_ok (Suc (length (websocket_routes st))) (r_websocket st)"
    by (rule router_ok_mono [OF core_okD(8) [OF assms]]) simp
  ultimately show ?thesis
    using core_okD [OF assms] by (cases "compiled st") (simp_all add: core_ok_def live_routers_def)
qed

lemma core_ok_openapi: "core_ok (st\<lparr>openapi := d\<rparr>) = core_ok st"
  by (rule core_ok_same) (simp add: same_core_def live_routers_def)

lemma core_ok_routers:
  assumes "core_ok st" "router_ok (length (routes st)) r"
  shows "core_ok (set_method_router m r st\<lparr>path_method_masks := pm, compiled := None\<rparr>)"
  using core_okD(1-8) [OF assms(1)] assms(2)
  by (simp add: core_ok_def live_routers_def set_method_router_def)

lemma method_router_ok: "core_ok st \<Longrightarrow> map_method_router st m = Some r \<Longrightarrow> router_ok (length (routes st)) r"
  using core_okD(2-7) [of st] by (auto simp: map_method_router_def split: if_splits)

lemma insert_route_ok:
  assumes "core_ok st" "snapshot_ok (snapshot st)" "idx < length (routes st)"
  shows "app_ok (fst (insert_route B m path idx st))"
proof (cases "map_method_router st m")
  case None
  then show ?thesis using assms by (simp add: insert_route_def app_ok_def)
next
  case (Some r)
  show ?thesis
  proof (cases "router_insert (lib_matchit B) path idx r")
    case (Ok r')
    have "router_ok (length (routes st)) r'"
      by (rule router_ok_insert [OF Ok method_router_ok [OF assms(1) Some] assms(3)])
    from app_ok_publish [OF core_ok_routers [OF assms(1) this]] show ?thesis
      by (simp add: insert_route_def Some Ok Let_def)
  qed (use assms Some in \<open>simp_all add: insert_route_def app_ok_def\<close>)
qed

lemma add_route_ok:
  assumes "app_ok st"
  shows "app_ok (fst (add_route B a st))"
proof (cases "frozen st")
  case False
  show ?thesis
  proof (cases "build_entry B a")
    case (Ok x)
    obtain e op_id where x: "x = (e, op_id)" by fastforce
    have core: "core_ok st" and snap: "snapshot_ok (snapshot st)" using assms by (simp_all add: app_ok_def)
    let ?st = "st\<lparr>routes := routes st @ [e]\<rparr>"
    have e: "core_ok ?st" using build_entry_ok [of B a e op_id] Ok core x by (intro core_ok_push) simp_all
    have i: "app_ok (fst (insert_route B m p (length (routes st)) (?st\<lparr>openapi := d\<rparr>)))" for m p d
      using e snap by (intro insert_route_ok) (simp_all add: core_ok_openapi)
    have "app_ok ?st" using e snap by (simp add: app_ok_def)
    then show ?thesis
      using False Ok i by (auto simp: add_route_def x Let_def split: rust.split)
  qed (use assms False in \<open>simp_all add: add_route_def\<close>)
qed (use assms in \<open>simp add: add_route_def\<close>)

lemma add_websocket_route_ok:
  assumes "app_ok st"
  shows "app_ok (fst (add_websocket_route B path h origins st))"
proof (cases "\<not> frozen st \<and> (\<exists>b. iscoroutinefunction B h = Ok b)")
  case True
  then obtain b where b: "iscoroutinefunction B h = Ok b" by blast
  let ?w = "\<lparr>ws_handler = h, ws_is_async = b, ws_allowed_origins = origins\<rparr>"
  let ?st = "st\<lparr>websocket_routes := websocket_routes st @ [?w]\<rparr>"
  have core: "core_ok ?st" using assms by (intro core_ok_push_ws) (simp add: app_ok_def)
  have ok: "app_ok ?st" using core assms by (simp add: app_ok_def)
  show ?thesis
  proof (cases "router_insert (lib_matchit B) path (length (websocket_routes st)) (r_websocket st)")
    case (Ok r)
    have "router_ok (length (websocket_routes ?st)) r"
      by (rule router_ok_insert [OF Ok]) (use core_okD(8) [OF core] in simp_all)
    then have "core_ok (?st\<lparr>r_websocket := r, compiled := None\<rparr>)"
      using core_okD(1-7) [OF core] by (simp add: core_ok_def live_routers_def)
    from app_ok_publish [OF this] show ?thesis
      using True b Ok by (simp add: add_websocket_route_def Let_def)
  qed (use True b ok in \<open>simp_all add: add_websocket_route_def Let_def\<close>)
qed (use assms in \<open>auto simp: add_websocket_route_def split: rust.split\<close>)

lemma insert_all_paths_append: "insert_all_paths M masks r = Ok r' \<Longrightarrow> r' = r @ masks"
  by (induction M masks r rule: insert_all_paths.induct)
    (auto simp: router_insert_def split: rust.splits option.splits)

lemma snapshot_routers_current: "snapshot_routers M st = Ok c \<Longrightarrow> current st c"
  by (auto simp: snapshot_routers_def current_def dest: insert_all_paths_append)

lemma core_ok_compile: "core_ok st \<Longrightarrow> current st c \<Longrightarrow> core_ok (st\<lparr>compiled := Some c\<rparr>)"
proof -
  assume a: "core_ok st" "current st c"
  have "current (st\<lparr>compiled := Some c\<rparr>) = current st" by (simp add: fun_eq_iff current_def)
  with a show ?thesis
    using core_okD(1-8) [OF a(1)] by (simp add: core_ok_def live_routers_def)
qed

lemma core_ok_frozen: "core_ok (st\<lparr>frozen := b\<rparr>) = core_ok st"
  by (rule core_ok_same) (simp add: same_core_def live_routers_def)

lemma freeze_ok:
  assumes "app_ok st"
  shows "app_ok (fst (freeze B st))"
proof -
  have core: "core_ok (st\<lparr>frozen := True\<rparr>)" using assms by (simp add: app_ok_def core_ok_frozen)
  then have ok: "app_ok (st\<lparr>frozen := True\<rparr>)" using assms by (simp add: app_ok_def)
  show ?thesis
    using core ok app_ok_publish core_ok_compile [OF core snapshot_routers_current]
    by (auto simp: freeze_def Let_def split: option.split rust.split)
qed

lemma ensure_compiled_ok:
  assumes "app_ok st"
  shows "app_ok (fst (ensure_compiled_snapshot B st))"
proof (cases "compiled st")
  case None
  have core: "core_ok st" using assms by (simp add: app_ok_def)
  show ?thesis
  proof (cases "snapshot_routers (lib_matchit B) st")
    case (Ok c)
    then show ?thesis
      using app_ok_publish [OF core_ok_compile [OF core snapshot_routers_current [OF Ok]]]
      by (simp add: ensure_compiled_snapshot_def None)
  qed (use assms None in \<open>simp_all add: ensure_compiled_snapshot_def\<close>)
qed (use assms in \<open>simp add: ensure_compiled_snapshot_def\<close>)

section \<open>Sequences of operations\<close>

datatype app_op =
    AddRoute route_args
  | AddWebsocketRoute string pyobj "string list option"
  | Freeze
  | FirstRequest
  | SetOpenapiServed bool
  | SetOpenapiTitle string
  | SetOpenapiVersion string
  | SetOpenapiInfo "string option" "string option" "string option"
  | OpenapiJson
  | AddExceptionHandler string pyobj
  | SetMiddleware "pyobj option"
  | AddMiddleware pyobj string
  | SetCors "pyobj option"
  | SetSecurityHeaders "pyobj option"
  | SetupDatabase pool
  | CloseDatabase

fun app_exec :: "('k, 'c) libs \<Rightarrow> app_op \<Rightarrow> 'k app_state \<Rightarrow> 'k app_state" where
  "app_exec B (AddRoute a) st = fst (add_route B a st)"
| "app_exec B (AddWebsocketRoute p h os) st = fst (add_websocket_route B p h os st)"
| "app_exec B Freeze st = fst (freeze B st)"
| "app_exec B FirstRequest st = fst (ensure_compiled_snapshot B st)"
| "app_exec B (SetOpenapiServed b) st = set_openapi_served b st"
| "app_exec B (SetOpenapiTitle t) st = set_openapi_title t st"
| "app_exec B (SetOpenapiVersion v) st = set_openapi_version v st"
| "app_exec B (SetOpenapiInfo d c s) st = fst (set_openapi_info (lib_json B) d c s st)"
| "app_exec B OpenapiJson st = snd (app_openapi_json (lib_json B) st)"
| "app_exec B (AddExceptionHandler x h) st = add_exception_handler B x h st"
| "app_exec B (SetMiddleware h) st = set_middleware h st"
| "app_exec B (AddMiddleware h ph) st = fst (add_middleware h ph st)"
| "app_exec B (SetCors c) st = set_cors c st"
| "app_exec B (SetSecurityHeaders c) st = set_security_headers c st"
| "app_exec B (SetupDatabase p) st = setup_database p st"
| "app_exec B CloseDatabase st = fst (close_database st)"

definition app_new :: "bool \<Rightarrow> 'k app_state" where
  "app_new include_doc = app_state_new\<lparr>include_openapi := include_doc\<rparr>"

lemma app_new_ok: "app_ok (app_new b)"
  by (simp add: app_new_def app_ok_def core_ok_def snapshot_ok_def live_routers_def router_ok_def app_state_new_def)

lemma app_exec_ok:
  assumes "app_ok st"
  shows "app_ok (app_exec B op st)"
proof (cases op)
  case (AddMiddleware h ph)
  then show ?thesis
    using app_ok_republish [OF assms] assms
    by (auto simp: add_middleware_def Let_def same_core_def live_routers_def)
qed (auto intro: add_route_ok add_websocket_route_ok freeze_ok ensure_compiled_ok assms
    app_ok_republish [OF assms] app_ok_same [OF assms]
    simp: same_core_def live_routers_def set_openapi_served_def set_openapi_title_def set_openapi_version_def
    set_openapi_info_def app_openapi_json_def add_exception_handler_def set_middleware_def set_cors_def
    set_security_headers_def setup_database_def close_database_def split: prod.split)

interpretation app: op_machine "app_exec B" app_ok for B
  by unfold_locales (rule app_exec_ok)

text \<open>
  C6. No request can index outside the route table: after any registrations, setters,
  freezes and first requests, failed ones included, a path that the published snapshot's
  own routers match has an entry in the snapshot's table, for every HTTP method and for
  WebSockets, and that entry is complete (a protected route has its key and validation).
\<close>

theorem snapshot_indices_valid:
  assumes "st = fold (app_exec B) ops (app_new b)" "f_compiled (hot_snapshot st) = Some c"
  shows "(match_route_compiled M c m path = Some (Some (idx, ps)) \<longrightarrow>
      idx < length (f_routes (hot_snapshot st)) \<and> entry_ok (f_routes (hot_snapshot st) ! idx))
    \<and> (match_ws_route_compiled M c path = Some (idx, ps) \<longrightarrow>
      idx < length (f_websocket_routes (hot_snapshot st)))"
proof -
  have "app_ok st" unfolding assms(1) by (rule app.run_inv [OF app_new_ok])
  then have s: "snapshot_ok (hot_snapshot st)" by (simp add: app_ok_def hot_snapshot_def)
  then have c: "compiled_ok (length (f_routes (hot_snapshot st))) (length (f_websocket_routes (hot_snapshot st))) c"
    and e: "list_all entry_ok (f_routes (hot_snapshot st))"
    using assms(2) by (simp_all add: snapshot_ok_def)
  have "idx < length (f_routes (hot_snapshot st))" if m: "match_route_compiled M c m path = Some (Some (idx, ps))"
  proof -
    obtain r where r: "router_for_compiled c m = Some r" "router_at M path r = Some (idx, ps)"
      using m by (auto simp: match_route_compiled_def)
    have "router_ok (length (f_routes (hot_snapshot st))) r"
      using c r(1) by (auto simp: router_for_compiled_def compiled_ok_def split: if_splits)
    then show ?thesis using router_at_ok [OF r(2)] by simp
  qed
  moreover have "match_ws_route_compiled M c path = Some (idx, ps) \<Longrightarrow> idx < length (f_websocket_routes (hot_snapshot st))"
    using c router_at_ok [of M path "c_websocket c" idx ps]
    by (simp add: match_ws_route_compiled_def compiled_ok_def)
  ultimately show ?thesis using e by (simp add: list_all_length)
qed

text \<open>
  C7. The fast path cannot skip a check: after any operations, a route that the published
  snapshot serves without the full dispatcher has no JWT requirement, no rate limit, no
  body, no dependency and no asynchronous handler, and its handler takes exactly the
  parameters of its template.
\<close>

theorem trivial_route_has_no_checks:
  assumes "st = fold (app_exec B) ops (app_new b)" "e \<in> set (f_routes (hot_snapshot st))"
    "route_is_trivial_sync e"
  shows "\<not> require_jwt e \<and> \<not> has_rate_limit e \<and> rate_limiter (extra e) = None \<and> \<not> is_async e
    \<and> \<not> read_json_body e \<and> \<not> read_form_body e \<and> dependencies (extra e) = []
    \<and> set (handler_param_names (extra e)) = set (all_path_param_names (path_template (extra e)))"
proof -
  have "app_ok st" unfolding assms(1) by (rule app.run_inv [OF app_new_ok])
  then have "entry_ok e"
    using assms(2) by (simp add: app_ok_def snapshot_ok_def hot_snapshot_def list_all_iff)
  then show ?thesis using assms(3) by (auto simp: entry_ok_def route_is_trivial_sync_def)
qed

text \<open>
  An application created without the document serves it until something is registered:
  the flag is set after the first snapshot was published.
\<close>

theorem new_app_snapshot_serves_openapi:
  "include_openapi (app_new False) = False \<and> f_include_openapi (hot_snapshot (app_new False)) = True"
  by (simp add: app_new_def app_state_new_def hot_snapshot_def)

section \<open>The dependencies of a route\<close>

lemma parse_dependencies_names:
  "parse_dependencies B seen items = Ok ds \<Longrightarrow> distinct (map de_name ds) \<and> de_name ` set ds \<inter> set seen = {}"
proof (induction B seen items arbitrary: ds rule: parse_dependencies.induct)
  case (2 B seen it items)
  obtain n f name coro wants ps kw rest where
    x: "it = PyTuple [n, f]" "extract_string n = Some name" "name \<notin> set seen"
      "iscoroutinefunction B f = Ok coro" "dependency_wants_request B f = Ok wants"
      "handler_signature_kinds B f = Ok (ps, kw)"
      "parse_dependencies B (name # seen) items = Ok rest"
    and ds: "ds = \<lparr>de_name = name, de_factory = f, de_is_async = coro, de_wants_request = wants,
      de_params = ps, de_varkw = kw\<rparr> # rest"
    using 2(2) by (auto split: pyobj.splits list.splits option.splits if_splits)
  from 2(1) [OF x(1) refl refl refl x(2,3,4,5,6) refl x(7)] show ?case by (auto simp: ds x(3))
qed simp

lemma map_of_named:
  "distinct (map de_name ds) \<Longrightarrow>
   map_of (fold (\<lambda>d. al_put (de_name d) d) ds m) n =
     (case find (\<lambda>d. de_name d = n) ds of Some d \<Rightarrow> Some d | None \<Rightarrow> map_of m n)"
proof (induction ds arbitrary: m)
  case (Cons d ds)
  have "de_name d \<notin> de_name ` set ds" using Cons.prems by simp
  then have "de_name d = n \<Longrightarrow> find (\<lambda>d. de_name d = n) ds = None"
    unfolding find_None_iff by (metis imageI)
  with Cons show ?case by (auto split: option.split)
qed simp

lemma find_named:
  "distinct (map de_name ds) \<Longrightarrow> d \<in> set ds \<Longrightarrow> find (\<lambda>x. de_name x = de_name d) ds = Some d"
  by (induction ds) auto

lemma take_entries_names:
  assumes "distinct order" "\<And>n. n \<in> set order \<Longrightarrow> \<exists>e. map_of m n = Some e \<and> de_name e = n"
  shows "map de_name (take_entries order m) = order
    \<and> (\<forall>e \<in> set (take_entries order m). map_of m (de_name e) = Some e)"
  using assms
proof (induction order arbitrary: m)
  case (Cons n ns)
  obtain e where e: "map_of m n = Some e" "de_name e = n" using Cons.prems(2) [of n] by auto
  have "\<exists>x. map_of (al_del n m) k = Some x \<and> de_name x = k" if "k \<in> set ns" for k
    using Cons.prems(1) Cons.prems(2) [of k] that by auto
  with Cons.IH [of "al_del n m"] Cons.prems(1)
  have ih: "map de_name (take_entries ns (al_del n m)) = ns"
    "\<forall>e \<in> set (take_entries ns (al_del n m)). map_of (al_del n m) (de_name e) = Some e" by auto
  have "map_of m (de_name x) = Some x" if "x \<in> set (take_entries ns (al_del n m))" for x
    using ih(2) that by (auto split: if_splits)
  then show ?case using e ih(1) by auto
qed simp

lemma order_dependencies_ok:
  assumes "order_dependencies ds = Ok out" "distinct (map de_name ds)"
  shows "set out = set ds \<and> distinct (map de_name out) \<and>
    (\<forall>i < length out. \<forall>p \<in> set (de_params (out ! i)). p \<in> de_name ` set ds \<longrightarrow> p \<in> de_name ` set (take i out))"
proof (cases "ds = []")
  case True
  then show ?thesis using assms by (simp add: order_dependencies_def)
next
  case False
  let ?m = "fold (\<lambda>d. al_put (de_name d) d) ds []"
  obtain order where o: "topological_sort (build_graph_from_entries ds) = Ok order"
    and out: "out = take_entries order ?m"
    using assms(1) False by (auto simp: order_dependencies_def split: rust.splits)
  have order: "distinct order" "set order = de_name ` set ds"
    "\<And>i p. i < length order \<Longrightarrow> (p, order ! i) \<in> requires ds \<Longrightarrow> p \<in> set (take i order)"
    using topological_order [OF o] by auto
  have m: "map_of ?m (de_name d) = Some d" if "d \<in> set ds" for d
    using map_of_named [OF assms(2), of "[]" "de_name d"] find_named [OF assms(2) that] by simp
  have "\<exists>e. map_of ?m n = Some e \<and> de_name e = n" if "n \<in> set order" for n
    using that m by (auto simp: order(2))
  from take_entries_names [OF order(1) this]
  have names: "map de_name out = order" and look: "\<And>e. e \<in> set out \<Longrightarrow> map_of ?m (de_name e) = Some e"
    by (simp_all add: out)
  have nset: "de_name ` set out = de_name ` set ds" using names order(2) by (metis set_map)
  have mem: "e \<in> set ds" if "e \<in> set out" for e
  proof -
    have "de_name e \<in> de_name ` set ds" unfolding nset [symmetric] using that by (rule imageI)
    then obtain d where d: "d \<in> set ds" "de_name d = de_name e" by force
    have "Some d = Some e" using m [OF d(1)] look [OF that] unfolding d(2) by (rule trans [OF sym])
    with d(1) show ?thesis by simp
  qed
  have incl: "d \<in> set out" if "d \<in> set ds" for d
  proof -
    have "de_name d \<in> de_name ` set out" unfolding nset using that by (rule imageI)
    then obtain e where e: "e \<in> set out" "de_name e = de_name d" by force
    have "Some d = Some e" using m [OF that] look [OF e(1)] unfolding e(2) by (rule trans [OF sym])
    with e(1) show ?thesis by simp
  qed
  have "p \<in> de_name ` set (take i out)"
    if "i < length out" "p \<in> set (de_params (out ! i))" "p \<in> de_name ` set ds" for i p
  proof -
    have "(p, de_name (out ! i)) \<in> requires ds"
      using that mem [OF nth_mem [OF that(1)]] by (auto simp: requires_def)
    moreover have "order ! i = de_name (out ! i)" "i < length order"
      using names that(1) by (metis nth_map, metis length_map)
    ultimately have "p \<in> set (take i order)" using order(3) by simp
    then show ?thesis using names by (metis set_map take_map)
  qed
  moreover have "set out = set ds" using mem incl by blast
  ultimately show ?thesis using names order(1) by simp
qed

lemma build_entry_ordered:
  assumes "build_entry B a = Ok (e, op_id)"
  shows "distinct (map de_name (dependencies (extra e))) \<and>
    (\<forall>i < length (dependencies (extra e)). \<forall>p \<in> set (de_params (dependencies (extra e) ! i)).
      p \<in> de_name ` set (dependencies (extra e)) \<longrightarrow> p \<in> de_name ` set (take i (dependencies (extra e))))"
proof -
  obtain deps0 where d: "(case ra_dependencies a of Some d \<Rightarrow> parse_dependencies B [] d | None \<Rightarrow> Ok []) = Ok deps0"
    and o: "order_dependencies deps0 = Ok (dependencies (extra e))"
    using build_entry_ok [OF assms] by blast
  have "distinct (map de_name deps0)"
    using d parse_dependencies_names by (auto split: option.splits)
  from order_dependencies_ok [OF o this] show ?thesis by auto
qed

text \<open>
  A registered route resolves its dependencies in a usable order: the dependencies
  stored for the route are the ones that were declared, each once, and whenever a factory's
  parameter names another dependency of the route, that one comes before it.
\<close>

theorem route_dependencies_ordered:
  assumes "build_entry B a = Ok (e, op_id)" "ds = dependencies (extra e)"
  shows "distinct (map de_name ds) \<and>
    (\<forall>i < length ds. \<forall>p \<in> set (de_params (ds ! i)). p \<in> de_name ` set ds \<longrightarrow> p \<in> de_name ` set (take i ds))"
  using build_entry_ordered [OF assms(1)] unfolding assms(2) .

section \<open>Two templates that differ only in a parameter's name\<close>

lemma app_new_fields [simp]:
  "frozen (app_new b) = False" "path_method_masks (app_new b) = []" "compiled (app_new b) = None"
  by (simp_all add: app_new_def app_state_new_def)

lemma rebuild_fields [simp]:
  "path_method_masks (rebuild_snapshot st) = path_method_masks st" "compiled (rebuild_snapshot st) = compiled st"
  by (simp_all add: rebuild_snapshot_def)

lemma set_method_router_fields [simp]:
  "path_method_masks (set_method_router m r st) = path_method_masks st"
  "compiled (set_method_router m r st) = compiled st"
  by (simp_all add: set_method_router_def)

lemma insert_route_masks:
  "insert_route B m path idx st = (st', Ok ()) \<Longrightarrow> compiled st' = None \<and>
   (\<exists>msk. path_method_masks st' = al_put path msk (path_method_masks st))"
  by (auto simp: insert_route_def Let_def split: option.splits rust.splits)

lemma add_route_masks:
  assumes "add_route B a st = (st', Ok ())"
  shows "compiled st' = None \<and> (\<exists>msk. path_method_masks st' = al_put (ra_path a) msk (path_method_masks st))"
  using assms
  by (auto simp: add_route_def Let_def dest!: insert_route_masks split: if_splits rust.splits) blast

text \<open>
  C35. A legal pair of routes aborts the process: when two templates conflict inside one
  router (as \<open>/a/:id\<close> and \<open>/a/:name\<close> do), registering them for two different methods
  succeeds, since each method has its own router, and the first request or \<open>freeze\<close> then
  panics while it builds the table of all paths. (The table is built from a \<open>HashMap\<close>,
  whose order is not specified; the model takes the order of registration.)
\<close>

theorem conflicting_templates_panic:
  assumes "add_route B a1 (app_new b) = (st1, Ok ())" "add_route B a2 st1 = (st2, Ok ())"
    "ra_path a1 \<noteq> ra_path a2" "mi_conflict (lib_matchit B) [ra_path a1] (ra_path a2) = Some e"
  shows "snd (freeze B st2) = Panic ''snapshot all_paths''
    \<and> snd (ensure_compiled_snapshot B st2) = Panic ''snapshot all_paths''"
proof -
  obtain k1 where m1: "path_method_masks st1 = [(ra_path a1, k1)]"
    using add_route_masks [OF assms(1)] by auto
  obtain k2 where m2: "path_method_masks st2 = [(ra_path a1, k1), (ra_path a2, k2)]" and c: "compiled st2 = None"
    using add_route_masks [OF assms(2)] assms(3) by (auto simp: m1)
  have "insert_all_paths (lib_matchit B) (path_method_masks st2) [] = Panic ''snapshot all_paths''"
    using assms(4) by (auto simp: m2 router_insert_def split: option.split)
  then show ?thesis
    by (simp add: freeze_def ensure_compiled_snapshot_def snapshot_routers_def c Let_def)
qed

section \<open>Concrete inputs\<close>

text \<open>
  A small router with static and \<open>:name\<close> segments: templates that differ only in names
  conflict, a static match is preferred.
\<close>

definition seg_is_param :: "string \<Rightarrow> bool" where
  "seg_is_param s = (case s of c # _ \<Rightarrow> c = CHR '':'' | [] \<Rightarrow> False)"

fun seg_bind :: "string list \<Rightarrow> string list \<Rightarrow> path_params option" where
  "seg_bind [] [] = Some []"
| "seg_bind (t # ts) (p # ps) =
     (if seg_is_param t
      then (if p = [] then None else map_option ((#) (tl t, p)) (seg_bind ts ps))
      else if t = p then seg_bind ts ps else None)"
| "seg_bind _ _ = None"

definition seg_shape :: "string \<Rightarrow> string list" where
  "seg_shape t = map (\<lambda>s. if seg_is_param s then '':'' else s) (split_on CHR ''/'' t)"

definition sample_matchit :: matchit where
  "sample_matchit = \<lparr>mi_conflict = (\<lambda>ts t. if list_ex (\<lambda>u. seg_shape u = seg_shape t) ts then Some ''conflict'' else None),
     mi_best = (\<lambda>ts path. if path \<in> set ts then Some (path, [])
       else map_option (\<lambda>t. (t, the (seg_bind (split_on CHR ''/'' t) (split_on CHR ''/'' path))))
              (find (\<lambda>t. seg_bind (split_on CHR ''/'' t) (split_on CHR ''/'' path) \<noteq> None) ts))\<rparr>"

definition sample_libs :: "(string, string) libs" where
  "sample_libs = \<lparr>lib_matchit = sample_matchit, lib_json = sample_json, lib_jwt = sample_jwt,
     alg_from_str = (\<lambda>s. if s = ''HS256'' then Some HS256 else None),
     iscoroutinefunction = (\<lambda>f. Ok False),
     inspect_signature = (\<lambda>f. if f = PyStr ''b'' then Ok [(''a'', PositionalOrKeyword)] else Ok [(''id'', PositionalOrKeyword)]),
     callable_name = (\<lambda>f. Ok ''h'')\<rparr>"

definition sample_route :: "string \<Rightarrow> string \<Rightarrow> route_args" where
  "sample_route m p =
     \<lparr>ra_method = m, ra_path = p, ra_handler = PyStr ''h'', ra_require_jwt = False, ra_jwt_secret = None,
      ra_algorithms = None, ra_read_json_body = False, ra_read_form_body = False, ra_dependencies = None,
      ra_jwt_issuer = None, ra_jwt_audience = None, ra_jwt_leeway = None, ra_jwt_cookie = None,
      ra_body_schema_json = None, ra_body_model = None, ra_tags = None, ra_body_param_name = None,
      ra_extra_params_json = None, ra_rate_limit = None, ra_rate_limit_key = None\<rparr>"

definition sample_app1 :: "string app_state" where
  "sample_app1 = fst (add_route sample_libs (sample_route ''GET'' ''/a/:id'') (app_new True))"

definition sample_app2 :: "string app_state" where
  "sample_app2 = fst (add_route sample_libs (sample_route ''POST'' ''/a/:name'') sample_app1)"

lemma sample_add1: "add_route sample_libs (sample_route ''GET'' ''/a/:id'') (app_new True) = (sample_app1, Ok ())"
proof -
  have "snd (add_route sample_libs (sample_route ''GET'' ''/a/:id'') (app_new True :: string app_state)) = Ok ()"
    by code_simp
  then show ?thesis by (simp add: sample_app1_def prod_eq_iff)
qed

lemma sample_add2: "add_route sample_libs (sample_route ''POST'' ''/a/:name'') sample_app1 = (sample_app2, Ok ())"
proof -
  have "snd (add_route sample_libs (sample_route ''POST'' ''/a/:name'') sample_app1) = Ok ()"
    by code_simp
  then show ?thesis by (simp add: sample_app2_def prod_eq_iff)
qed

theorem conflicting_templates_panic_witness:
  "snd (freeze sample_libs sample_app2) = Panic ''snapshot all_paths''"
proof -
  have "mi_conflict (lib_matchit sample_libs) [''/a/:id''] ''/a/:name'' = Some ''conflict''" by code_simp
  then show ?thesis
    using conflicting_templates_panic [OF sample_add1 sample_add2] by (simp add: sample_route_def)
qed

definition sample_ops :: "app_op list" where
  "sample_ops = [AddRoute (sample_route ''GET'' ''/a/:id''), FirstRequest]"

definition sample_state :: "string app_state" where
  "sample_state = fold (app_exec sample_libs) sample_ops (app_new True)"

lemma sample_match:
  "\<exists>c. f_compiled (hot_snapshot sample_state) = Some c
     \<and> match_route_compiled sample_matchit c ''GET'' ''/a/5'' = Some (Some (0, [(''id'', ''5'')]))"
proof -
  have "map_option (\<lambda>c. match_route_compiled sample_matchit c ''GET'' ''/a/5'') (f_compiled (hot_snapshot sample_state))
      = Some (Some (Some (0, [(''id'', ''5'')])))"
    by code_simp
  then show ?thesis by auto
qed

theorem snapshot_indices_valid_witness: "0 < length (f_routes (hot_snapshot sample_state))"
  using sample_match snapshot_indices_valid [OF sample_state_def] by blast

theorem trivial_route_has_no_checks_witness:
  "\<not> require_jwt (hd (f_routes (hot_snapshot sample_state)))"
proof -
  have t: "route_is_trivial_sync (hd (f_routes (hot_snapshot sample_state)))" by code_simp
  have "length (f_routes (hot_snapshot sample_state)) = 1" by code_simp
  then have "hd (f_routes (hot_snapshot sample_state)) \<in> set (f_routes (hot_snapshot sample_state))"
    by (intro hd_in_set) auto
  from trivial_route_has_no_checks [OF sample_state_def this t] show ?thesis by blast
qed

definition sample_dep_route :: route_args where
  "sample_dep_route = (sample_route ''GET'' ''/d'')\<lparr>ra_dependencies :=
     Some [PyTuple [PyStr ''x'', PyStr ''b''], PyTuple [PyStr ''a'', PyStr ''h'']]\<rparr>"

theorem route_dependencies_ordered_witness:
  "\<exists>e. build_entry sample_libs sample_dep_route = Ok (e, ''h'')
    \<and> map de_name (dependencies (extra e)) = [''a'', ''x''] \<and> distinct (map de_name (dependencies (extra e)))"
proof -
  have "(case build_entry sample_libs sample_dep_route of
      Ok (e, n) \<Rightarrow> n = ''h'' \<and> map de_name (dependencies (extra e)) = [''a'', ''x''] | _ \<Rightarrow> False)"
    by code_simp
  then obtain e where e: "build_entry sample_libs sample_dep_route = Ok (e, ''h'')"
    "map de_name (dependencies (extra e)) = [''a'', ''x'']"
    by (auto split: rust.splits prod.splits)
  have "distinct (map de_name (dependencies (extra e)))"
    using route_dependencies_ordered [OF e(1) refl] by blast
  with e show ?thesis by auto
qed

end
