(* ===== verification/Methods.thy ===== *)
theory Methods
  imports AppInv
begin

text \<open>
  The methods of a path (\<open>MethodMask\<close> and \<open>methods_matching_path_compiled\<close> of
  \<open>src/src/state.rs\<close>): what a 405 answer lists in \<open>Allow\<close>, against what the routers match.
\<close>

section \<open>Masks\<close>

definition http_methods :: "string list" where
  "http_methods = [''GET'', ''HEAD'', ''POST'', ''PUT'', ''PATCH'', ''DELETE'', ''OPTIONS'']"

definition method_bit :: "string \<Rightarrow> nat" where
  "method_bit m = length (takeWhile (\<lambda>x. x \<noteq> m) http_methods)"

lemma mask_values:
  "mask_GET = 2 ^ 0" "mask_HEAD = 2 ^ 1" "mask_POST = 2 ^ 2" "mask_PUT = 2 ^ 3" "mask_PATCH = 2 ^ 4"
  "mask_DELETE = 2 ^ 5" "mask_OPTIONS = 2 ^ 6"
  by (simp_all add: mask_GET_def mask_HEAD_def mask_POST_def mask_PUT_def mask_PATCH_def mask_DELETE_def
      mask_OPTIONS_def push_bit_eq_mult)

lemma mask_order_pow: "mask_order = map (\<lambda>m. (m, 2 ^ method_bit m)) http_methods"
  by (simp add: mask_order_def mask_values http_methods_def method_bit_def)

lemma mask_to_vec_iff: "m \<in> set (mask_to_vec w) \<longleftrightarrow> m \<in> set http_methods \<and> bit w (method_bit m)"
proof -
  have "mask_to_vec w = filter (\<lambda>m. bit w (method_bit m)) http_methods"
    by (simp add: mask_to_vec_def mask_order_pow filter_map comp_def and_exp_eq_0_iff_not_bit)
  then show ?thesis by simp
qed

lemma bit_from_method:
  "m \<in> set http_methods \<Longrightarrow>
   bit (mask_from_method k) (method_bit m) \<longleftrightarrow> k = m \<or> k = ''GET'' \<and> m = ''HEAD''"
  by (auto simp: http_methods_def mask_from_method_def mask_values method_bit_def bit_or_iff bit_exp_iff
      simp del: One_nat_def power_0)

lemma bit_insert_method: "bit (insert_method k w) n \<longleftrightarrow> bit w n \<or> bit (mask_from_method k) n"
  by (simp add: insert_method_def bit_or_iff)

lemma bit_fold_insert:
  "bit (fold insert_method ms w) n \<longleftrightarrow> bit w n \<or> (\<exists>k \<in> set ms. bit (mask_from_method k) n)"
  by (induction ms arbitrary: w) (auto simp: bit_insert_method)

text \<open>
  A mask remembers exactly the methods inserted, in any order and number: a method is
  listed when it is one of the seven supported ones and was inserted, or is \<open>HEAD\<close> and
  \<open>GET\<close> was inserted; the list is in the fixed order and has no repetition.
\<close>

theorem mask_lists_inserted:
  "m \<in> set (mask_to_vec (fold insert_method ms 0)) \<longleftrightarrow>
     m \<in> set http_methods \<and> (m \<in> set ms \<or> m = ''HEAD'' \<and> ''GET'' \<in> set ms)"
proof (cases "m \<in> set http_methods")
  case True
  have "(\<exists>k \<in> set ms. bit (mask_from_method k) (method_bit m)) \<longleftrightarrow> m \<in> set ms \<or> m = ''HEAD'' \<and> ''GET'' \<in> set ms"
    unfolding bit_from_method [OF True] by blast
  then show ?thesis using True by (simp add: mask_to_vec_iff bit_fold_insert)
qed (simp add: mask_to_vec_iff)

section \<open>The Allow list\<close>

text \<open>
  What the documentation of \<open>matchit\<close> promises: whether a template matches a path does not
  depend on the other templates, and a path that some inserted template matches is matched
  by one of them.
\<close>

definition matchit_ok :: "matchit \<Rightarrow> (string \<Rightarrow> string \<Rightarrow> bool) \<Rightarrow> bool" where
  "matchit_ok M hit \<longleftrightarrow>
     (\<forall>ts path t ps. mi_best M ts path = Some (t, ps) \<longrightarrow> t \<in> set ts \<and> hit t path) \<and>
     (\<forall>ts path. (\<exists>t \<in> set ts. hit t path) \<longrightarrow> mi_best M ts path \<noteq> None)"

lemma router_at_hit:
  assumes "matchit_ok M hit"
  shows "router_at M path r \<noteq> None \<longleftrightarrow> (\<exists>t \<in> fst ` set r. hit t path)"
proof
  assume "router_at M path r \<noteq> None"
  then obtain t ps where "mi_best M (map fst r) path = Some (t, ps)" by (auto simp: router_at_def bind_eq_None_conv)
  then show "\<exists>t \<in> fst ` set r. hit t path" using assms unfolding matchit_ok_def by (metis set_map)
next
  assume "\<exists>t \<in> fst ` set r. hit t path"
  then have "mi_best M (map fst r) path \<noteq> None" using assms unfolding matchit_ok_def by (metis set_map)
  then obtain t ps where b: "mi_best M (map fst r) path = Some (t, ps)" by fastforce
  then have "t \<in> fst ` set r" using assms unfolding matchit_ok_def by (metis set_map)
  then obtain v where "map_of r t = Some v" by (metis map_of_eq_None_iff option.exhaust)
  then show "router_at M path r \<noteq> None" by (simp add: router_at_def b)
qed

text \<open>Every method recorded in a mask is one whose router holds the template.\<close>

definition router_of :: "'k app_state \<Rightarrow> string \<Rightarrow> nat router" where
  "router_of st m = the (map_method_router st m)"

definition masks_ok :: "'k app_state \<Rightarrow> bool" where
  "masks_ok st \<longleftrightarrow> (\<forall>path msk m. (path, msk) \<in> set (path_method_masks st) \<longrightarrow> m \<in> set http_methods \<longrightarrow>
     bit msk (method_bit m) \<longrightarrow> path \<in> fst ` set (router_of st m))"

lemma masks_ok_same:
  "live_routers s = live_routers t \<Longrightarrow> path_method_masks s = path_method_masks t \<Longrightarrow> masks_ok s = masks_ok t"
  by (auto simp: masks_ok_def router_of_def live_routers_def map_method_router_def)

lemma masks_ok_update [simp]:
  "masks_ok (st\<lparr>routes := x0\<rparr>) = masks_ok st"
  "masks_ok (st\<lparr>websocket_routes := x1\<rparr>) = masks_ok st"
  "masks_ok (st\<lparr>openapi := x2\<rparr>) = masks_ok st"
  "masks_ok (st\<lparr>compiled := x3\<rparr>) = masks_ok st"
  "masks_ok (st\<lparr>frozen := x4\<rparr>) = masks_ok st"
  "masks_ok (st\<lparr>include_openapi := x5\<rparr>) = masks_ok st"
  "masks_ok (st\<lparr>request_middleware := x6\<rparr>) = masks_ok st"
  "masks_ok (st\<lparr>response_middleware := x7\<rparr>) = masks_ok st"
  "masks_ok (st\<lparr>exception_handlers := x8\<rparr>) = masks_ok st"
  "masks_ok (st\<lparr>cors := x9\<rparr>) = masks_ok st"
  "masks_ok (st\<lparr>compiled_cors := x10\<rparr>) = masks_ok st"
  "masks_ok (st\<lparr>security_headers := x11\<rparr>) = masks_ok st"
  "masks_ok (st\<lparr>compiled_security := x12\<rparr>) = masks_ok st"
  "masks_ok (st\<lparr>db_pool := x13\<rparr>) = masks_ok st"
  "masks_ok (st\<lparr>snapshot := x14\<rparr>) = masks_ok st"
  "masks_ok (st\<lparr>r_websocket := x15\<rparr>) = masks_ok st"
  by (rule masks_ok_same; simp add: live_routers_def)+

lemma masks_ok_rebuild [simp]: "masks_ok (rebuild_snapshot st) = masks_ok st"
  by (simp add: rebuild_snapshot_def)

lemma router_of_set:
  assumes "map_method_router st k = Some r" "m \<in> set http_methods"
  shows "router_of (set_method_router k r' st) m =
    (if m = k \<or> m = ''GET'' \<and> k = ''HEAD'' \<or> m = ''HEAD'' \<and> k = ''GET'' then r' else router_of st m)"
  using assms
  by (auto simp: router_of_def set_method_router_def map_method_router_def http_methods_def
      split: if_splits)

lemma insert_route_masks_ok:
  assumes "masks_ok st"
  shows "masks_ok (fst (insert_route B k path idx st))"
proof (cases "map_method_router st k")
  case None
  then show ?thesis using assms by (simp add: insert_route_def)
next
  case (Some r)
  show ?thesis
  proof (cases "router_insert (lib_matchit B) path idx r")
    case (Ok r')
    have r': "r' = r @ [(path, idx)]" using Ok by (auto simp: router_insert_def split: option.splits)
    let ?old = "case map_of (path_method_masks st) path of Some msk \<Rightarrow> msk | None \<Rightarrow> 0"
    let ?pm = "al_put path (insert_method k ?old) (path_method_masks st)"
    let ?st = "set_method_router k r' st"
    have grow: "fst ` set (router_of st m) \<subseteq> fst ` set (router_of ?st m)" if "m \<in> set http_methods" for m
    proof (cases "m = k \<or> m = ''GET'' \<and> k = ''HEAD'' \<or> m = ''HEAD'' \<and> k = ''GET''")
      case True
      then have "map_method_router st m = Some r"
        using Some by (elim disjE) (simp_all add: map_method_router_def)
      then show ?thesis using True unfolding router_of_set [OF Some that] by (auto simp: r' router_of_def)
    next
      case False
      then show ?thesis unfolding router_of_set [OF Some that] by (simp only: if_False order_refl)
    qed
    have new: "path \<in> fst ` set (router_of ?st m)"
      if "m \<in> set http_methods" "bit (mask_from_method k) (method_bit m)" for m
      using that(2) unfolding bit_from_method [OF that(1)] router_of_set [OF Some that(1)]
      by (auto simp: r')
    have "masks_ok (?st\<lparr>path_method_masks := ?pm, compiled := None\<rparr>)"
      unfolding masks_ok_def
    proof (intro allI impI)
      fix p msk m
      assume p: "(p, msk) \<in> set (path_method_masks (?st\<lparr>path_method_masks := ?pm, compiled := None\<rparr>))"
        and m: "m \<in> set http_methods" and b: "bit msk (method_bit m)"
      have rt: "router_of (?st\<lparr>path_method_masks := ?pm, compiled := None\<rparr>) m = router_of ?st m"
        by (simp add: router_of_def map_method_router_def)
      have "p \<in> fst ` set (router_of ?st m)"
      proof (cases "(p, msk) \<in> set (path_method_masks st)")
        case True
        then show ?thesis using assms m b grow [OF m] unfolding masks_ok_def by blast
      next
        case False
        then have pm: "p = path" "msk = insert_method k ?old"
          using p set_al_put_subset [of path "insert_method k ?old" "path_method_masks st"] by auto
        then consider "bit ?old (method_bit m)" | "bit (mask_from_method k) (method_bit m)"
          using b by (auto simp: bit_insert_method)
        then show ?thesis
        proof cases
          case 1
          then obtain w where w: "map_of (path_method_masks st) path = Some w" "bit w (method_bit m)"
            by (cases "map_of (path_method_masks st) path") simp_all
          have "path \<in> fst ` set (router_of st m)"
            using assms m w(2) map_of_SomeD [OF w(1)] unfolding masks_ok_def by blast
          then show ?thesis using grow [OF m] pm(1) by blast
        next
          case 2
          then show ?thesis using new [OF m 2] pm(1) by simp
        qed
      qed
      then show "p \<in> fst ` set (router_of (?st\<lparr>path_method_masks := ?pm, compiled := None\<rparr>) m)" unfolding rt .
    qed
    then show ?thesis
      by (simp add: insert_route_def Some Ok Let_def)
  qed (use assms Some in \<open>simp_all add: insert_route_def\<close>)
qed

lemma add_route_masks_ok: "masks_ok st \<Longrightarrow> masks_ok (fst (add_route B a st))"
  by (auto simp: add_route_def Let_def intro!: insert_route_masks_ok split: rust.split)

lemma app_exec_masks_ok:
  assumes "masks_ok st"
  shows "masks_ok (app_exec B op st)"
  using assms
  by (cases op)
    (auto simp: add_route_masks_ok add_websocket_route_def freeze_def ensure_compiled_snapshot_def
      add_middleware_def Let_def set_openapi_served_def set_openapi_title_def set_openapi_version_def
      set_openapi_info_def app_openapi_json_def add_exception_handler_def set_middleware_def set_cors_def
      set_security_headers_def setup_database_def close_database_def split: prod.split rust.split option.split)

interpretation app_masks: op_machine "app_exec B" masks_ok for B
  by unfold_locales (rule app_exec_masks_ok)

lemma masks_ok_new: "masks_ok (app_new b)"
  by (simp add: masks_ok_def)

lemma current_router: "current st c \<Longrightarrow> router_for_compiled c m = map_method_router st m"
  by (simp add: current_def router_for_compiled_def map_method_router_def)

lemma supported_router: "m \<in> set http_methods \<Longrightarrow> map_method_router st m = Some (router_of st m)"
  by (auto simp: http_methods_def router_of_def map_method_router_def)

lemma methods_by_router_match:
  "m \<in> set (methods_by_router M c path) \<Longrightarrow> \<exists>i ps. match_route_compiled M c m path = Some (Some (i, ps))"
  unfolding methods_by_router_def Let_def match_route_compiled_def router_for_compiled_def
  by (simp split: if_splits; elim disjE conjE; simp)

lemma methods_fallback:
  assumes "m \<in> set (methods_matching_path_compiled M c path)"
    "m \<notin> set (case router_at M path (c_all_paths c) of Some (msk, ps) \<Rightarrow> mask_to_vec msk | None \<Rightarrow> [])"
  shows "\<exists>i ps. match_route_compiled M c m path = Some (Some (i, ps))"
proof (rule methods_by_router_match)
  define v where "v = (case router_at M path (c_all_paths c) of Some (msk, ps) \<Rightarrow> mask_to_vec msk | None \<Rightarrow> [])"
  have "m \<in> set (if v \<noteq> [] then v else methods_by_router M c path)"
    using assms(1) unfolding methods_matching_path_compiled_def Let_def v_def .
  moreover have "m \<notin> set v" using assms(2) unfolding v_def .
  ultimately show "m \<in> set (methods_by_router M c path)" by (simp split: if_splits)
qed

text \<open>
  C27. The \<open>Allow\<close> list does not lie: after any operations, every method that a 405 or an
  automatic \<open>OPTIONS\<close> answer lists for a path does match a route at that path.
\<close>

theorem allow_list_sound:
  assumes "matchit_ok (lib_matchit B) hit" "st = fold (app_exec B) ops (app_new b)"
    "snd (ensure_compiled_snapshot B st) = Ok c"
    "m \<in> set (methods_matching_path_compiled (lib_matchit B) c path)"
  shows "\<exists>i ps. match_route_compiled (lib_matchit B) c m path = Some (Some (i, ps))"
proof (cases "m \<in> set (case router_at (lib_matchit B) path (c_all_paths c) of
    Some (msk, ps) \<Rightarrow> mask_to_vec msk | None \<Rightarrow> [])")
  case True
  have ok: "app_ok st" "masks_ok st"
    unfolding assms(2) by (rule app.run_inv [OF app_new_ok], rule app_masks.run_inv [OF masks_ok_new])
  have cur: "current st c"
    using assms(3) ok(1) snapshot_routers_current core_okD(9) [of st]
    by (auto simp: ensure_compiled_snapshot_def app_ok_def split: option.splits rust.splits)
  obtain msk ps where at: "router_at (lib_matchit B) path (c_all_paths c) = Some (msk, ps)"
    and m: "m \<in> set http_methods" "bit msk (method_bit m)"
    using True by (cases "router_at (lib_matchit B) path (c_all_paths c)") (auto simp: mask_to_vec_iff)
  then obtain t where t: "mi_best (lib_matchit B) (map fst (c_all_paths c)) path = Some (t, ps)"
    "map_of (c_all_paths c) t = Some msk"
    by (auto simp: router_at_def bind_eq_Some_conv)
  have "(t, msk) \<in> set (path_method_masks st)" using map_of_SomeD [OF t(2)] cur by (simp add: current_def)
  then have "t \<in> fst ` set (router_of st m)" using ok(2) m unfolding masks_ok_def by blast
  moreover have "hit t path" using assms(1) t(1) unfolding matchit_ok_def by blast
  ultimately have "router_at (lib_matchit B) path (router_of st m) \<noteq> None"
    using router_at_hit [OF assms(1)] by blast
  then show ?thesis
    by (auto simp: match_route_compiled_def current_router [OF cur] supported_router [OF m(1)])
next
  case False
  show ?thesis by (rule methods_fallback [OF assms(4) False])
qed

lemma add_route_success:
  assumes "add_route B a st = (st', Ok ())" "map_method_router st (ra_method a) = Some r"
  shows "map_method_router st' (ra_method a) = Some (r @ [(ra_path a, length (routes st))])
    \<and> path_method_masks st' = al_put (ra_path a) (insert_method (ra_method a)
        (case map_of (path_method_masks st) (ra_path a) of Some w \<Rightarrow> w | None \<Rightarrow> 0)) (path_method_masks st)
    \<and> (\<forall>k. k \<in> set http_methods \<longrightarrow> k \<noteq> ra_method a \<longrightarrow> {k, ra_method a} \<noteq> {''GET'', ''HEAD''} \<longrightarrow>
        map_method_router st' k = map_method_router st k)"
proof -
  obtain d e where i: "insert_route B (ra_method a) (ra_path a) (length (routes st))
      (st\<lparr>routes := routes st @ [e], openapi := d\<rparr>) = (st', Ok ())"
    using assms(1) by (auto simp: add_route_def Let_def split: if_splits rust.splits)
  let ?st = "st\<lparr>routes := routes st @ [e], openapi := d\<rparr>"
  have m: "map_method_router ?st k = map_method_router st k" for k by (simp add: map_method_router_def)
  obtain r' where r': "router_insert (lib_matchit B) (ra_path a) (length (routes st)) r = Ok r'"
    and st': "st' = rebuild_snapshot (set_method_router (ra_method a) r' ?st
       \<lparr>path_method_masks := al_put (ra_path a) (insert_method (ra_method a)
          (case map_of (path_method_masks st) (ra_path a) of Some w \<Rightarrow> w | None \<Rightarrow> 0)) (path_method_masks st),
        compiled := None\<rparr>)"
    using i by (auto simp: insert_route_def m assms(2) Let_def split: rust.splits)
  have "r' = r @ [(ra_path a, length (routes st))]"
    using r' by (auto simp: router_insert_def split: option.splits)
  with assms(2) show ?thesis
    unfolding st'
    by (auto simp: map_method_router_def rebuild_snapshot_def set_method_router_def doubleton_eq_iff split: if_splits)
qed

text \<open>
  The \<open>Allow\<close> list can be incomplete: with a route for \<open>GET\<close> on one template and a
  route for \<open>POST\<close> on a more specific one that matches the same path (as \<open>/a/:id\<close> and
  \<open>/a/special\<close> do), the list for that path is \<open>POST\<close> alone although \<open>GET\<close> matches it.
\<close>

theorem allow_list_incomplete:
  assumes "add_route B a1 (app_new b) = (st1, Ok ())" "add_route B a2 st1 = (st2, Ok ())"
    "ra_method a1 = ''GET''" "ra_method a2 = ''POST''" "ra_path a1 \<noteq> ra_path a2"
    "mi_best (lib_matchit B) [ra_path a1] path = Some (ra_path a1, ps1)"
    "mi_best (lib_matchit B) [ra_path a1, ra_path a2] path = Some (ra_path a2, ps2)"
    "snd (ensure_compiled_snapshot B st2) = Ok c"
  shows "methods_matching_path_compiled (lib_matchit B) c path = [''POST'']
    \<and> match_route_compiled (lib_matchit B) c ''GET'' path = Some (Some (0, ps1))"
proof -
  have r0: "map_method_router (app_new b) k = Some []" if "k = ''GET'' \<or> k = ''POST''" for k
    using that by (auto simp: map_method_router_def app_new_def app_state_new_def)
  have l0: "routes (app_new b) = []" by (simp add: app_new_def app_state_new_def)
  have s1: "map_method_router st1 ''GET'' = Some [(ra_path a1, 0)]" "map_method_router st1 ''POST'' = Some []"
    "path_method_masks st1 = [(ra_path a1, insert_method ''GET'' 0)]"
    using add_route_success [OF assms(1), unfolded assms(3), OF r0] r0 [of "''POST''"]
    by (simp_all add: l0 http_methods_def doubleton_eq_iff)
  have s2: "map_method_router st2 ''GET'' = Some [(ra_path a1, 0)]"
    "path_method_masks st2 = [(ra_path a1, insert_method ''GET'' 0), (ra_path a2, insert_method ''POST'' 0)]"
    using add_route_success [OF assms(2), unfolded assms(4), OF s1(2)] assms(5)
    by (simp_all add: s1(1,3) http_methods_def doubleton_eq_iff)
  have "compiled st2 = None" using add_route_masks [OF assms(2)] by blast
  then have cur: "current st2 c"
    using assms(8) snapshot_routers_current by (auto simp: ensure_compiled_snapshot_def split: rust.splits)
  have "router_at (lib_matchit B) path (c_all_paths c) = Some (insert_method ''POST'' 0, ps2)"
    using cur s2(2) assms(5,7) by (simp add: current_def router_at_def)
  moreover have "mask_to_vec (insert_method ''POST'' 0) = [''POST'']" by code_simp
  moreover have "router_at (lib_matchit B) path [(ra_path a1, 0 :: nat)] = Some (0, ps1)"
    using assms(6) by (simp add: router_at_def)
  ultimately show ?thesis
    by (simp add: methods_matching_path_compiled_def match_route_compiled_def current_router [OF cur] s2(1))
qed

section \<open>Concrete inputs\<close>

definition sample_hit :: "string \<Rightarrow> string \<Rightarrow> bool" where
  "sample_hit t path \<longleftrightarrow> t = path \<or> seg_bind (split_on CHR ''/'' t) (split_on CHR ''/'' path) \<noteq> None"

lemma sample_matchit_ok: "matchit_ok (lib_matchit sample_libs) sample_hit"
proof -
  have f: "find P ts \<noteq> None" if "t \<in> set ts" "P t" for P and t :: string and ts
    using that by (auto simp: find_None_iff)
  have "mi_best sample_matchit ts path \<noteq> None" if "t \<in> set ts" "sample_hit t path" for ts t path
    using that f [of t ts "\<lambda>t. seg_bind (split_on CHR ''/'' t) (split_on CHR ''/'' path) \<noteq> None"]
    by (auto simp: sample_matchit_def sample_hit_def)
  moreover have "t \<in> set ts \<and> sample_hit t path" if "mi_best sample_matchit ts path = Some (t, ps)" for ts path t ps
    using that by (auto simp: sample_matchit_def sample_hit_def dest: find_Some_set split: if_splits)
  ultimately show ?thesis unfolding matchit_ok_def by (auto simp: sample_libs_def)
qed

theorem allow_list_sound_witness:
  "\<exists>c i ps. snd (ensure_compiled_snapshot sample_libs sample_state) = Ok c
    \<and> match_route_compiled sample_matchit c ''HEAD'' ''/a/5'' = Some (Some (i, ps))"
proof -
  have "(case snd (ensure_compiled_snapshot sample_libs sample_state) of
      Ok c \<Rightarrow> ''HEAD'' \<in> set (methods_matching_path_compiled (lib_matchit sample_libs) c ''/a/5'') | _ \<Rightarrow> False)"
    by code_simp
  then obtain c where c: "snd (ensure_compiled_snapshot sample_libs sample_state) = Ok c"
    "''HEAD'' \<in> set (methods_matching_path_compiled (lib_matchit sample_libs) c ''/a/5'')"
    by (auto split: rust.splits)
  from allow_list_sound [OF sample_matchit_ok sample_state_def c] c(1) show ?thesis
    by (auto simp: sample_libs_def)
qed

definition sample_app3 :: "string app_state" where
  "sample_app3 = fst (add_route sample_libs (sample_route ''POST'' ''/a/special'') sample_app1)"

lemma sample_add3: "add_route sample_libs (sample_route ''POST'' ''/a/special'') sample_app1 = (sample_app3, Ok ())"
proof -
  have "snd (add_route sample_libs (sample_route ''POST'' ''/a/special'') sample_app1) = Ok ()"
    by code_simp
  then show ?thesis by (simp add: sample_app3_def prod_eq_iff)
qed

theorem allow_list_incomplete_witness:
  "\<exists>c. snd (ensure_compiled_snapshot sample_libs sample_app3) = Ok c
    \<and> methods_matching_path_compiled (lib_matchit sample_libs) c ''/a/special'' = [''POST'']"
proof -
  have "(case snd (ensure_compiled_snapshot sample_libs sample_app3) of Ok c \<Rightarrow> True | _ \<Rightarrow> False)"
    by code_simp
  then obtain c where c: "snd (ensure_compiled_snapshot sample_libs sample_app3) = Ok c"
    by (auto split: rust.splits)
  have "mi_best (lib_matchit sample_libs) [''/a/:id''] ''/a/special'' = Some (''/a/:id'', [(''id'', ''special'')])"
    and "mi_best (lib_matchit sample_libs) [''/a/:id'', ''/a/special''] ''/a/special'' = Some (''/a/special'', [])"
    by code_simp+
  with allow_list_incomplete [OF sample_add1 sample_add3 _ _ _ _ _ c] c show ?thesis
    by (simp add: sample_route_def)
qed

end
