(* ===== verification/Registered.thy ===== *)
theory Registered
  imports AppInv
begin

text \<open>
  What a client of \<open>App\<close> relies on: a request is routed to what was registered. The
  specification keeps, for each kind of request, the templates that were accepted with
  their entries, and nothing else; the application, with its table, its routers of indices,
  its compiled routers and its published snapshot, refines it.
\<close>

section \<open>The specification\<close>

datatype verb = Get | Post | Put | Patch | Delete | Options

definition verb_of :: "string \<Rightarrow> verb option" where
  "verb_of m =
     (if m = ''GET'' \<or> m = ''HEAD'' then Some Get
      else if m = ''POST'' then Some Post
      else if m = ''PUT'' then Some Put
      else if m = ''PATCH'' then Some Patch
      else if m = ''DELETE'' then Some Delete
      else if m = ''OPTIONS'' then Some Options
      else None)"

type_synonym 'k route_spec = "bool \<times> (verb \<Rightarrow> (string \<times> 'k route_entry) list)"

fun succeeds :: "('a, 'e) rust \<Rightarrow> bool" where
  "succeeds (Ok x) = True" | "succeeds (Err e) = False" | "succeeds (Panic m) = False"

lemma rbind_case: "rbind r f = (case r of Ok x \<Rightarrow> f x | Err e \<Rightarrow> Err e | Panic m \<Rightarrow> Panic m)"
  by (cases r) simp_all

text \<open>The arguments that are parsed after the entry is built.\<close>

definition route_json_ok :: "('k, 'c) libs \<Rightarrow> route_args \<Rightarrow> bool" where
  "route_json_ok B a \<longleftrightarrow> succeeds (parse_json_arg (lib_json B) ''body_schema'' (ra_body_schema_json a))
     \<and> succeeds (parse_tags (ra_tags a)) \<and> succeeds (parse_extra_params (lib_json B) (ra_extra_params_json a))"

definition spec_add :: "('k, 'c) libs \<Rightarrow> route_args \<Rightarrow> 'k route_spec \<Rightarrow> 'k route_spec" where
  "spec_add B a = (\<lambda>(fr, T).
     case (verb_of (ra_method a), build_entry B a) of
       (Some v, Ok (e, op_id)) \<Rightarrow>
         if \<not> fr \<and> route_json_ok B a \<and> mi_conflict (lib_matchit B) (map fst (T v)) (ra_path a) = None
         then (fr, T(v := T v @ [(ra_path a, e)])) else (fr, T)
     | _ \<Rightarrow> (fr, T))"

fun spec_exec :: "('k, 'c) libs \<Rightarrow> app_op \<Rightarrow> 'k route_spec \<Rightarrow> 'k route_spec" where
  "spec_exec B (AddRoute a) S = spec_add B a S"
| "spec_exec B Freeze S = (True, snd S)"
| "spec_exec B op S = S"

definition spec_new :: "'k route_spec" where
  "spec_new = (False, \<lambda>v. [])"

definition spec_match :: "matchit \<Rightarrow> (string \<times> 'k route_entry) list \<Rightarrow> string \<Rightarrow> ('k route_entry \<times> path_params) option" where
  "spec_match M tbl path =
     Option.bind (mi_best M (map fst tbl) path) (\<lambda>(t, ps). map_option (\<lambda>e. (e, ps)) (map_of tbl t))"

section \<open>The abstraction\<close>

fun live_router :: "'k app_state \<Rightarrow> verb \<Rightarrow> nat router" where
  "live_router st Get = r_get st" | "live_router st Post = r_post st" | "live_router st Put = r_put st"
| "live_router st Patch = r_patch st" | "live_router st Delete = r_delete st" | "live_router st Options = r_options st"

fun compiled_router :: "compiled_routers \<Rightarrow> verb \<Rightarrow> nat router" where
  "compiled_router c Get = c_get c" | "compiled_router c Post = c_post c" | "compiled_router c Put = c_put c"
| "compiled_router c Patch = c_patch c" | "compiled_router c Delete = c_delete c" | "compiled_router c Options = c_options c"

definition resolve :: "'e list \<Rightarrow> nat router \<Rightarrow> (string \<times> 'e) list" where
  "resolve tbl r = map (\<lambda>(t, i). (t, tbl ! i)) r"

definition abs_app :: "'k app_state \<Rightarrow> 'k route_spec" where
  "abs_app st = (frozen st, \<lambda>v. resolve (routes st) (live_router st v))"

lemma verb_router: "map_method_router st m = map_option (live_router st) (verb_of m)"
  "router_for_compiled c m = map_option (compiled_router c) (verb_of m)"
  by (simp_all add: map_method_router_def router_for_compiled_def verb_of_def)

lemma live_router_set:
  "verb_of m = Some v \<Longrightarrow> live_router (set_method_router m r st) v' = (if v' = v then r else live_router st v')"
  by (cases v') (auto simp: verb_of_def set_method_router_def split: if_splits)

lemma set_method_router_other [simp]:
  "routes (set_method_router m r st) = routes st" "frozen (set_method_router m r st) = frozen st"
  by (simp_all add: set_method_router_def)

lemma map_fst_resolve [simp]: "map fst (resolve tbl r) = map fst r"
  by (simp add: resolve_def case_prod_unfold comp_def)

lemma live_router_ok: "core_ok st \<Longrightarrow> router_ok (length (routes st)) (live_router st v)"
  by (cases v) (simp_all add: core_okD)

lemma resolve_append: "router_ok (length tbl) r \<Longrightarrow> resolve (tbl @ xs) r = resolve tbl r"
  by (auto simp: resolve_def router_ok_def nth_append)

lemma router_at_resolve:
  "map_option (\<lambda>(i, ps). (tbl ! i, ps)) (router_at M path r) = spec_match M (resolve tbl r) path"
proof -
  have "map_of (resolve tbl r) t = map_option (\<lambda>i. tbl ! i) (map_of r t)" for t
    by (simp add: resolve_def map_of_map)
  then show ?thesis
    by (auto simp: router_at_def spec_match_def map_option_bind option.map_comp comp_def case_prod_unfold
        intro!: bind_option_cong)
qed

section \<open>Every operation refines its specification\<close>

lemma insert_route_abs:
  assumes "core_ok st" "verb_of m = Some v"
  shows "abs_app (fst (insert_route B m p (length (routes st)) (st\<lparr>routes := routes st @ [e], openapi := d\<rparr>))) =
    (frozen st, let T = snd (abs_app st) in
       if mi_conflict (lib_matchit B) (map fst (T v)) p = None then T(v := T v @ [(p, e)]) else T)"
proof -
  let ?st = "st\<lparr>routes := routes st @ [e], openapi := d\<rparr>"
  have live: "live_router ?st v' = live_router st v'" for v' by (cases v') simp_all
  have upd: "live_router (s\<lparr>path_method_masks := pm, compiled := c\<rparr>) v' = live_router s v'"
    "live_router (rebuild_snapshot s) v' = live_router s v'" for s :: "'a app_state" and pm c v'
    by (cases v'; simp add: rebuild_snapshot_def)+
  have old: "resolve (routes st @ [e]) (live_router st v') = resolve (routes st) (live_router st v')" for v'
    by (rule resolve_append [OF live_router_ok [OF assms(1)]])
  show ?thesis
  proof (cases "mi_conflict (lib_matchit B) (map fst (live_router st v)) p")
    case None
    have snoc: "resolve (routes st @ [e]) (live_router st v @ [(p, length (routes st))]) =
        resolve (routes st) (live_router st v) @ [(p, e)]"
      using old [of v] by (simp add: resolve_def)
    then show ?thesis
      using None by (auto simp: abs_app_def insert_route_def verb_router assms(2) live router_insert_def Let_def
          upd live_router_set [OF assms(2)] old fun_eq_iff)
        (simp add: rebuild_snapshot_def old)+
  next
    case (Some x)
    then show ?thesis
      by (auto simp: abs_app_def insert_route_def verb_router assms(2) live router_insert_def old)
  qed
qed

lemma add_route_abs:
  assumes "app_ok st"
  shows "abs_app (fst (add_route B a st)) = spec_add B a (abs_app st)"
proof -
  have core: "core_ok st" using assms by (simp add: app_ok_def)
  have push: "abs_app (st\<lparr>routes := routes st @ [e]\<rparr>) = abs_app st" "abs_app (st\<lparr>routes := routes st @ [e], openapi := d\<rparr>) = abs_app st" for e d
  proof -
    have "live_router (st\<lparr>routes := routes st @ [e]\<rparr>) v = live_router st v"
      "live_router (st\<lparr>routes := routes st @ [e], openapi := d\<rparr>) v = live_router st v" for v by (cases v; simp)+
    then show "abs_app (st\<lparr>routes := routes st @ [e]\<rparr>) = abs_app st"
      "abs_app (st\<lparr>routes := routes st @ [e], openapi := d\<rparr>) = abs_app st"
      by (simp_all add: abs_app_def resolve_append [OF live_router_ok [OF core]])
  qed
  have bad: "abs_app (fst (insert_route B m p i (st\<lparr>routes := routes st @ [e], openapi := d\<rparr>))) = abs_app st"
    if "verb_of m = None" for m p i e d
    using that push(2) by (simp add: insert_route_def verb_router)
  show ?thesis
  proof (cases "verb_of (ra_method a)")
    case None
    then show ?thesis
      by (auto simp: add_route_def spec_add_def Let_def push bad abs_app_def [symmetric] split: rust.split prod.split)
  next
    case (Some v)
    obtain T where T: "abs_app st = (frozen st, T)" by (simp add: abs_app_def)
    show ?thesis
      by (auto simp: add_route_def spec_add_def Some route_json_ok_def Let_def push insert_route_abs [OF core Some] T
          rbind_case split: rust.split prod.split)
  qed
qed

text \<open>The other operations change nothing that the routing reads, or freeze it.\<close>

lemma abs_app_same:
  "routes s = routes t \<Longrightarrow> live_routers s = live_routers t \<Longrightarrow> frozen s = frozen t \<Longrightarrow> abs_app s = abs_app t"
proof -
  assume a: "routes s = routes t" "live_routers s = live_routers t" "frozen s = frozen t"
  have "live_router s v = live_router t v" for v using a(2) by (cases v) (simp_all add: live_routers_def)
  with a show ?thesis by (simp add: abs_app_def)
qed

lemma abs_app_rebuild [simp]: "abs_app (rebuild_snapshot st) = abs_app st"
  by (rule abs_app_same) (simp_all add: rebuild_snapshot_def live_routers_def)

lemma abs_app_frozen: "abs_app (st\<lparr>frozen := True\<rparr>) = (True, snd (abs_app st))"
proof -
  have "live_router (st\<lparr>frozen := True\<rparr>) v = live_router st v" for v by (cases v) simp_all
  then show ?thesis by (simp add: abs_app_def)
qed

lemma app_exec_refines:
  assumes "app_ok st"
  shows "abs_app (app_exec B op st) = spec_exec B op (abs_app st)"
proof (cases op)
  case (AddRoute a)
  then show ?thesis using add_route_abs [OF assms] by simp
next
  case Freeze
  have "abs_app (s\<lparr>compiled := c\<rparr>) = abs_app s" for s :: "'a app_state" and c
    by (rule abs_app_same) (simp_all add: live_routers_def)
  then show ?thesis
    by (simp add: Freeze freeze_def Let_def abs_app_frozen split: option.split rust.split)
qed (auto intro!: abs_app_same simp: live_routers_def add_websocket_route_def ensure_compiled_snapshot_def
      set_openapi_served_def set_openapi_title_def set_openapi_version_def set_openapi_info_def app_openapi_json_def
      add_exception_handler_def set_middleware_def add_middleware_def set_cors_def set_security_headers_def
      setup_database_def close_database_def rebuild_snapshot_def Let_def split: rust.split option.split prod.split)

lemma run_refines: "app_ok st \<Longrightarrow> abs_app (fold (app_exec B) ops st) = fold (spec_exec B) ops (abs_app st)"
proof (induction ops arbitrary: st)
  case (Cons op ops)
  then show ?case by (simp add: app_exec_ok app_exec_refines)
qed simp

section \<open>What is published\<close>

text \<open>The published table is a prefix of the live one, and published routers are the live ones.\<close>

definition published :: "'k app_state \<Rightarrow> bool" where
  "published st \<longleftrightarrow> (\<exists>xs. routes st = f_routes (snapshot st) @ xs)
     \<and> (\<forall>c v. f_compiled (snapshot st) = Some c \<longrightarrow> compiled_router c v = live_router st v)"

lemma current_live_router: "current st c \<Longrightarrow> compiled_router c v = live_router st v"
  by (cases v) (simp_all add: current_def)

lemma live_router_rebuild [simp]: "live_router (rebuild_snapshot st) v = live_router st v"
  by (cases v) (simp_all add: rebuild_snapshot_def)

lemma published_rebuild: "core_ok st \<Longrightarrow> published (rebuild_snapshot st)"
  using core_okD(9) [of st] current_live_router [of st]
  by (auto simp: published_def) (simp_all add: rebuild_snapshot_def frozen_view_def)

lemma published_same:
  assumes "published s" "snapshot t = snapshot s" "live_routers t = live_routers s" "\<exists>xs. routes t = routes s @ xs"
  shows "published t"
proof -
  have "live_router t v = live_router s v" for v using assms(3) by (cases v) (simp_all add: live_routers_def)
  then show ?thesis using assms by (auto simp: published_def)
qed

lemma core_of_published: "app_ok (rebuild_snapshot st) \<Longrightarrow> published (rebuild_snapshot st)"
  by (rule published_rebuild) (simp add: app_ok_def core_ok_rebuild)

text \<open>An operation either publishes its result, or leaves what was published as it is.\<close>

definition keeps_or_publishes :: "'k app_state \<Rightarrow> 'k app_state \<Rightarrow> bool" where
  "keeps_or_publishes s t \<longleftrightarrow> (\<exists>u. t = rebuild_snapshot u)
     \<or> snapshot t = snapshot s \<and> live_routers t = live_routers s \<and> (\<exists>xs. routes t = routes s @ xs)"

lemma kp_refl: "keeps_or_publishes s s"
  by (simp add: keeps_or_publishes_def)

lemma kp_same:
  "snapshot t = snapshot s \<Longrightarrow> live_routers t = live_routers s \<Longrightarrow> routes t = routes s @ xs \<Longrightarrow> keeps_or_publishes s t"
  by (auto simp: keeps_or_publishes_def)

lemma kp_rebuild: "keeps_or_publishes s (rebuild_snapshot t)"
  by (auto simp: keeps_or_publishes_def)

lemma insert_route_publishes:
  "keeps_or_publishes st (fst (insert_route B m p i (st\<lparr>routes := routes st @ es, openapi := d\<rparr>)))"
  by (auto simp: insert_route_def Let_def live_routers_def intro!: kp_rebuild kp_same split: option.split rust.split)

lemma app_exec_publishes: "keeps_or_publishes st (app_exec B op st)"
proof (cases op)
  case (AddRoute a)
  then show ?thesis
    by (auto simp: add_route_def Let_def live_routers_def intro!: insert_route_publishes kp_refl kp_same
        split: rust.split prod.split)
qed (auto simp: live_routers_def add_websocket_route_def ensure_compiled_snapshot_def freeze_def
      set_openapi_served_def set_openapi_title_def set_openapi_version_def set_openapi_info_def app_openapi_json_def
      add_exception_handler_def set_middleware_def add_middleware_def set_cors_def set_security_headers_def
      setup_database_def close_database_def Let_def intro!: kp_rebuild kp_refl kp_same [where xs = "[]"]
      split: rust.split option.split prod.split)

lemma app_exec_published: "app_ok st \<Longrightarrow> published st \<Longrightarrow> published (app_exec B op st)"
  using app_exec_publishes [of st B op] app_exec_ok [of st B op]
  by (auto simp: keeps_or_publishes_def intro: core_of_published published_same)

interpretation publishing: op_machine "app_exec B" "\<lambda>st. app_ok st \<and> published st" for B
  by unfold_locales (simp add: app_exec_ok app_exec_published)

lemma published_new: "published (app_new b)"
  by (simp add: published_def app_new_def app_state_new_def)

lemma abs_app_new: "abs_app (app_new b) = (spec_new :: 'k route_spec)"
proof -
  have "live_router (app_new b :: 'k app_state) = (\<lambda>v. [])"
  proof
    show "live_router (app_new b :: 'k app_state) v = []" for v by (cases v) (simp_all add: app_new_def app_state_new_def)
  qed
  then show ?thesis by (simp add: abs_app_def spec_new_def resolve_def)
qed

text \<open>
  C3. A request reaches the route that was registered for it: over any sequence of
  operations, failed ones included, what the published snapshot finds for a method and a
  path is exactly what the specification finds: the entry that \<open>add_route\<close> built for the
  template that the router picks among the templates accepted for that kind of request,
  with its parameters; nothing where the router picks none; and for an unsupported method
  no router at all. So indices never go astray, whatever failed in between.
\<close>

theorem routes_as_registered:
  assumes "st = fold (app_exec B) ops (app_new b)" "f_compiled (hot_snapshot st) = Some c"
  shows "map_option (map_option (\<lambda>(i, ps). (f_routes (hot_snapshot st) ! i, ps))) (match_route_compiled M c m path)
    = map_option (\<lambda>v. spec_match M (snd (fold (spec_exec B) ops spec_new) v) path) (verb_of m)"
proof -
  have "app_ok st \<and> published st"
    unfolding assms(1) using publishing.run_inv [of "app_new b" B ops] app_new_ok published_new by blast
  then obtain xs where xs: "routes st = f_routes (snapshot st) @ xs" and app: "app_ok st"
    and live: "compiled_router c v = live_router st v" for v
    using assms(2) by (auto simp: published_def hot_snapshot_def)
  have c: "compiled_ok (length (f_routes (snapshot st))) (length (f_websocket_routes (snapshot st))) c"
    using app assms(2) by (simp add: app_ok_def snapshot_ok_def hot_snapshot_def)
  have "router_ok (length (f_routes (snapshot st))) (compiled_router c v)" for v
    using c by (cases v) (simp_all add: compiled_ok_def)
  then have "resolve (f_routes (snapshot st)) (compiled_router c v) = snd (abs_app st) v" for v
    by (simp add: abs_app_def xs resolve_append live [symmetric])
  moreover have "abs_app st = fold (spec_exec B) ops spec_new"
    unfolding assms(1) run_refines [OF app_new_ok] abs_app_new ..
  ultimately show ?thesis
    by (simp add: match_route_compiled_def verb_router option.map_comp comp_def router_at_resolve hot_snapshot_def)
qed

theorem routes_as_registered_witness:
  "map_option (\<lambda>(e, ps). (handler e, ps))
     (spec_match sample_matchit (snd (fold (spec_exec sample_libs) sample_ops spec_new) Get) ''/a/5'')
   = Some (PyStr ''h'', [(''id'', ''5'')])"
proof -
  obtain c where c: "f_compiled (hot_snapshot sample_state) = Some c"
    "match_route_compiled sample_matchit c ''GET'' ''/a/5'' = Some (Some (0, [(''id'', ''5'')]))"
    using sample_match by blast
  have h: "handler (f_routes (hot_snapshot sample_state) ! 0) = PyStr ''h''" by code_simp
  have "verb_of ''GET'' = Some Get" by (simp add: verb_of_def)
  then have "spec_match sample_matchit (snd (fold (spec_exec sample_libs) sample_ops spec_new) Get) ''/a/5''
      = Some (f_routes (hot_snapshot sample_state) ! 0, [(''id'', ''5'')])"
    using routes_as_registered [OF sample_state_def c(1), of sample_matchit "''GET''" "''/a/5''"] c(2) by simp
  then show ?thesis using h by simp
qed

end
