(* ===== verification/Loops.thy ===== *)
theory Loops
  imports Dependency
begin

text \<open>
  The \<open>while\<close> loop of \<open>topological_sort\<close> in \<open>src/src/dependency.rs\<close>, as a loop that may run
  forever: its value is \<open>None\<close> when it does. It returns for every list of dependencies,
  cyclic ones included, after at most one iteration per node.
\<close>

section \<open>The loop, without a measure\<close>

partial_function (option) kahn_loop :: "(string \<times> string list) list \<Rightarrow> string list \<Rightarrow> degrees
    \<Rightarrow> string list \<Rightarrow> (string list, string) rust option" where
  "kahn_loop A queue deg order =
     (if queue = [] then Some (Ok order)
      else case map_of A (last queue) of
             None \<Rightarrow> kahn_loop A (butlast queue) deg (order @ [last queue])
           | Some dependents \<Rightarrow>
               (case relax dependents deg [] of
                  Ok r \<Rightarrow> kahn_loop A (butlast queue @ rev (sort (snd r))) (fst r) (order @ [last queue])
                | Err e \<Rightarrow> Some (Err e)
                | Panic m \<Rightarrow> Some (Panic m)))"

lemma kahn_loop_returns: "kahn_loop A queue deg order = Some (kahn A queue deg order)"
proof (induction A queue deg order rule: kahn.induct)
  case (1 A queue deg order)
  then show ?case
    by (subst kahn_loop.simps, subst kahn.simps) (auto simp: Let_def split: option.split rust.split)
qed

text \<open>The loop from the queue it starts with.\<close>

definition sort_loop :: "dep_graph \<Rightarrow> (string list, string) rust option" where
  "sort_loop g =
     kahn_loop (adj g) (sort (map fst (filter (\<lambda>(n, d). d = 0) (in_degrees g)))) (in_degrees g) []"

text \<open>
  C20. The sort of the dependencies terminates: for every list of dependencies, cyclic ones
  included, the \<open>while\<close> loop returns, without a panic, after at most as many iterations as
  there are nodes (each pushes one name), and what it returns decides the sort.
\<close>

theorem dependency_sort_terminates:
  "\<exists>order. sort_loop (build_graph_from_entries es) = Some (Ok order)
     \<and> length order \<le> length (nodes (build_graph_from_entries es))
     \<and> topological_sort (build_graph_from_entries es) =
         (if length order = length (nodes (build_graph_from_entries es)) then Ok order
          else Err ''dependency cycle detected'')"
proof -
  let ?g = "build_graph_from_entries es"
  obtain order deg where r: "kahn (adj ?g) (sort (map fst (filter (\<lambda>(n, d). d = 0) (in_degrees ?g))))
      (in_degrees ?g) [] = Ok order" and inv: "kahn_inv ?g [] deg order"
    using kahn_returns [OF build_graph_ok kahn_inv_start [OF build_graph_ok]] by blast
  have "distinct order" "set order \<subseteq> set (nodes ?g)" using inv by (auto simp: kahn_inv_def)
  then have "length order \<le> length (nodes ?g)"
    using card_mono [of "set (nodes ?g)" "set order"] graph_okD(1) [OF build_graph_ok, of es]
    by (simp add: distinct_card)
  with r show ?thesis
    by (simp add: sort_loop_def kahn_loop_returns topological_sort_def Let_def)
qed

end
