(* ===== verification/Wire.thy ===== *)
theory Wire
  imports Json PyObj
begin

text \<open>
  The third-party code of the request path: the URL decoder, the multipart parser (a
  boundary from a content type; the fields or an error text), and the JSON parser and
  printers of \<open>serde_json\<close>.
\<close>

record form_field =
  ff_name :: "string option"
  ff_filename :: "string option"
  ff_content_type :: "string option"
  ff_data :: "(bytes, string) rust"
  ff_text :: "(string, string) rust"

record wire_libs =
  w_urldec :: "bytes \<Rightarrow> (string \<times> string) list"
  w_boundary :: "string \<Rightarrow> string option"
  w_multipart :: "bytes \<Rightarrow> string \<Rightarrow> (form_field, string) rust list"
  w_json_parse :: "bytes \<Rightarrow> (json, string) rust"
  w_json_str :: "string \<Rightarrow> string"
  w_json_f64 :: "f64 \<Rightarrow> string"

end
