(* ===== verification/Body.thy ===== *)
theory Body
  imports Wire
begin

text \<open>
  \<open>src/src/buffer_pool.rs\<close>, \<open>src/src/config.rs\<close> and \<open>src/src/form.rs\<close>: the request body
  as it comes from Python, the limits from the environment variables and the two form
  encodings. The URL decoder and the multipart parser are third-party (\<open>wire_libs\<close>).
\<close>

section \<open>The request body\<close>

datatype request_body = BodyPy bytes | BodyBytes bytes | BodyEmpty

fun extract_u8 :: "pyobj \<Rightarrow> char option" where
  "extract_u8 (PyInt i) = (if 0 \<le> i \<and> i < 256 then Some (char_of (nat i)) else None)"
| "extract_u8 (PyBool b) = Some (char_of (if b then 1 else 0 :: nat))"
| "extract_u8 _ = None"

text \<open>\<open>extract::<Vec<u8>>\<close>: bytes, or a sequence of integers below 256.\<close>

fun extract_bytes :: "pyobj \<Rightarrow> bytes option" where
  "extract_bytes (PyBytes b) = Some b"
| "extract_bytes (PyByteArray b) = Some b"
| "extract_bytes v = extract_vec extract_u8 v"

definition from_py_any :: "pyobj \<Rightarrow> request_body \<times> pyobj option" where
  "from_py_any b =
     (case b of
        PyBytes v \<Rightarrow> (BodyPy v, Some b)
      | PyByteArray v \<Rightarrow> (BodyPy v, None)
      | PyStr s \<Rightarrow> (BodyBytes s, None)
      | _ \<Rightarrow> (case extract_bytes b of Some v \<Rightarrow> (BodyBytes v, None) | None \<Rightarrow> (BodyEmpty, None)))"

fun as_bytes :: "request_body \<Rightarrow> bytes" where
  "as_bytes (BodyPy b) = b"
| "as_bytes (BodyBytes v) = v"
| "as_bytes BodyEmpty = []"

definition body_len :: "request_body \<Rightarrow> nat" where
  "body_len b = length (as_bytes b)"

definition body_is_empty :: "request_body \<Rightarrow> bool" where
  "body_is_empty b \<longleftrightarrow> as_bytes b = []"

section \<open>Settings\<close>

definition parse_bool_env :: "string \<Rightarrow> bool" where
  "parse_bool_env v \<longleftrightarrow> v = ''1'' \<or> eq_ignore_ascii_case v ''true''"

text \<open>The argument is the value of the variable, if it is set.\<close>

definition oxyroute_debug :: "string option \<Rightarrow> bool" where
  "oxyroute_debug var = (case var of Some v \<Rightarrow> parse_bool_env v | None \<Rightarrow> False)"

definition max_body_bytes :: "string option \<Rightarrow> u64" where
  "max_body_bytes var =
     (case Option.bind var parse_u64 of
        None \<Rightarrow> 8 * 1024 * 1024
      | Some n \<Rightarrow> if n = 0 then - 1 else n)"

section \<open>Forms\<close>

record parsed_file =
  pf_name :: string
  pf_filename :: "string option"
  pf_content_type :: string
  pf_data :: bytes

definition parse_urlencoded_form :: "wire_libs \<Rightarrow> bytes \<Rightarrow> (string \<times> string) list" where
  "parse_urlencoded_form L body =
     (if body = [] then [] else fold (\<lambda>(k, v) m. al_put k v m) (w_urldec L body) [])"

text \<open>
  The loop over the fields: one with a file name is a file, another one a form value; the
  first error ends it.
\<close>

fun multipart_fields :: "(form_field, string) rust list \<Rightarrow> (string \<times> string) list \<Rightarrow> parsed_file list
    \<Rightarrow> ((string \<times> string) list \<times> parsed_file list, string) rust" where
  "multipart_fields [] form files = Ok (form, files)"
| "multipart_fields (r # rs) form files =
     rbind r (\<lambda>f.
       let name = (case ff_name f of Some n \<Rightarrow> n | None \<Rightarrow> ''field'') in
       case ff_filename f of
         Some fname \<Rightarrow>
           rbind (ff_data f) (\<lambda>data.
             multipart_fields rs form (files @
               [\<lparr>pf_name = name, pf_filename = Some fname,
                 pf_content_type = (case ff_content_type f of
                    Some ct \<Rightarrow> ct | None \<Rightarrow> ''application/octet-stream''),
                 pf_data = data\<rparr>]))
       | None \<Rightarrow> rbind (ff_text f) (\<lambda>txt. multipart_fields rs (al_put name txt form) files))"

definition parse_multipart :: "wire_libs \<Rightarrow> bytes \<Rightarrow> string
    \<Rightarrow> ((string \<times> string) list \<times> parsed_file list, string) rust" where
  "parse_multipart L body boundary = multipart_fields (w_multipart L body boundary) [] []"

section \<open>Facts\<close>

text \<open>
  The limit is never zero; \<open>0\<close> in the variable means every length that a \<open>u64\<close> holds,
  and what is not a number leaves the default of 8 MiB in force.
\<close>

lemma max_body_bytes_cases:
  "max_body_bytes var \<noteq> 0"
  "Option.bind var parse_u64 = None \<Longrightarrow> unat (max_body_bytes var) = 8388608"
  "Option.bind var parse_u64 = Some 0 \<Longrightarrow> unat (max_body_bytes var) = 2 ^ 64 - 1"
proof -
  have "unat (- 1 :: u64) = 2 ^ 64 - 1" by (simp add: unsigned_minus_1_eq_mask mask_eq_exp_minus_1)
  then show "Option.bind var parse_u64 = Some 0 \<Longrightarrow> unat (max_body_bytes var) = 2 ^ 64 - 1"
    by (simp add: max_body_bytes_def)
qed (auto simp: max_body_bytes_def split: option.split)

lemma from_py_any_passthrough: "from_py_any b = (body, Some o1) \<Longrightarrow> o1 = b \<and> b = PyBytes (as_bytes body)"
  by (cases b) (auto simp: from_py_any_def split: option.splits)

end
