(* ===== verification/Schema.thy ===== *)
theory Schema
  imports Wire
begin

text \<open>
  \<open>src/src/schema.rs\<close>: JSON to Python and back. The parser of \<open>serde_json\<close> and its
  printers of strings and floats are arguments (\<open>wire_libs\<close>); the traversal, the order of
  the type tests, the ranges, the nesting bound and the separators are the code's.
\<close>

section \<open>JSON to Python\<close>

definition json_number_to_py :: "jnum \<Rightarrow> pyobj" where
  "json_number_to_py n =
     (case n of JPos u \<Rightarrow> PyInt (uint u) | JNeg i \<Rightarrow> PyInt i | JFloat f \<Rightarrow> PyFloat f)"

fun json_value_to_py :: "json \<Rightarrow> pyobj" where
  "json_value_to_py JNull = PyNone"
| "json_value_to_py (JBool b) = PyBool b"
| "json_value_to_py (JNum n) = json_number_to_py n"
| "json_value_to_py (JStr s) = PyStr s"
| "json_value_to_py (JArr items) = PyList (map json_value_to_py items)"
| "json_value_to_py (JObj m) =
     PyDict (fold (\<lambda>(k, v). dict_set (PyStr k) v) (map (\<lambda>(k, v). (k, json_value_to_py v)) m) [])"

definition json_to_py :: "json \<Rightarrow> pyobj" where
  "json_to_py v = json_value_to_py v"

text \<open>
  The visitor builds the objects while the parser reads, without a \<open>serde_json::Value\<close>:
  what the parser reads comes as a \<open>json\<close> value, the members of an object in the order of
  the text, repeated keys included. The errors are the parser's.
\<close>

fun visit :: "json \<Rightarrow> pyobj" and visit_seq :: "json list \<Rightarrow> pyobj list \<Rightarrow> pyobj list"
  and visit_map :: "(string \<times> json) list \<Rightarrow> (pyobj \<times> pyobj) list \<Rightarrow> (pyobj \<times> pyobj) list" where
  "visit JNull = PyNone"
| "visit (JBool b) = PyBool b"
| "visit (JNum (JPos u)) = PyInt (uint u)"
| "visit (JNum (JNeg i)) = PyInt i"
| "visit (JNum (JFloat f)) = PyFloat f"
| "visit (JStr s) = PyStr s"
| "visit (JArr items) = PyList (visit_seq items [])"
| "visit (JObj m) = PyDict (visit_map m [])"
| "visit_seq [] acc = acc"
| "visit_seq (v # vs) acc = visit_seq vs (acc @ [visit v])"
| "visit_map [] acc = acc"
| "visit_map ((k, v) # m) acc = visit_map m (dict_set (PyStr k) (visit v) acc)"

definition json_bytes_to_py :: "wire_libs \<Rightarrow> bytes \<Rightarrow> (pyobj, string) rust" where
  "json_bytes_to_py L b = rbind (w_json_parse L b) (\<lambda>v. Ok (visit v))"

lemma visit_json_value_to_py:
  "visit v = json_value_to_py v"
  "visit_seq vs acc = acc @ map json_value_to_py vs"
  "visit_map m d = fold (\<lambda>(k, v). dict_set (PyStr k) v) (map (\<lambda>(k, v). (k, json_value_to_py v)) m) d"
  by (induction v and vs acc and m d rule: visit_visit_seq_visit_map.induct)
    (simp_all add: json_number_to_py_def)

section \<open>Python to JSON\<close>

text \<open>\<open>extract::<i64>\<close>, then \<open>u64\<close>, then \<open>i128\<close>: the widths are tried in turn.\<close>

definition int_text :: "int \<Rightarrow> string option" where
  "int_text i =
     (if - (2 ^ 63) \<le> i \<and> i < 2 ^ 63 then Some (show_int i)
      else if 0 \<le> i \<and> i < 2 ^ 64 then Some (show_int i)
      else if - (2 ^ 127) \<le> i \<and> i < 2 ^ 127 then Some (show_int i)
      else None)"

fun f64_is_finite :: "f64 \<Rightarrow> bool" where
  "f64_is_finite (Fin x) = True" | "f64_is_finite _ = False"

fun py_type_name :: "pyobj \<Rightarrow> string" where
  "py_type_name (PyBytes b) = ''bytes''"
| "py_type_name (PyByteArray b) = ''bytearray''"
| "py_type_name (PyObject c attrs) = c"
| "py_type_name _ = []"

fun sep_items :: "string pyres list \<Rightarrow> string pyres" where
  "sep_items [] = Ok []"
| "sep_items [r] = r"
| "sep_items (r # s # rs) = rbind r (\<lambda>a. rbind (sep_items (s # rs)) (\<lambda>b. Ok (a @ '', '' @ b)))"

text \<open>One member of a dict: its key must be a \<open>str\<close>.\<close>

definition write_member :: "wire_libs \<Rightarrow> pyobj \<Rightarrow> string pyres \<Rightarrow> string pyres" where
  "write_member L k rest =
     (case k of
        PyStr s \<Rightarrow> rbind rest (\<lambda>t. Ok (w_json_str L s @ '': '' @ t))
      | _ \<Rightarrow> type_error ''JSON dict key must be str'')"

fun write_py_json :: "wire_libs \<Rightarrow> nat \<Rightarrow> pyobj \<Rightarrow> string pyres" where
  "write_py_json L depth obj =
     (if 128 < depth then value_error ''maximum JSON nesting depth exceeded''
      else case obj of
        PyNone \<Rightarrow> Ok ''null''
      | PyBool b \<Rightarrow> Ok (if b then ''true'' else ''false'')
      | PyInt i \<Rightarrow> (case int_text i of
            Some s \<Rightarrow> Ok s
          | None \<Rightarrow> value_error ''integer exceeds 128-bit range for native JSON'')
      | PyFloat f \<Rightarrow> if f64_is_finite f then Ok (w_json_f64 L f)
                    else value_error ''non-finite float in JSON''
      | PyStr s \<Rightarrow> Ok (w_json_str L s)
      | PyDict d \<Rightarrow> rbind (sep_items (map (\<lambda>(k, v). write_member L k (write_py_json L (Suc depth) v)) d))
                      (\<lambda>t. Ok (''{'' @ t @ ''}''))
      | PyList l \<Rightarrow> rbind (sep_items (map (write_py_json L (Suc depth)) l)) (\<lambda>t. Ok (''['' @ t @ '']''))
      | PyTuple l \<Rightarrow> rbind (sep_items (map (write_py_json L (Suc depth)) l)) (\<lambda>t. Ok (''['' @ t @ '']''))
      | _ \<Rightarrow> type_error (''unsupported type for native JSON serialization: '' @ py_type_name obj))"

declare write_py_json.simps [simp del]

definition py_to_json_bytes :: "wire_libs \<Rightarrow> pyobj \<Rightarrow> bytes pyres" where
  "py_to_json_bytes L obj = write_py_json L 0 obj"

section \<open>What the native printer prints\<close>

text \<open>The text of a JSON value, with the separators of \<open>json.dumps\<close>.\<close>

fun json_text :: "wire_libs \<Rightarrow> json \<Rightarrow> string" where
  "json_text L JNull = ''null''"
| "json_text L (JBool b) = (if b then ''true'' else ''false'')"
| "json_text L (JNum n) =
     (case n of JPos u \<Rightarrow> show_u64 u | JNeg i \<Rightarrow> show_int i | JFloat f \<Rightarrow> w_json_f64 L f)"
| "json_text L (JStr s) = w_json_str L s"
| "json_text L (JArr items) = ''['' @ join '', '' (map (json_text L) items) @ '']''"
| "json_text L (JObj m) =
     ''{'' @ join '', '' (map (\<lambda>(k, v). w_json_str L k @ '': '' @ json_text L v) m) @ ''}''"

text \<open>How many containers a value of the document is in, at most.\<close>

fun json_depth :: "json \<Rightarrow> nat" where
  "json_depth (JArr items) = foldr max (map (\<lambda>v. Suc (json_depth v)) items) 0"
| "json_depth (JObj m) = foldr max (map (\<lambda>(k, v). Suc (json_depth v)) m) 0"
| "json_depth _ = 0"

text \<open>
  What the parser promises of the numbers that it reads: \<open>visit_i64\<close> gets a negative
  \<open>i64\<close>, and a float that is not finite is an error (\<open>number out of range\<close>). It does not
  promise distinct keys: \<open>json_ok\<close> asks for them too, in the lemmas on the printer.
\<close>

fun jnum_ok :: "jnum \<Rightarrow> bool" where
  "jnum_ok (JPos u) = True"
| "jnum_ok (JNeg i) = (- (2 ^ 63) \<le> i \<and> i < 0)"
| "jnum_ok (JFloat f) = f64_is_finite f"

fun json_ok :: "json \<Rightarrow> bool" where
  "json_ok (JArr items) = list_all json_ok items"
| "json_ok (JObj m) = (distinct (map fst m) \<and> list_all (\<lambda>(k, v). json_ok v) m)"
| "json_ok (JNum n) = jnum_ok n"
| "json_ok _ = True"

fun json_nums_ok :: "json \<Rightarrow> bool" where
  "json_nums_ok (JArr items) = list_all json_nums_ok items"
| "json_nums_ok (JObj m) = list_all (\<lambda>(k, v). json_nums_ok v) m"
| "json_nums_ok (JNum n) = jnum_ok n"
| "json_nums_ok _ = True"

text \<open>
  The members of an object as a dict has them: a repeated key stands once, where it came
  first, with the value that came last.
\<close>

fun merge_repeated :: "json \<Rightarrow> json" where
  "merge_repeated (JArr items) = JArr (map merge_repeated items)"
| "merge_repeated (JObj m) = JObj (fold (\<lambda>(k, v). al_put k v) (map (\<lambda>(k, v). (k, merge_repeated v)) m) [])"
| "merge_repeated j = j"

lemma foldr_max_le: "foldr max xs 0 \<le> (n :: nat) \<longleftrightarrow> (\<forall>x\<in>set xs. x \<le> n)"
  by (induction xs) auto

lemma sep_items_map:
  "sep_items (map (\<lambda>x. if P x then Ok (f x) else Err e) xs) =
    (if \<forall>x\<in>set xs. P x then Ok (join '', '' (map f xs)) else Err e)"
proof (induction xs)
  case (Cons x xs)
  then show ?case by (cases xs) auto
qed simp

lemma sep_items_cong:
  "(\<And>x. x \<in> set xs \<Longrightarrow> g x = (if P x then Ok (f x) else Err e)) \<Longrightarrow>
    sep_items (map g xs) = (if \<forall>x\<in>set xs. P x then Ok (join '', '' (map f xs)) else Err e)"
  by (subst sep_items_map [symmetric]) (auto intro: arg_cong [of _ _ sep_items])

lemma al_put_new: "k \<notin> fst ` set m \<Longrightarrow> al_put k v m = m @ [(k, v)]"
  by (induction k v m rule: al_put.induct) auto

lemma dict_of_distinct:
  "distinct (map fst m) \<Longrightarrow> PyStr ` (fst ` set m) \<inter> fst ` set acc = {} \<Longrightarrow>
    fold (\<lambda>(k, v). dict_set (PyStr k) v) m acc = acc @ map (\<lambda>(k, v). (PyStr k, v)) m"
proof (induction m arbitrary: acc)
  case (Cons kv m)
  obtain k v where kv: "kv = (k, v)" by (cases kv)
  have "PyStr k \<notin> fst ` set acc" using Cons.prems(2) kv by auto
  then have "dict_set (PyStr k) v acc = acc @ [(PyStr k, v)]"
    by (simp add: dict_set_def al_put_new)
  moreover have "PyStr ` (fst ` set m) \<inter> fst ` set (acc @ [(PyStr k, v)]) = {}"
    using Cons.prems kv by (auto simp: image_iff)
  ultimately show ?case using Cons kv by simp
qed simp

lemma json_value_to_py_obj:
  "distinct (map fst m) \<Longrightarrow>
    json_value_to_py (JObj m) = PyDict (map (\<lambda>(k, v). (PyStr k, json_value_to_py v)) m)"
  by (subst json_value_to_py.simps, subst dict_of_distinct)
    (auto simp: comp_def case_prod_beta)

lemma int_text_json:
  "jnum_ok n \<Longrightarrow> \<not> 128 < d \<Longrightarrow> write_py_json L d (json_number_to_py n) = Ok (json_text L (JNum n))"
proof (cases n)
  case (JPos u)
  assume "\<not> 128 < d"
  have "0 \<le> uint u" "uint u < 2 ^ 64" using unsigned_less [of u] by auto
  then have "int_text (uint u) = Some (show_int (uint u))" by (auto simp: int_text_def)
  with JPos \<open>\<not> 128 < d\<close> show ?thesis
    by (simp add: json_number_to_py_def write_py_json.simps [of L d] show_u64_def show_int_def)
next
  case (JNeg i)
  assume "jnum_ok n" "\<not> 128 < d"
  with JNeg have "int_text i = Some (show_int i)" by (auto simp: int_text_def)
  with JNeg \<open>\<not> 128 < d\<close> show ?thesis
    by (simp add: json_number_to_py_def write_py_json.simps [of L d])
next
  case (JFloat f)
  assume "jnum_ok n" "\<not> 128 < d"
  with JFloat show ?thesis by (simp add: json_number_to_py_def write_py_json.simps [of L d])
qed

lemma write_py_json_deep:
  "128 < d \<Longrightarrow> write_py_json L d p = value_error ''maximum JSON nesting depth exceeded''"
  by (simp add: write_py_json.simps [of L d])

lemma write_json_value:
  "json_ok j \<Longrightarrow> write_py_json L d (json_value_to_py j) =
    (if d + json_depth j \<le> 128 then Ok (json_text L j)
     else value_error ''maximum JSON nesting depth exceeded'')"
proof (induction j arbitrary: d)
  case (JNum n)
  then show ?case
    using int_text_json [of n d L] by (cases "128 < d") (simp_all add: write_py_json_deep)
next
  case (JArr items)
  show ?case
  proof (cases "128 < d")
    case True
    then show ?thesis by (simp add: write_py_json.simps [of L d])
  next
    case False
    have "sep_items (map (\<lambda>v. write_py_json L (Suc d) (json_value_to_py v)) items) =
        (if \<forall>v\<in>set items. Suc d + json_depth v \<le> 128 then Ok (join '', '' (map (json_text L) items))
         else value_error ''maximum JSON nesting depth exceeded'')"
      using JArr.prems by (intro sep_items_cong JArr.IH) (auto simp: list_all_iff)
    moreover have "d + json_depth (JArr items) \<le> 128 \<longleftrightarrow> (\<forall>v\<in>set items. Suc d + json_depth v \<le> 128)"
      using False foldr_max_le [of "map (\<lambda>v. Suc (json_depth v)) items" "128 - d"] by auto
    ultimately show ?thesis
      using False by (simp add: write_py_json.simps [of L d] comp_def)
  qed
next
  case (JObj m)
  show ?case
  proof (cases "128 < d")
    case True
    then show ?thesis using JObj.prems by (simp add: json_value_to_py_obj write_py_json.simps [of L d] del: json_value_to_py.simps)
  next
    case False
    let ?t = "\<lambda>kv. w_json_str L (fst kv) @ '': '' @ json_text L (snd kv)"
    have ih: "write_py_json L (Suc d) (json_value_to_py v) =
        (if Suc d + json_depth v \<le> 128 then Ok (json_text L v)
         else value_error ''maximum JSON nesting depth exceeded'')" if "(k, v) \<in> set m" for k v
      using JObj.prems that by (intro JObj.IH [of "(k, v)"]) (auto simp: list_all_iff)
    have "sep_items (map (\<lambda>kv. write_member L (PyStr (fst kv)) (write_py_json L (Suc d) (json_value_to_py (snd kv)))) m) =
        (if \<forall>kv\<in>set m. Suc d + json_depth (snd kv) \<le> 128 then Ok (join '', '' (map ?t m))
         else value_error ''maximum JSON nesting depth exceeded'')"
      by (intro sep_items_cong) (auto simp: write_member_def ih)
    moreover have "d + json_depth (JObj m) \<le> 128 \<longleftrightarrow> (\<forall>kv\<in>set m. Suc d + json_depth (snd kv) \<le> 128)"
      using False foldr_max_le [of "map (\<lambda>(k, v). Suc (json_depth v)) m" "128 - d"]
      by (auto simp: case_prod_beta)
    moreover have "?t = (\<lambda>(k, v). w_json_str L k @ '': '' @ json_text L v)" by (simp add: fun_eq_iff)
    ultimately show ?thesis
      using False JObj.prems
      by (simp add: json_value_to_py_obj write_py_json.simps [of L d] comp_def case_prod_beta
          del: json_value_to_py.simps)
  qed
qed (auto simp: write_py_json.simps [of L d for d])

section \<open>Repeated keys\<close>

lemma members_fold_distinct:
  "distinct (map fst m) \<Longrightarrow> distinct (map fst acc) \<Longrightarrow> fst ` set m \<inter> fst ` set acc = {} \<Longrightarrow>
    fold (\<lambda>(k, v). al_put k v) m acc = acc @ m"
proof (induction m arbitrary: acc)
  case (Cons kv m)
  obtain k v where kv: "kv = (k, v)" by (cases kv)
  have "al_put k v acc = acc @ [(k, v)]" using Cons.prems(3) kv by (intro al_put_new) auto
  then show ?case using Cons.IH [of "acc @ [(k, v)]"] Cons.prems kv by auto
qed simp

lemma fold_al_put_ok:
  "distinct (map fst acc) \<Longrightarrow> list_all (\<lambda>(k, v). Q v) m \<Longrightarrow> list_all (\<lambda>(k, v). Q v) acc \<Longrightarrow>
    distinct (map fst (fold (\<lambda>(k, v). al_put k v) m acc))
    \<and> list_all (\<lambda>(k, v). Q v) (fold (\<lambda>(k, v). al_put k v) m acc)"
proof (induction m arbitrary: acc)
  case (Cons kv m)
  obtain k v where kv: "kv = (k, v)" by (cases kv)
  have "list_all (\<lambda>(k, v). Q v) (al_put k v acc)"
    using Cons.prems kv set_al_put_subset [of k v acc] by (auto simp: list_all_iff)
  then show ?case using Cons kv by simp
qed simp

lemma merge_repeated_ok: "json_nums_ok j \<Longrightarrow> json_ok (merge_repeated j)"
proof (induction j)
  case (JObj m)
  have "list_all (\<lambda>(k, v). json_ok v) (map (\<lambda>(k, v). (k, merge_repeated v)) m)"
    using JObj.prems JObj.IH by (fastforce simp: list_all_iff)
  from fold_al_put_ok [OF _ this, of "[]"] show ?case by simp
qed (auto simp: list_all_iff)

lemma merge_repeated_distinct: "json_ok j \<Longrightarrow> merge_repeated j = j"
proof (induction j)
  case (JObj m)
  have same: "map (\<lambda>(k, v). (k, merge_repeated v)) m = m"
    using JObj.prems JObj.IH by (intro map_idI) (fastforce simp: list_all_iff)
  from JObj.prems show ?case by (simp add: same members_fold_distinct)
qed (auto simp: list_all_iff intro: map_idI)

text \<open>The dict of the members is the dict of the merged members.\<close>

lemma dict_of_merged:
  "fold (\<lambda>(k, v). dict_set (PyStr k) v) (map (\<lambda>(k, v). (k, f v)) m) (map (\<lambda>(k, v). (PyStr k, f v)) acc) =
    map (\<lambda>(k, v). (PyStr k, f v)) (fold (\<lambda>(k, v). al_put k v) m acc)"
proof (induction m arbitrary: acc)
  case (Cons kv m)
  obtain k v where kv: "kv = (k, v)" by (cases kv)
  have "dict_set (PyStr k) (f v) (map (\<lambda>(k, v). (PyStr k, f v)) acc) =
      map (\<lambda>(k, v). (PyStr k, f v)) (al_put k v acc)"
    by (induction k v acc rule: al_put.induct) (auto simp: dict_set_def)
  then show ?case using Cons.IH [of "al_put k v acc"] kv by simp
qed simp

lemma merge_repeated_same_value: "json_value_to_py (merge_repeated j) = json_value_to_py j"
proof (induction j)
  case (JObj m)
  let ?m = "map (\<lambda>(k, v). (k, merge_repeated v)) m"
  let ?M = "fold (\<lambda>(k, v). al_put k v) ?m []"
  have "distinct (map fst ?M)" using fold_al_put_ok [of "[]" "\<lambda>_. True" ?m] by (simp add: list_all_iff)
  then have "json_value_to_py (JObj ?M) = PyDict (map (\<lambda>(k, v). (PyStr k, json_value_to_py v)) ?M)"
    by (rule json_value_to_py_obj)
  also have "\<dots> = PyDict (fold (\<lambda>(k, v). dict_set (PyStr k) v) (map (\<lambda>(k, v). (k, json_value_to_py v)) ?m) [])"
    using dict_of_merged [of json_value_to_py ?m "[]"] by simp
  also have "map (\<lambda>(k, v). (k, json_value_to_py v)) ?m = map (\<lambda>(k, v). (k, json_value_to_py v)) m"
    using JObj.IH by fastforce
  finally show ?case by simp
qed simp_all

text \<open>
  C26. A handler that returns the JSON it was given sends it as Python read it: the parsed
  document denotes the Python value of the document with the repeated keys of each object
  merged (last value, first place), and the native printer writes the text of that document,
  up to 128 levels of nesting; beyond that it refuses (and the caller asks \<open>json.dumps\<close>),
  never a truncated document. A document without repeated keys is written as it was parsed.
\<close>

theorem json_echo:
  assumes "w_json_parse L b = Ok j" "json_nums_ok j"
  shows "\<exists>p. json_bytes_to_py L b = Ok p \<and> p = visit (merge_repeated j)
    \<and> py_to_json_bytes L p =
      (if json_depth (merge_repeated j) \<le> 128 then Ok (json_text L (merge_repeated j))
       else value_error ''maximum JSON nesting depth exceeded'')
    \<and> (json_ok j \<longrightarrow> merge_repeated j = j)"
  using write_json_value [OF merge_repeated_ok [OF assms(2)], of L 0] assms(1)
  by (simp add: py_to_json_bytes_def json_bytes_to_py_def visit_json_value_to_py merge_repeated_same_value
      merge_repeated_distinct)

text \<open>A parser for the witnesses: a list, and an object with a repeated key.\<close>

definition sample_parse :: "bytes \<Rightarrow> (json, string) rust" where
  "sample_parse b =
     (if b = ''[1]'' then Ok (JArr [JNum (JPos 1)])
      else if b = ''{a:true,b:null,a:false}''
      then Ok (JObj [(''a'', JBool True), (''b'', JNull), (''a'', JBool False)])
      else Err ''bad'')"

definition sample_wire :: wire_libs where
  "sample_wire = \<lparr>w_urldec = (\<lambda>b. [(b, [])]), w_boundary = (\<lambda>ct. None), w_multipart = (\<lambda>b bd. []),
     w_json_parse = sample_parse,
     w_json_str = dquoted, w_json_f64 = (\<lambda>f. ''0.5'')\<rparr>"

theorem json_echo_witness:
  "(\<exists>p. json_bytes_to_py sample_wire ''[1]'' = Ok p \<and> py_to_json_bytes sample_wire p = Ok ''[1]'')
    \<and> (\<exists>p. json_bytes_to_py sample_wire ''{a:true,b:null,a:false}'' = Ok p
        \<and> py_to_json_bytes sample_wire p = Ok (''{'' @ dquoted ''a'' @ '': false, '' @ dquoted ''b'' @ '': null}''))"
proof
  have parse: "w_json_parse sample_wire ''[1]'' = Ok (JArr [JNum (JPos 1)])"
    by (simp add: sample_wire_def sample_parse_def)
  have "json_text sample_wire (JArr [JNum (JPos 1)]) = ''[1]''"
    by (simp add: show_u64_def show_nat.simps) code_simp
  with json_echo [OF parse]
  show "\<exists>p. json_bytes_to_py sample_wire ''[1]'' = Ok p \<and> py_to_json_bytes sample_wire p = Ok ''[1]''" by simp
  let ?j = "JObj [(''a'', JBool True), (''b'', JNull), (''a'', JBool False)]"
  have parse2: "w_json_parse sample_wire ''{a:true,b:null,a:false}'' = Ok ?j"
    by (simp add: sample_wire_def sample_parse_def)
  have "json_text sample_wire (merge_repeated ?j) = ''{'' @ dquoted ''a'' @ '': false, '' @ dquoted ''b'' @ '': null}''"
    by (simp add: sample_wire_def)
  with json_echo [OF parse2]
  show "\<exists>p. json_bytes_to_py sample_wire ''{a:true,b:null,a:false}'' = Ok p
    \<and> py_to_json_bytes sample_wire p = Ok (''{'' @ dquoted ''a'' @ '': false, '' @ dquoted ''b'' @ '': null}'')"
    by simp
qed

end
