(* ===== verification/Db.thy ===== *)
theory Db
  imports Schema
begin

text \<open>
  \<open>src/src/db.rs\<close>: the query object, the binding of its arguments, the decoding of a row and
  the collection of the rows, in one list or in chunks. What the driver \<open>sqlx\<close> answers (the
  columns of a row and their values read at a Rust type, the stream of rows) is data.
\<close>

section \<open>Queries\<close>

record db_query =
  dq_query :: string
  dq_args :: pyobj
  dq_chunk :: "u64 option"

definition db_query_new :: "string \<Rightarrow> pyobj option \<Rightarrow> u64 option \<Rightarrow> db_query pyres" where
  "db_query_new q args chunk =
     rbind (case args of
              None \<Rightarrow> Ok (PyTuple [])
            | Some a \<Rightarrow> (case a of
                 PyTuple t \<Rightarrow> Ok (PyTuple t)
               | PyList l \<Rightarrow> Ok (PyTuple l)
               | _ \<Rightarrow> type_error ''args must be a list or tuple of query parameters''))
       (\<lambda>as. if chunk = Some 0 then value_error ''chunk_size must be greater than 0''
             else Ok \<lparr>dq_query = q, dq_args = as, dq_chunk = chunk\<rparr>)"

datatype sql_arg = SqlNull | SqlBool bool | SqlInt int | SqlFloat f64 | SqlText string

definition bind_arg :: "pyobj \<Rightarrow> sql_arg pyres" where
  "bind_arg arg =
     (case arg of
        PyNone \<Rightarrow> Ok SqlNull
      | PyBool b \<Rightarrow> Ok (SqlBool b)
      | PyInt i \<Rightarrow> if - (2 ^ 63) \<le> i \<and> i < 2 ^ 63 then Ok (SqlInt i)
                   else Err (PyErr ''OverflowError'' ''out of range'')
      | PyFloat f \<Rightarrow> Ok (SqlFloat f)
      | PyStr s \<Rightarrow> Ok (SqlText s)
      | _ \<Rightarrow> value_error ''Unsupported DBQuery argument type: '')"

fun bind_args :: "pyobj list \<Rightarrow> sql_arg list pyres" where
  "bind_args [] = Ok []"
| "bind_args (x # xs) = rbind (bind_arg x) (\<lambda>a. rbind (bind_args xs) (\<lambda>as. Ok (a # as)))"

definition query_args :: "db_query \<Rightarrow> sql_arg list pyres" where
  "query_args q =
     (case dq_args q of PyTuple xs \<Rightarrow> bind_args xs | _ \<Rightarrow> type_error ''Expected args to be a tuple: '')"

section \<open>Rows\<close>

text \<open>The Rust types a column is decoded at, and the decoded values.\<close>

datatype rust_ty = TBool | TI16 | TI32 | TI64 | TF32 | TF64 | TDecimal | TString | TJson | TUuid
  | TDate | TTime | TDateTime | TDateTimeUtc | TBytes

datatype pg_value = VBool bool | VInt int | VFloat f64 | VText string | VJson json | VBytes bytes

record pg_column =
  pc_name :: string
  pc_raw_error :: "string option"
  pc_null :: bool
  pc_type :: string
  pc_decode :: "rust_ty \<Rightarrow> (pg_value, string) rust"

definition decode_type :: "string \<Rightarrow> rust_ty option" where
  "decode_type ty =
     (if ty = ''BOOL'' then Some TBool
      else if ty = ''INT2'' then Some TI16
      else if ty = ''INT4'' then Some TI32
      else if ty = ''INT8'' then Some TI64
      else if ty = ''FLOAT4'' then Some TF32
      else if ty = ''FLOAT8'' then Some TF64
      else if ty = ''NUMERIC'' \<or> ty = ''DECIMAL'' then Some TDecimal
      else if ty \<in> {''TEXT'', ''VARCHAR'', ''CHAR'', dquoted ''CHAR'', ''NAME'', ''CITEXT'', ''BPCHAR''} then Some TString
      else if ty = ''JSON'' \<or> ty = ''JSONB'' then Some TJson
      else if ty = ''UUID'' then Some TUuid
      else if ty = ''DATE'' then Some TDate
      else if ty = ''TIME'' \<or> ty = ''TIMETZ'' then Some TTime
      else if ty = ''TIMESTAMP'' then Some TDateTime
      else if ty = ''TIMESTAMPTZ'' then Some TDateTimeUtc
      else if ty = ''BYTEA'' then Some TBytes
      else None)"

fun py_of_pg :: "pg_value \<Rightarrow> pyobj" where
  "py_of_pg (VBool b) = PyBool b"
| "py_of_pg (VInt i) = PyInt i"
| "py_of_pg (VFloat f) = PyFloat f"
| "py_of_pg (VText s) = PyStr s"
| "py_of_pg (VJson j) = json_to_py j"
| "py_of_pg (VBytes b) = PyBytes b"

text \<open>\<open>stringify!\<close> of the type.\<close>

fun rust_ty_name :: "rust_ty \<Rightarrow> string" where
  "rust_ty_name TBool = ''bool''" | "rust_ty_name TI16 = ''i16''" | "rust_ty_name TI32 = ''i32''"
| "rust_ty_name TI64 = ''i64''" | "rust_ty_name TF32 = ''f32''" | "rust_ty_name TF64 = ''f64''"
| "rust_ty_name TDecimal = ''rust_decimal::Decimal''" | "rust_ty_name TString = ''String''"
| "rust_ty_name TJson = ''serde_json::Value''" | "rust_ty_name TUuid = ''uuid::Uuid''"
| "rust_ty_name TDate = ''chrono::NaiveDate''" | "rust_ty_name TTime = ''chrono::NaiveTime''"
| "rust_ty_name TDateTime = ''chrono::NaiveDateTime''"
| "rust_ty_name TDateTimeUtc = ''chrono::DateTime<chrono::Utc>''" | "rust_ty_name TBytes = ''Vec<u8>''"

definition decode_column :: "nat \<Rightarrow> pg_column \<Rightarrow> pyobj pyres" where
  "decode_column i col =
     (case pc_raw_error col of
        Some e \<Rightarrow> value_error (''Failed to get raw column '' @ quoted (pc_name col) @ '' at index ''
                    @ show_nat i @ '': '' @ e)
      | None \<Rightarrow>
         if pc_null col then Ok PyNone
         else (case decode_type (pc_type col) of
             Some t \<Rightarrow>
               (case pc_decode col t of
                  Ok v \<Rightarrow> Ok (py_of_pg v)
                | Err e \<Rightarrow> value_error (''Failed to decode column '' @ quoted (pc_name col)
                    @ '' (type '' @ pc_type col @ '') as '' @ rust_ty_name t @ '': '' @ e)
                | Panic m \<Rightarrow> Panic m)
           | None \<Rightarrow>
               (case pc_decode col TString of
                  Ok v \<Rightarrow> Ok (py_of_pg v)
                | Err e \<Rightarrow> value_error (''Failed to decode column '' @ quoted (pc_name col)
                    @ '' (unsupported Postgres type '' @ quoted (pc_type col) @ '')'')
                | Panic m \<Rightarrow> Panic m)))"

fun decode_columns :: "nat \<Rightarrow> pg_column list \<Rightarrow> (pyobj \<times> pyobj) list \<Rightarrow> (pyobj \<times> pyobj) list pyres" where
  "decode_columns i [] d = Ok d"
| "decode_columns i (col # cols) d =
     rbind (decode_column i col) (\<lambda>v. decode_columns (Suc i) cols (dict_set (PyStr (pc_name col)) v d))"

definition decode_pg_row_to_dict :: "pg_column list \<Rightarrow> pyobj pyres" where
  "decode_pg_row_to_dict row = rbind (decode_columns 0 row []) (\<lambda>d. Ok (PyDict d))"

section \<open>The result of a query\<close>

text \<open>One step of the stream: the row as a dict, or the error of the driver.\<close>

definition next_row :: "(pg_column list, string) rust \<Rightarrow> pyobj pyres" where
  "next_row r =
     (case r of
        Ok row \<Rightarrow> decode_pg_row_to_dict row
      | Err e \<Rightarrow> runtime_error (''DBQuery streaming failed: '' @ e)
      | Panic m \<Rightarrow> Panic m)"

fun collect_rows :: "(pg_column list, string) rust list \<Rightarrow> pyobj list \<Rightarrow> pyobj list pyres" where
  "collect_rows [] out = Ok out"
| "collect_rows (r # rs) out = rbind (next_row r) (\<lambda>d. collect_rows rs (out @ [d]))"

fun collect_chunks :: "nat \<Rightarrow> (pg_column list, string) rust list \<Rightarrow> pyobj list \<Rightarrow> pyobj list
    \<Rightarrow> pyobj list pyres" where
  "collect_chunks sz [] current chunks =
     Ok (if current \<noteq> [] then chunks @ [PyList current] else chunks)"
| "collect_chunks sz (r # rs) current chunks =
     rbind (next_row r) (\<lambda>d.
       let current' = current @ [d] in
       if sz \<le> length current' then collect_chunks sz rs [] (chunks @ [PyList current'])
       else collect_chunks sz rs current' chunks)"

text \<open>
  \<open>Vec::with_capacity(n)\<close> for the eight bytes of a \<open>PyObject\<close>: more than \<open>isize::MAX\<close> bytes
  panic, and so does (as an abort) an allocator that refuses them. \<open>A bytes\<close> says
  whether the allocator gives that many.
\<close>

definition with_capacity :: "(nat \<Rightarrow> bool) \<Rightarrow> u64 \<Rightarrow> unit pyres" where
  "with_capacity A n =
     (if 2 ^ 63 \<le> 8 * unat n then Panic ''capacity overflow''
      else if n \<noteq> 0 \<and> \<not> A (8 * unat n) then Panic ''memory allocation failed''
      else Ok ())"

definition execute_query :: "(nat \<Rightarrow> bool) \<Rightarrow> (pg_column list, string) rust list \<Rightarrow> db_query \<Rightarrow> pyobj pyres" where
  "execute_query A stream q =
     rbind (case dq_chunk q of
              Some sz \<Rightarrow> rbind (with_capacity A sz) (\<lambda>_. collect_chunks (unat sz) stream [] [])
            | None \<Rightarrow> collect_rows stream [])
       (\<lambda>out. Ok (PyList out))"

section \<open>Chunked and plain results agree\<close>

fun chunk_rows :: "pyobj \<Rightarrow> pyobj list" where
  "chunk_rows (PyList l) = l"
| "chunk_rows _ = []"

fun rmap :: "('a \<Rightarrow> 'b) \<Rightarrow> ('a, 'e) rust \<Rightarrow> ('b, 'e) rust" where
  "rmap f (Ok x) = Ok (f x)"
| "rmap f (Err e) = Err e"
| "rmap f (Panic m) = Panic m"

lemma rmap_rbind: "rmap f (rbind r g) = rbind r (\<lambda>x. rmap f (g x))"
  by (cases r) auto

text \<open>Every chunk but the last is full, and none is empty.\<close>

definition chunks_ok :: "nat \<Rightarrow> pyobj list \<Rightarrow> bool" where
  "chunks_ok sz cs \<longleftrightarrow>
     list_all (\<lambda>c. \<exists>l. c = PyList l \<and> length l = sz) (butlast cs)
     \<and> (cs \<noteq> [] \<longrightarrow> (\<exists>l. last cs = PyList l \<and> l \<noteq> [] \<and> length l \<le> sz))"

definition full :: "nat \<Rightarrow> pyobj \<Rightarrow> bool" where
  "full sz c \<longleftrightarrow> (\<exists>l. c = PyList l \<and> length l = sz)"

lemma collect_chunks_rows:
  "rmap (\<lambda>cs. concat (map chunk_rows cs)) (collect_chunks sz rs current chunks) =
    collect_rows rs (concat (map chunk_rows chunks) @ current)"
proof (induction sz rs current chunks rule: collect_chunks.induct)
  case (2 sz r rs current chunks)
  show ?case
  proof (cases "next_row r")
    case (Ok d)
    with 2 [OF Ok refl] show ?thesis by (auto simp: Let_def)
  qed auto
qed auto

lemma collect_chunks_sizes:
  "0 < sz \<Longrightarrow> list_all (full sz) chunks \<Longrightarrow> length current < sz \<Longrightarrow>
    collect_chunks sz rs current chunks = Ok cs \<Longrightarrow> chunks_ok sz cs"
proof (induction sz rs current chunks rule: collect_chunks.induct)
  case (1 sz current chunks)
  show ?case
  proof (cases "chunks = []")
    case True
    with 1 show ?thesis by (auto simp: chunks_ok_def)
  next
    case False
    with 1 have "list_all (full sz) (butlast chunks)" "full sz (last chunks)"
      by (auto simp: list_all_iff dest: in_set_butlastD)
    with 1 False show ?thesis
      by (auto simp: chunks_ok_def full_def list_all_iff split: if_splits)
  qed
next
  case (2 sz r rs current chunks)
  from "2.prems"(4) obtain d where d: "next_row r = Ok d" by auto
  show ?case
  proof (cases "sz \<le> length (current @ [d])")
    case True
    with "2.prems" have "full sz (PyList (current @ [d]))" by (simp add: full_def)
    with True d "2.prems" 2(1) [OF d refl True] show ?thesis by (simp add: Let_def)
  next
    case False
    with d "2.prems" 2(2) [OF d refl False] show ?thesis by (simp add: Let_def)
  qed
qed

lemma with_capacity_overflow:
  "2 ^ 60 \<le> unat n \<Longrightarrow> with_capacity A n = Panic ''capacity overflow''"
  by (simp add: with_capacity_def)

lemma with_capacity_given: "unat n < 2 ^ 60 \<Longrightarrow> A (8 * unat n) \<Longrightarrow> with_capacity A n = Ok ()"
  by (simp add: with_capacity_def)

text \<open>
  C34. \<open>chunk_size\<close> only groups, when its buffer can be allocated: a query that \<open>DBQuery\<close>
  accepts with a chunk size below \<open>2^60\<close> whose buffer the allocator gives returns the rows of
  the same query without one, in the same order, or fails with the same error; no chunk is
  empty and every chunk but the last is full. A size from \<open>2^60\<close> on is accepted too, and its
  query panics, whatever it returns: the buffer is allocated for a whole chunk in advance.
\<close>

theorem chunked_query_groups_rows:
  assumes "db_query_new s args (Some sz) = Ok q"
  shows "(unat sz < 2 ^ 60 \<and> A (8 * unat sz) \<longrightarrow>
      rmap (\<lambda>v. concat (map chunk_rows (chunk_rows v))) (execute_query A stream q) =
        rmap chunk_rows (execute_query A stream (q\<lparr>dq_chunk := None\<rparr>))
      \<and> (\<forall>v. execute_query A stream q = Ok v \<longrightarrow> chunks_ok (unat sz) (chunk_rows v)))
    \<and> (2 ^ 60 \<le> unat sz \<longrightarrow> execute_query A stream q = Panic ''capacity overflow'')"
proof (intro conjI impI)
  have q: "dq_chunk q = Some sz" "0 < unat sz"
    using assms by (auto simp: db_query_new_def unat_gt_0 split: if_splits)
  show "execute_query A stream q = Panic ''capacity overflow''" if "2 ^ 60 \<le> unat sz"
    using that q by (simp add: execute_query_def with_capacity_overflow)
  assume room: "unat sz < 2 ^ 60 \<and> A (8 * unat sz)"
  then have run: "execute_query A stream q = rbind (collect_chunks (unat sz) stream [] []) (\<lambda>out. Ok (PyList out))"
    using q by (simp add: execute_query_def with_capacity_given)
  have "rmap (\<lambda>v. concat (map chunk_rows (chunk_rows v))) (execute_query A stream q) =
      rmap (\<lambda>cs. concat (map chunk_rows cs)) (collect_chunks (unat sz) stream [] [])"
    unfolding run by (cases "collect_chunks (unat sz) stream [] []") auto
  also have "\<dots> = rmap chunk_rows (execute_query A stream (q\<lparr>dq_chunk := None\<rparr>))"
    using collect_chunks_rows [of "unat sz" stream "[]" "[]"]
    by (cases "collect_rows stream []") (auto simp: execute_query_def)
  finally show "rmap (\<lambda>v. concat (map chunk_rows (chunk_rows v))) (execute_query A stream q) =
      rmap chunk_rows (execute_query A stream (q\<lparr>dq_chunk := None\<rparr>))" .
  show "\<forall>v. execute_query A stream q = Ok v \<longrightarrow> chunks_ok (unat sz) (chunk_rows v)"
    using q(2) collect_chunks_sizes [of "unat sz" "[]" "[]" stream] unfolding run by auto
qed

theorem chunked_query_groups_rows_witness:
  "execute_query (\<lambda>n. n \<le> 4096) [Ok [], Ok [], Ok []] \<lparr>dq_query = ''q'', dq_args = PyTuple [], dq_chunk = Some 2\<rparr>
     = Ok (PyList [PyList [PyDict [], PyDict []], PyList [PyDict []]])
   \<and> chunks_ok 2 [PyList [PyDict [], PyDict []], PyList [PyDict []]]"
proof -
  have new: "db_query_new ''q'' None (Some 2) =
      Ok \<lparr>dq_query = ''q'', dq_args = PyTuple [], dq_chunk = Some 2\<rparr>" by (simp add: db_query_new_def)
  have run: "execute_query (\<lambda>n. n \<le> 4096) [Ok [], Ok [], Ok []] \<lparr>dq_query = ''q'', dq_args = PyTuple [], dq_chunk = Some 2\<rparr>
     = Ok (PyList [PyList [PyDict [], PyDict []], PyList [PyDict []]])"
    by (simp add: execute_query_def with_capacity_def next_row_def decode_pg_row_to_dict_def)
  from chunked_query_groups_rows [OF new, of "\<lambda>n. n \<le> 4096" "[Ok [], Ok [], Ok []]"] run show ?thesis by simp
qed

end
