(* ===== verification/Io.thy ===== *)
theory Io
  imports App Body Db
begin

text \<open>
  The effects of a request. Everything the dispatcher asks of the outside (the protocol
  object, a handler, a dependency, a middleware, an awaitable, a Python module, the
  database) is an \<open>action\<close>; the environment answers it from the actions of the request so
  far, so that a callable may keep any state of its own. A computation runs from a
  context, which holds the log of the actions with their answers and the state it shares
  with other requests, to a result: a value, the Python error that leaves the function by
  \<open>?\<close>, or a panic.
\<close>

section \<open>Actions\<close>

text \<open>The calls \<open>protocol.response_empty\<close>, \<open>response_str\<close> and \<open>response_bytes\<close>.\<close>

datatype reply =
    ResponseEmpty (rp_status: u16) (rp_headers: header_pairs)
  | ResponseStr (rp_status: u16) (rp_headers: header_pairs) (rp_text: string)
  | ResponseBytes (rp_status: u16) (rp_headers: header_pairs) (rp_bytes: bytes)

text \<open>What a Python callable is called as.\<close>

datatype role =
    RouteHandler
  | Factory string
  | RequestMiddleware
  | ResponseMiddleware
  | ExceptionHandler
  | ConfigPairs
  | BodyModel string
  | WsHandler
  | Helper string

datatype action =
    Respond reply
  | SetTemplate string
  | ReadBody
  | Call role pyobj "pyobj list" "(string \<times> pyobj) list"
  | IntoFuture pyobj
  | Await pyobj
  | IsInstance pyerr string
  | HasAttr pyobj string
  | RunQuery pool string "sql_arg list"
  | CloseSocket int

type_synonym log = "(action \<times> (pyerr + pyobj)) list"

section \<open>Environment and context\<close>

record 'k env =
  answer :: "log \<Rightarrow> action \<Rightarrow> pyerr + pyobj"
  clock :: "log \<Rightarrow> nat"
  env_rl :: rl_env
  env_libs :: "('k, json) libs"
  env_wire :: wire_libs
  env_debug :: bool
  env_max_body :: u64
  env_error_text :: "pyerr \<Rightarrow> string"
  env_rows :: "log \<Rightarrow> pool \<Rightarrow> string \<Rightarrow> sql_arg list \<Rightarrow> (pg_column list, string) rust list"
  env_alloc :: "nat \<Rightarrow> bool"
  env_query_order :: "(string \<times> string) list \<Rightarrow> (string \<times> string) list"

text \<open>\<open>env_alloc n\<close>: the allocator gives \<open>n\<close> bytes. \<open>env_rows\<close>: the stream of a query.\<close>

text \<open>\<open>lims i\<close> is the limiter of route \<open>i\<close>: one object that all snapshots share.\<close>

record 'k ctx =
  tr :: log
  lims :: "nat \<Rightarrow> limiter"
  app :: "'k app_state"

type_synonym ('k, 'a) io = "'k env \<Rightarrow> 'k ctx \<Rightarrow> 'a pyres \<times> 'k ctx"

section \<open>Combinators\<close>

definition ilift :: "'a pyres \<Rightarrow> ('k, 'a) io" where
  "ilift r = (\<lambda>W c. (r, c))"

definition ireturn :: "'a \<Rightarrow> ('k, 'a) io" where
  "ireturn x = ilift (Ok x)"

definition ibind :: "('k, 'a) io \<Rightarrow> ('a \<Rightarrow> ('k, 'b) io) \<Rightarrow> ('k, 'b) io" where
  "ibind m f = (\<lambda>W c. case m W c of
      (Ok x, c') \<Rightarrow> f x W c' | (Err e, c') \<Rightarrow> (Err e, c') | (Panic s, c') \<Rightarrow> (Panic s, c'))"

text \<open>\<open>match m { Ok(x) => k x, Err(e) => h e }\<close>\<close>

definition icase :: "('k, 'a) io \<Rightarrow> (pyerr \<Rightarrow> ('k, 'b) io) \<Rightarrow> ('a \<Rightarrow> ('k, 'b) io) \<Rightarrow> ('k, 'b) io" where
  "icase m h f = (\<lambda>W c. case m W c of
      (Ok x, c') \<Rightarrow> f x W c' | (Err e, c') \<Rightarrow> h e W c' | (Panic s, c') \<Rightarrow> (Panic s, c'))"

definition iask :: "('k env \<Rightarrow> 'a) \<Rightarrow> ('k, 'a) io" where
  "iask f = (\<lambda>W c. (Ok (f W), c))"

definition iget :: "('k ctx \<Rightarrow> 'a) \<Rightarrow> ('k, 'a) io" where
  "iget f = (\<lambda>W c. (Ok (f c), c))"

text \<open>An update of the shared state that returns a value; it leaves the log alone.\<close>

definition ishared :: "('k env \<Rightarrow> 'k ctx \<Rightarrow> 'a pyres \<times> (nat \<Rightarrow> limiter) \<times> 'k app_state) \<Rightarrow> ('k, 'a) io" where
  "ishared f = (\<lambda>W c. let (r, l, a) = f W c in (r, c\<lparr>lims := l, app := a\<rparr>))"

definition perform :: "action \<Rightarrow> ('k, pyobj) io" where
  "perform a = (\<lambda>W c. let r = answer W (tr c) a in
     (case r of Inl e \<Rightarrow> Err e | Inr v \<Rightarrow> Ok v, c\<lparr>tr := tr c @ [(a, r)]\<rparr>))"

definition ithen :: "('k, 'a) io \<Rightarrow> ('k, 'b) io \<Rightarrow> ('k, 'b) io" where
  "ithen m n = ibind m (\<lambda>_. n)"

text \<open>\<open>let _ = m;\<close>: an error is dropped.\<close>

definition iignore :: "('k, 'a) io \<Rightarrow> ('k, unit) io" where
  "iignore m = icase m (\<lambda>_. ireturn ()) (\<lambda>_. ireturn ())"

section \<open>What a computation adds to the log\<close>

text \<open>
  \<open>spec m Q\<close>: from every environment and context, the computation extends the log by
  some \<open>new\<close> entries that satisfy \<open>Q\<close> together with its result.
\<close>

definition spec :: "('k, 'a) io \<Rightarrow> ('a pyres \<Rightarrow> log \<Rightarrow> bool) \<Rightarrow> bool" where
  "spec m Q \<longleftrightarrow> (\<forall>W c. \<exists>new. tr (snd (m W c)) = tr c @ new \<and> Q (fst (m W c)) new)"

named_theorems spec_intros \<open>what the combinators add to the log\<close>

lemma spec_mono: "spec m Q \<Longrightarrow> (\<And>r n. Q r n \<Longrightarrow> Q' r n) \<Longrightarrow> spec m Q'"
  unfolding spec_def by blast

lemma spec_lift: "Q r [] \<Longrightarrow> spec (ilift r) Q"
  by (simp add: spec_def ilift_def)

lemma spec_return: "Q (Ok x) [] \<Longrightarrow> spec (ireturn x) Q"
  by (simp add: ireturn_def spec_lift)

lemma spec_ask: "(\<And>x. Q (Ok x) []) \<Longrightarrow> spec (iask f) Q"
  by (simp add: spec_def iask_def)

lemma spec_get: "(\<And>x. Q (Ok x) []) \<Longrightarrow> spec (iget f) Q"
  by (simp add: spec_def iget_def)

lemma spec_shared: "(\<And>r. Q r []) \<Longrightarrow> spec (ishared f) Q"
  by (simp add: spec_def ishared_def split: prod.split)

lemma spec_perform: "(\<And>e. Q (Err e) [(a, Inl e)]) \<Longrightarrow> (\<And>v. Q (Ok v) [(a, Inr v)]) \<Longrightarrow> spec (perform a) Q"
  by (auto simp: spec_def perform_def Let_def split: sum.split)

lemma spec_bind:
  assumes "spec m R"
    and "\<And>x n. R (Ok x) n \<Longrightarrow> spec (f x) (\<lambda>r n'. Q r (n @ n'))"
    and "\<And>e n. R (Err e) n \<Longrightarrow> Q (Err e) n"
    and "\<And>s n. R (Panic s) n \<Longrightarrow> Q (Panic s) n"
  shows "spec (ibind m f) Q"
  unfolding spec_def
proof (intro allI)
  fix W :: "'a env" and c :: "'a ctx"
  obtain n where n: "tr (snd (m W c)) = tr c @ n" "R (fst (m W c)) n"
    using assms(1) unfolding spec_def by blast
  show "\<exists>new. tr (snd (ibind m f W c)) = tr c @ new \<and> Q (fst (ibind m f W c)) new"
  proof (cases "m W c")
    case (Pair r c')
    show ?thesis
    proof (cases r)
      case (Ok x)
      with n Pair have "spec (f x) (\<lambda>r n'. Q r (n @ n'))" by (intro assms(2)) simp
      then obtain n' where "tr (snd (f x W c')) = tr c' @ n'" "Q (fst (f x W c')) (n @ n')"
        unfolding spec_def by blast
      with n Pair Ok show ?thesis by (intro exI [of _ "n @ n'"]) (simp add: ibind_def)
    qed (use n Pair assms(3,4) in \<open>auto simp: ibind_def\<close>)
  qed
qed

lemma spec_case:
  assumes "spec m R"
    and "\<And>x n. R (Ok x) n \<Longrightarrow> spec (f x) (\<lambda>r n'. Q r (n @ n'))"
    and "\<And>e n. R (Err e) n \<Longrightarrow> spec (h e) (\<lambda>r n'. Q r (n @ n'))"
    and "\<And>s n. R (Panic s) n \<Longrightarrow> Q (Panic s) n"
  shows "spec (icase m h f) Q"
  unfolding spec_def
proof (intro allI)
  fix W :: "'a env" and c :: "'a ctx"
  obtain n where n: "tr (snd (m W c)) = tr c @ n" "R (fst (m W c)) n"
    using assms(1) unfolding spec_def by blast
  obtain r c' where rc: "m W c = (r, c')" by fastforce
  have step: "\<exists>new. tr (snd (g W c')) = tr c @ new \<and> Q (fst (g W c')) new"
    if "spec g (\<lambda>r n'. Q r (n @ n'))" for g :: "('a, 'c) io"
    using that n rc unfolding spec_def by (metis append_assoc snd_conv)
  show "\<exists>new. tr (snd (icase m h f W c)) = tr c @ new \<and> Q (fst (icase m h f W c)) new"
    using n rc assms(2-4) step by (cases r) (auto simp: icase_def)
qed

subsection \<open>Which actions are performed\<close>

definition only :: "(action \<Rightarrow> bool) \<Rightarrow> ('k, 'a) io \<Rightarrow> bool" where
  "only A m \<longleftrightarrow> spec m (\<lambda>r n. list_all (\<lambda>(a, v). A a) n)"

lemma only_lift [spec_intros]: "only A (ilift r)"
  by (simp add: only_def spec_lift)

lemma only_return [spec_intros]: "only A (ireturn x)"
  by (simp add: only_def spec_return)

lemma only_ask [spec_intros]: "only A (iask f)"
  by (simp add: only_def spec_ask)

lemma only_get [spec_intros]: "only A (iget f)"
  by (simp add: only_def spec_get)

lemma only_shared [spec_intros]: "only A (ishared f)"
  by (simp add: only_def spec_shared)

lemma only_perform [spec_intros]: "A a \<Longrightarrow> only A (perform a)"
  by (simp add: only_def spec_perform)

lemma only_bind [spec_intros]: "only A m \<Longrightarrow> (\<And>x. only A (f x)) \<Longrightarrow> only A (ibind m f)"
  unfolding only_def by (erule spec_bind) (auto elim: spec_mono)

lemma only_case [spec_intros]:
  "only A m \<Longrightarrow> (\<And>e. only A (h e)) \<Longrightarrow> (\<And>x. only A (f x)) \<Longrightarrow> only A (icase m h f)"
  unfolding only_def by (erule spec_case) (auto elim: spec_mono)

lemma only_then [spec_intros]: "only A m \<Longrightarrow> only A n \<Longrightarrow> only A (ithen m n)"
  unfolding ithen_def by (rule only_bind)

lemma only_ignore [spec_intros]: "only A m \<Longrightarrow> only A (iignore m)"
  unfolding iignore_def by (intro spec_intros)

lemma only_mono: "only A m \<Longrightarrow> (\<And>a. A a \<Longrightarrow> B a) \<Longrightarrow> only B m"
  unfolding only_def by (erule spec_mono) (auto simp: list_all_iff)

lemma only_log:
  "only A m \<Longrightarrow> (a, v) \<in> set (tr (snd (m W c))) \<Longrightarrow> (a, v) \<in> set (tr c) \<or> A a"
  unfolding only_def spec_def
  by (metis (no_types, lifting) Un_iff list_all_iff case_prodD set_append)

subsection \<open>Responses\<close>

text \<open>A response is given when the protocol object takes it without raising.\<close>

fun accepted :: "action \<times> (pyerr + pyobj) \<Rightarrow> bool" where
  "accepted (Respond rp, Inr v) = True"
| "accepted _ = False"

definition responses :: "log \<Rightarrow> nat" where
  "responses n = length (filter accepted n)"

lemma responses_simps [simp]:
  "responses [] = 0" "responses (x # n) = (if accepted x then Suc (responses n) else responses n)"
  "responses (n @ n') = responses n + responses n'"
  by (simp_all add: responses_def)

text \<open>The value that says that the handler has written its response itself.\<close>

definition stream_done :: "pyobj \<Rightarrow> bool" where
  "stream_done o1 \<longleftrightarrow> getattr_as extract_bool ''__oxyroute_stream_done__'' o1 = Some True"

fun sentinel :: "action \<times> (pyerr + pyobj) \<Rightarrow> bool" where
  "sentinel (a, Inr v) = stream_done v"
| "sentinel (a, Inl e) = False"

text \<open>A computation that gives no response.\<close>

definition silent :: "('k, 'a) io \<Rightarrow> bool" where
  "silent m \<longleftrightarrow> only (\<lambda>a. \<not> (\<exists>rp. a = Respond rp)) m"

lemma not_Respond_silent: "list_all (\<lambda>(a, v). \<not> (\<exists>rp. a = Respond rp)) n \<Longrightarrow> responses n = 0"
proof (induction n)
  case (Cons x n)
  then show ?case by (cases x rule: accepted.cases) auto
qed simp

text \<open>
  A computation that settles the request: when it returns, it has given exactly one
  response, or none because the value \<open>S\<close> or an answer in the log is a stream sentinel;
  when it raises or panics, none.
\<close>

definition settled :: "bool \<Rightarrow> 'a pyres \<Rightarrow> log \<Rightarrow> bool" where
  "settled S r n \<longleftrightarrow> (case r of
      Ok _ \<Rightarrow> responses n = 1 \<or> responses n = 0 \<and> (S \<or> list_ex sentinel n)
    | _ \<Rightarrow> responses n = 0)"

definition settles :: "bool \<Rightarrow> ('k, 'a) io \<Rightarrow> bool" where
  "settles S m \<longleftrightarrow> spec m (settled S)"

lemma settled_mono: "settled S r n \<Longrightarrow> (S \<Longrightarrow> S') \<Longrightarrow> settled S' r n"
  by (auto simp: settled_def split: rust.splits)

lemma settled_after:
  "responses n = 0 \<Longrightarrow> settled S' r n' \<Longrightarrow> (S' \<Longrightarrow> S \<or> list_ex sentinel n) \<Longrightarrow> settled S r (n @ n')"
  by (auto simp: settled_def split: rust.splits)

lemma settled_fail [simp]:
  "settled S (Err e) n \<longleftrightarrow> responses n = 0" "settled S (Panic s) n \<longleftrightarrow> responses n = 0"
  by (simp_all add: settled_def)

lemma settles_mono: "settles S m \<Longrightarrow> (S \<Longrightarrow> S') \<Longrightarrow> settles S' m"
  unfolding settles_def by (erule spec_mono) (rule settled_mono)

lemma settles_err [spec_intros]: "settles S (ilift (Err e))"
  by (simp add: settles_def spec_lift)

lemma settles_panic [spec_intros]: "settles S (ilift (Panic e))"
  by (simp add: settles_def spec_lift)

lemma settles_done: "settles True (ireturn x)"
  by (simp add: settles_def settled_def spec_return)

lemma settles_respond [spec_intros]: "settles S (perform (Respond rp))"
  by (simp add: settles_def settled_def spec_perform)

text \<open>
  What comes first gives no response; the rest may rely on a sentinel that it has logged.
\<close>

lemma settles_quiet_case:
  assumes m: "spec m (\<lambda>r n. responses n = 0 \<and> (\<forall>x. r = Ok x \<and> D x \<longrightarrow> list_ex sentinel n))"
    and h: "\<And>e. settles S (h e)" and f: "\<And>x. settles (S \<or> D x) (f x)"
  shows "settles S (icase m h f)"
  unfolding settles_def
proof (rule spec_case [OF m])
  fix x n assume "responses n = 0 \<and> (\<forall>x'. Ok x = Ok x' \<and> D x' \<longrightarrow> list_ex sentinel n)"
  then show "spec (f x) (\<lambda>r n'. settled S r (n @ n'))"
    using f [of x] unfolding settles_def by (elim spec_mono) (auto elim!: settled_after)
next
  fix e :: pyerr and n assume "responses n = 0 \<and> (\<forall>x. Err e = Ok x \<and> D x \<longrightarrow> list_ex sentinel n)"
  then show "spec (h e) (\<lambda>r n'. settled S r (n @ n'))"
    using h [of e] unfolding settles_def by (elim spec_mono) (auto elim!: settled_after)
qed simp

lemma silent_spec: "silent m \<Longrightarrow> spec m (\<lambda>r n. responses n = 0)"
  unfolding silent_def only_def by (erule spec_mono) (rule not_Respond_silent)

lemma settles_silent_case [spec_intros]:
  assumes "silent m" "\<And>e. settles S (h e)" "\<And>x. settles S (f x)"
  shows "settles S (icase m h f)"
  using assms by (intro settles_quiet_case [where D = "\<lambda>_. False"]) (simp_all add: silent_spec)

lemma ibind_icase: "ibind m f = icase m (\<lambda>e. ilift (Err e)) f"
  by (auto simp: ibind_def icase_def ilift_def fun_eq_iff split: prod.split rust.split)

lemma settles_silent_bind [spec_intros]:
  "silent m \<Longrightarrow> (\<And>x. settles S (f x)) \<Longrightarrow> settles S (ibind m f)"
  unfolding ibind_icase by (intro settles_silent_case settles_err)

lemma settles_silent_then [spec_intros]: "silent m \<Longrightarrow> settles S n \<Longrightarrow> settles S (ithen m n)"
  unfolding ithen_def by (rule settles_silent_bind)

text \<open>A call whose value is then mapped: its answer is in the log.\<close>

lemma settles_call_case:
  assumes "\<not> (\<exists>rp. a = Respond rp)"
    and "\<And>e. settles S (h e)" and "\<And>x. settles (S \<or> stream_done x) (f x)"
  shows "settles S (icase (perform a) h f)"
proof (rule settles_quiet_case [where D = stream_done])
  show "spec (perform a) (\<lambda>r n. responses n = 0 \<and> (\<forall>x. r = Ok x \<and> stream_done x \<longrightarrow> list_ex sentinel n))"
    using assms(1) by (intro spec_perform) (cases a; auto)+
qed (use assms in auto)

lemma settles_call_bind:
  "\<not> (\<exists>rp. a = Respond rp) \<Longrightarrow> (\<And>x. settles (S \<or> stream_done x) (f x))
    \<Longrightarrow> settles S (ibind (perform a) f)"
  unfolding ibind_icase by (intro settles_call_case settles_err)

text \<open>A second attempt after one that failed, and a value that is dropped.\<close>

lemma settles_retry [spec_intros]:
  assumes m: "settles S m" and h: "\<And>e. settles S (h e)"
  shows "settles S (icase m h (\<lambda>x. ireturn (g x)))"
  unfolding settles_def
proof (rule spec_case [OF m [unfolded settles_def]])
  fix e :: pyerr and n assume "settled S (Err e) n"
  then show "spec (h e) (\<lambda>r n'. settled S r (n @ n'))"
    using h [of e] unfolding settles_def by (elim spec_mono) (auto elim!: settled_after)
qed (auto simp: settled_def intro: spec_return)

lemma settles_map [spec_intros]: "settles S m \<Longrightarrow> settles S (ibind m (\<lambda>x. ireturn (g x)))"
  unfolding ibind_icase by (intro settles_retry settles_err)

lemma settles_run:
  assumes "settles S m"
  shows "\<exists>new. tr (snd (m W c)) = tr c @ new \<and>
    (case fst (m W c) of
       Ok _ \<Rightarrow> responses new = 1 \<or> responses new = 0 \<and> (S \<or> list_ex sentinel new)
     | _ \<Rightarrow> responses new = 0)"
  using assms unfolding settles_def spec_def settled_def by blast

lemma silent_intros [spec_intros]:
  "silent (ilift r)" "silent (ireturn x)" "silent (iask f)" "silent (iget f')" "silent (ishared f'')"
  "\<not> (\<exists>rp. a = Respond rp) \<Longrightarrow> silent (perform a)"
  by (auto simp: silent_def intro: spec_intros)

lemma silent_bind [spec_intros]: "silent m \<Longrightarrow> (\<And>x. silent (f x)) \<Longrightarrow> silent (ibind m f)"
  unfolding silent_def by (rule only_bind)

lemma silent_then [spec_intros]: "silent m \<Longrightarrow> silent n \<Longrightarrow> silent (ithen m n)"
  unfolding silent_def by (rule only_then)

lemma silent_case [spec_intros]:
  "silent m \<Longrightarrow> (\<And>e. silent (h e)) \<Longrightarrow> (\<And>x. silent (f x)) \<Longrightarrow> silent (icase m h f)"
  unfolding silent_def by (rule only_case)

lemma silent_ignore [spec_intros]: "silent m \<Longrightarrow> silent (iignore m)"
  unfolding silent_def by (rule only_ignore)

subsection \<open>What a computation returns\<close>

text \<open>The result of a computation satisfies \<open>P\<close> whenever it returns.\<close>

definition yields :: "('k, 'a) io \<Rightarrow> ('a \<Rightarrow> bool) \<Rightarrow> bool" where
  "yields m P \<longleftrightarrow> spec m (\<lambda>r n. \<forall>x. r = Ok x \<longrightarrow> P x)"

named_theorems yields_intros \<open>what the combinators return\<close>

lemma yieldsD: "yields m P \<Longrightarrow> m W c = (Ok x, c') \<Longrightarrow> P x"
  unfolding yields_def spec_def by (metis fst_conv)

lemma yields_lift [yields_intros]: "(\<And>x. r = Ok x \<Longrightarrow> P x) \<Longrightarrow> yields (ilift r) P"
  by (simp add: yields_def spec_lift)

lemma yields_return [yields_intros]: "P x \<Longrightarrow> yields (ireturn x) P"
  by (simp add: yields_def spec_return)

lemma yields_bind: "yields m R \<Longrightarrow> (\<And>x. R x \<Longrightarrow> yields (f x) P) \<Longrightarrow> yields (ibind m f) P"
  unfolding yields_def by (erule spec_bind) (auto elim: spec_mono)

lemma only_yields_True: "only (\<lambda>_. True) m \<Longrightarrow> yields m (\<lambda>_. True)"
  unfolding yields_def only_def by (erule spec_mono) simp

lemma yields_case:
  "yields m R \<Longrightarrow> (\<And>x. R x \<Longrightarrow> yields (f x) P) \<Longrightarrow> (\<And>e. yields (h e) P) \<Longrightarrow> yields (icase m h f) P"
  unfolding yields_def by (erule spec_case) (auto elim: spec_mono)

text \<open>The rest of a computation may rely on what its first part returns.\<close>

lemma spec_conj: "spec m P \<Longrightarrow> spec m Q \<Longrightarrow> spec m (\<lambda>r n. P r n \<and> Q r n)"
  unfolding spec_def by (metis same_append_eq)

lemma settles_yields_case:
  assumes m: "silent m" "yields m P"
    and h: "\<And>e. settles S (h e)" and f: "\<And>x. P x \<Longrightarrow> settles S (f x)"
  shows "settles S (icase m h f)"
  unfolding settles_def
proof (rule spec_case [OF spec_conj [OF silent_spec [OF m(1)] m(2) [unfolded yields_def]]])
  fix x n assume "responses n = 0 \<and> (\<forall>x'. Ok x = Ok x' \<longrightarrow> P x')"
  then show "spec (f x) (\<lambda>r n'. settled S r (n @ n'))"
    using f [of x] unfolding settles_def by (auto elim!: spec_mono settled_after)
next
  fix e :: pyerr and n assume "responses n = 0 \<and> (\<forall>x. Err e = Ok x \<longrightarrow> P x)"
  then show "spec (h e) (\<lambda>r n'. settled S r (n @ n'))"
    using h [of e] unfolding settles_def by (elim spec_mono) (auto elim!: settled_after)
qed simp

lemma settles_yields_bind:
  "silent m \<Longrightarrow> yields m P \<Longrightarrow> (\<And>x. P x \<Longrightarrow> settles S (f x)) \<Longrightarrow> settles S (ibind m f)"
  unfolding ibind_icase by (rule settles_yields_case [where P = P]) (simp_all add: settles_err)

text \<open>
  An attempt that answers the request when it returns \<open>Some\<close>, and gives no response when
  it returns \<open>None\<close>, raises or panics.
\<close>

definition attempts :: "('k, 'a option) io \<Rightarrow> bool" where
  "attempts m \<longleftrightarrow> spec m (\<lambda>r n. responses n = (case r of Ok (Some _) \<Rightarrow> 1 | _ \<Rightarrow> 0))"

lemma attempts_silent: "silent m \<Longrightarrow> yields m (\<lambda>x. x = None) \<Longrightarrow> attempts m"
  unfolding attempts_def yields_def
  by (rule spec_mono [OF spec_conj [OF silent_spec]]) (auto split: rust.split)

lemma settles_attempt:
  fixes m :: "('k, 'b option) io"
  assumes m: "attempts m" and n: "settles S n"
  shows "settles S (ibind m (\<lambda>r. case r of Some x \<Rightarrow> ireturn (g x) | None \<Rightarrow> n))"
  unfolding settles_def
proof (rule spec_bind [OF m [unfolded attempts_def]])
  fix x :: "'b option" and k assume k: "responses k = (case Ok x of Ok (Some _) \<Rightarrow> 1 | _ \<Rightarrow> 0)"
  show "spec (case x of Some x \<Rightarrow> ireturn (g x) | None \<Rightarrow> n) (\<lambda>r n'. settled S r (k @ n'))"
  proof (cases x)
    case None
    with k n show ?thesis unfolding settles_def by (auto elim!: spec_mono settled_after)
  next
    case (Some y)
    with k show ?thesis by (auto intro!: spec_return simp: settled_def)
  qed
qed auto

end
