(* ===== verification/Response.thy ===== *)
theory Response
  imports Io
begin

text \<open>
  \<open>src/src/response.rs\<close>: the functions that write a response to the RSGI protocol object.
  Each makes one call on it. The \<open>_sync\<close> functions return nothing, the asynchronous ones
  the Python value \<open>None\<close>.
\<close>

section \<open>Header lists\<close>

definition known_names :: "string list" where
  "known_names = [''set-cookie'', ''content-type'', ''content-length'', ''server'', ''allow'',
     ''access-control-allow-origin'', ''access-control-allow-credentials'',
     ''access-control-allow-methods'', ''access-control-allow-headers'', ''access-control-max-age'']"

text \<open>The name on the wire: an interned known name, the name itself, or its lowercase copy.\<close>

definition wire_name :: "string \<Rightarrow> string" where
  "wire_name k =
     (case find (eq_ignore_ascii_case k) known_names of
        Some n \<Rightarrow> n
      | None \<Rightarrow> if list_all (\<lambda>c. \<not> is_ascii_uppercase c) k then k else to_ascii_lowercase k)"

definition build_header_list_from_pairs :: "header_pairs \<Rightarrow> header_pairs" where
  "build_header_list_from_pairs pairs = map (\<lambda>(k, v). (wire_name k, v)) pairs"

definition build_headers_ct :: "string option \<Rightarrow> header_pairs" where
  "build_headers_ct ct = (case ct of None \<Rightarrow> [] | Some v \<Rightarrow> [(''content-type'', v)])"

section \<open>Sending while the lock is held\<close>

definition respond :: "reply \<Rightarrow> ('k, unit) io" where
  "respond rp = ibind (perform (Respond rp)) (\<lambda>_. ireturn ())"

definition send_empty_sync :: "u16 \<Rightarrow> string option \<Rightarrow> ('k, unit) io" where
  "send_empty_sync status ct = respond (ResponseEmpty status (build_headers_ct ct))"

definition send_str_sync :: "u16 \<Rightarrow> string \<Rightarrow> string \<Rightarrow> ('k, unit) io" where
  "send_str_sync status text ct = respond (ResponseStr status (build_headers_ct (Some ct)) text)"

definition send_text_sync :: "u16 \<Rightarrow> string \<Rightarrow> string \<Rightarrow> ('k, unit) io" where
  "send_text_sync status text ct =
     (if text = [] then send_empty_sync status (Some ct) else send_str_sync status text ct)"

definition send_pybytes_sync :: "u16 \<Rightarrow> bytes \<Rightarrow> string \<Rightarrow> ('k, unit) io" where
  "send_pybytes_sync status body ct =
     (if body = [] then send_empty_sync status (Some ct)
      else respond (ResponseBytes status (build_headers_ct (Some ct)) body))"

definition send_bytes_sync :: "u16 \<Rightarrow> bytes \<Rightarrow> string \<Rightarrow> ('k, unit) io" where
  "send_bytes_sync status body ct =
     (if body = [] then send_empty_sync status (Some ct)
      else respond (ResponseBytes status (build_headers_ct (Some ct)) body))"

definition send_with_headers_sync :: "u16 \<Rightarrow> bytes \<Rightarrow> header_pairs \<Rightarrow> ('k, unit) io" where
  "send_with_headers_sync status body headers =
     (let h = build_header_list_from_pairs headers
      in if body = [] then respond (ResponseEmpty status h) else respond (ResponseBytes status h body))"

definition send_405_method_not_allowed_sync :: "string list \<Rightarrow> ('k, unit) io" where
  "send_405_method_not_allowed_sync allow =
     respond (ResponseBytes 405
       [(''allow'', join '', '' allow), (''content-type'', ''text/plain; charset=utf-8'')]
       ''Method Not Allowed'')"

definition send_429_rate_limited_sync :: "u64 \<Rightarrow> u64 \<Rightarrow> ('k, unit) io" where
  "send_429_rate_limited_sync limit reset_secs =
     respond (ResponseBytes 429
       [(''content-type'', ''application/json; charset=utf-8''),
        (''ratelimit-limit'', show_u64 limit), (''ratelimit-remaining'', ''0''),
        (''ratelimit-reset'', show_u64 reset_secs), (''retry-after'', show_u64 reset_secs)]
       (''{'' @ dquoted ''detail'' @ '':'' @ dquoted ''Too Many Requests'' @ ''}''))"

definition send_head_simple_sync :: "u16 \<Rightarrow> nat \<Rightarrow> string \<Rightarrow> ('k, unit) io" where
  "send_head_simple_sync status full_body_len ct =
     respond (ResponseEmpty status
       [(''content-type'', ct),
        (''content-length'', if full_body_len = 0 then ''0'' else show_nat full_body_len)])"

text \<open>\<open>headers.retain\<close> and \<open>push\<close>: the length replaces one that the headers already have.\<close>

definition with_content_length :: "nat \<Rightarrow> header_pairs \<Rightarrow> header_pairs" where
  "with_content_length len headers =
     filter (\<lambda>(k, v). \<not> eq_ignore_ascii_case k ''content-length'') headers
     @ [(''content-length'', show_nat len)]"

definition send_head_len_with_headers_sync :: "u16 \<Rightarrow> nat \<Rightarrow> header_pairs \<Rightarrow> ('k, unit) io" where
  "send_head_len_with_headers_sync status len headers =
     send_with_headers_sync status [] (with_content_length len headers)"

definition send_head_with_headers_sync :: "u16 \<Rightarrow> bytes \<Rightarrow> header_pairs \<Rightarrow> ('k, unit) io" where
  "send_head_with_headers_sync status full_body headers =
     send_with_headers_sync status [] (with_content_length (length full_body) headers)"

section \<open>Sending from asynchronous code\<close>

definition then_none :: "('k, unit) io \<Rightarrow> ('k, pyobj) io" where
  "then_none m = ibind m (\<lambda>_. ireturn PyNone)"

definition send_str :: "u16 \<Rightarrow> string \<Rightarrow> string \<Rightarrow> ('k, pyobj) io" where
  "send_str status text ct = then_none (send_str_sync status text ct)"

definition send_empty :: "u16 \<Rightarrow> string option \<Rightarrow> ('k, pyobj) io" where
  "send_empty status ct = then_none (send_empty_sync status ct)"

definition send_text :: "u16 \<Rightarrow> string \<Rightarrow> string \<Rightarrow> ('k, pyobj) io" where
  "send_text status text ct =
     (if text = [] then send_empty status (Some ct) else send_str status text ct)"

definition send_405_method_not_allowed :: "string list \<Rightarrow> ('k, pyobj) io" where
  "send_405_method_not_allowed allow = then_none (send_405_method_not_allowed_sync allow)"

definition send_429_rate_limited :: "u64 \<Rightarrow> u64 \<Rightarrow> ('k, pyobj) io" where
  "send_429_rate_limited limit reset_secs = then_none (send_429_rate_limited_sync limit reset_secs)"

definition send_empty_with_header_pairs :: "u16 \<Rightarrow> header_pairs \<Rightarrow> ('k, pyobj) io" where
  "send_empty_with_header_pairs status headers =
     then_none (respond (ResponseEmpty status (build_header_list_from_pairs headers)))"

definition send_with_headers :: "u16 \<Rightarrow> bytes \<Rightarrow> header_pairs \<Rightarrow> ('k, pyobj) io" where
  "send_with_headers status body headers =
     (if body = [] then send_empty_with_header_pairs status headers
      else then_none (respond (ResponseBytes status (build_header_list_from_pairs headers) body)))"

definition send_head_simple :: "u16 \<Rightarrow> nat \<Rightarrow> string \<Rightarrow> ('k, pyobj) io" where
  "send_head_simple status full_body_len ct =
     send_empty_with_header_pairs status
       [(''content-type'', ct), (''content-length'', show_nat full_body_len)]"

section \<open>The interface of a sender\<close>

text \<open>
  What the dispatcher relies on of a function that writes a response: it makes exactly one
  protocol call, \<open>reply_of\<close>, and raises only what that call raises.
\<close>

definition responder_law :: "('k, 'a) io \<Rightarrow> reply \<Rightarrow> bool" where
  "responder_law m rp \<longleftrightarrow> (\<exists>x. m = ibind (perform (Respond rp)) (\<lambda>_. ireturn x))"

locale responder =
  fixes send :: "'p \<Rightarrow> ('k, 'a) io" and reply_of :: "'p \<Rightarrow> reply"
  assumes one_call: "responder_law (send p) (reply_of p)"
begin

lemma send_form: "\<exists>x. send p = ibind (perform (Respond (reply_of p))) (\<lambda>_. ireturn x)"
  using one_call [of p] by (simp add: responder_law_def)

lemma send_settles: "settles S (send p)"
proof -
  obtain x where x: "send p = ibind (perform (Respond (reply_of p))) (\<lambda>_. ireturn x)"
    using send_form by blast
  show ?thesis unfolding x by (rule settles_map [OF settles_respond])
qed

lemma send_only: "A (Respond (reply_of p)) \<Longrightarrow> only A (send p)"
proof -
  assume A: "A (Respond (reply_of p))"
  obtain x where x: "send p = ibind (perform (Respond (reply_of p))) (\<lambda>_. ireturn x)"
    using send_form by blast
  show ?thesis unfolding x by (rule only_bind, rule only_perform, rule A, rule only_return)
qed

lemma send_log:
  "tr (snd (send p W c)) = tr c @ [(Respond (reply_of p), answer W (tr c) (Respond (reply_of p)))]"
  using one_call [of p] unfolding responder_law_def
  by (auto simp: ibind_def perform_def Let_def ireturn_def ilift_def split: sum.split)

end

lemma responder_law_respond [simp]: "responder_law (respond rp) rp"
  by (auto simp: responder_law_def respond_def)

lemma ibind_return [simp]: "ibind (ireturn x) f = f x"
  by (simp add: ibind_def ireturn_def ilift_def)

lemma ibind_assoc: "ibind (ibind m f) g = ibind m (\<lambda>x. ibind (f x) g)"
  by (auto simp: ibind_def fun_eq_iff split: prod.split rust.split)

lemma responder_law_none [simp]: "responder_law (then_none (respond rp)) rp"
  by (auto simp: responder_law_def respond_def then_none_def ibind_assoc)

text \<open>The replies, as functions of the arguments.\<close>

definition text_reply :: "u16 \<times> string \<times> string \<Rightarrow> reply" where
  "text_reply = (\<lambda>(status, text, ct).
     if text = [] then ResponseEmpty status [(''content-type'', ct)]
     else ResponseStr status [(''content-type'', ct)] text)"

definition bytes_reply :: "u16 \<times> bytes \<times> string \<Rightarrow> reply" where
  "bytes_reply = (\<lambda>(status, body, ct).
     if body = [] then ResponseEmpty status [(''content-type'', ct)]
     else ResponseBytes status [(''content-type'', ct)] body)"

definition headers_reply :: "u16 \<times> bytes \<times> header_pairs \<Rightarrow> reply" where
  "headers_reply = (\<lambda>(status, body, headers).
     if body = [] then ResponseEmpty status (build_header_list_from_pairs headers)
     else ResponseBytes status (build_header_list_from_pairs headers) body)"

definition reply_405 :: "string list \<Rightarrow> reply" where
  "reply_405 allow = ResponseBytes 405
     [(''allow'', join '', '' allow), (''content-type'', ''text/plain; charset=utf-8'')] ''Method Not Allowed''"

definition reply_429 :: "u64 \<times> u64 \<Rightarrow> reply" where
  "reply_429 = (\<lambda>(limit, reset). ResponseBytes 429
     [(''content-type'', ''application/json; charset=utf-8''),
      (''ratelimit-limit'', show_u64 limit), (''ratelimit-remaining'', ''0''),
      (''ratelimit-reset'', show_u64 reset), (''retry-after'', show_u64 reset)]
     (''{'' @ dquoted ''detail'' @ '':'' @ dquoted ''Too Many Requests'' @ ''}''))"

definition head_simple_reply :: "u16 \<times> nat \<times> string \<Rightarrow> reply" where
  "head_simple_reply = (\<lambda>(status, len, ct). ResponseEmpty status
     [(''content-type'', ct), (''content-length'', show_nat len)])"

definition head_reply :: "u16 \<times> nat \<times> header_pairs \<Rightarrow> reply" where
  "head_reply = (\<lambda>(status, len, headers).
     ResponseEmpty status (build_header_list_from_pairs (with_content_length len headers)))"

lemmas reply_defs = text_reply_def bytes_reply_def headers_reply_def reply_405_def reply_429_def
  head_simple_reply_def head_reply_def

lemmas sender_defs = send_empty_sync_def send_str_sync_def send_text_sync_def send_pybytes_sync_def
  send_bytes_sync_def send_with_headers_sync_def send_405_method_not_allowed_sync_def
  send_429_rate_limited_sync_def send_head_simple_sync_def send_head_len_with_headers_sync_def
  send_head_with_headers_sync_def send_str_def send_empty_def send_text_def
  send_405_method_not_allowed_def send_429_rate_limited_def send_empty_with_header_pairs_def
  send_with_headers_def send_head_simple_def

lemma build_headers_ct_simps [simp]:
  "build_headers_ct None = []" "build_headers_ct (Some ct) = [(''content-type'', ct)]"
  by (simp_all add: build_headers_ct_def)

interpretation text_sync: responder "\<lambda>(status, text, ct). send_text_sync status text ct" text_reply
  by unfold_locales (auto simp: sender_defs reply_defs)

interpretation text_async: responder "\<lambda>(status, text, ct). send_text status text ct" text_reply
  by unfold_locales (auto simp: sender_defs reply_defs)

interpretation bytes_sync: responder "\<lambda>(status, body, ct). send_bytes_sync status body ct" bytes_reply
  by unfold_locales (auto simp: sender_defs reply_defs)

interpretation pybytes_sync: responder "\<lambda>(status, body, ct). send_pybytes_sync status body ct" bytes_reply
  by unfold_locales (auto simp: sender_defs reply_defs)

interpretation headers_sync: responder
  "\<lambda>(status, body, headers). send_with_headers_sync status body headers" headers_reply
  by unfold_locales (auto simp: sender_defs reply_defs)

interpretation headers_async: responder
  "\<lambda>(status, body, headers). send_with_headers status body headers" headers_reply
  by unfold_locales (auto simp: sender_defs reply_defs)

interpretation s405_sync: responder send_405_method_not_allowed_sync reply_405
  by unfold_locales (auto simp: sender_defs reply_defs)

interpretation s405_async: responder send_405_method_not_allowed reply_405
  by unfold_locales (auto simp: sender_defs reply_defs)

interpretation s429_sync: responder "\<lambda>(limit, reset). send_429_rate_limited_sync limit reset" reply_429
  by unfold_locales (auto simp: sender_defs reply_defs)

interpretation s429_async: responder "\<lambda>(limit, reset). send_429_rate_limited limit reset" reply_429
  by unfold_locales (auto simp: sender_defs reply_defs)

interpretation head_simple_sync: responder
  "\<lambda>(status, len, ct). send_head_simple_sync status len ct" head_simple_reply
  by unfold_locales (auto simp: sender_defs reply_defs show_nat_0)

interpretation head_sync: responder
  "\<lambda>(status, len, headers). send_head_len_with_headers_sync status len headers" head_reply
  by unfold_locales (auto simp: sender_defs reply_defs)

lemma wire_name_lower: "wire_name k = to_ascii_lowercase k"
proof (cases "find (eq_ignore_ascii_case k) known_names")
  case (Some n)
  then have "eq_ignore_ascii_case k n" and n: "n \<in> set known_names"
    by (auto dest: find_Some_set)
  moreover have "to_ascii_lowercase n = n"
    using n by (auto simp: known_names_def str_simps) 
  ultimately show ?thesis
    using Some by (simp add: wire_name_def eq_ignore_ascii_case_def to_ascii_lowercase_def)
next
  case None
  then show ?thesis by (simp add: wire_name_def to_ascii_lowercase_no_upper)
qed

interpretation head_simple_async: responder
  "\<lambda>(status, len, ct). send_head_simple status len ct" head_simple_reply
  by unfold_locales (auto simp: sender_defs reply_defs build_header_list_from_pairs_def wire_name_lower str_simps)

text \<open>
  Every sender settles the request. \<open>no_reply_but P\<close> is the set of actions in which every
  response satisfies \<open>P\<close>.
\<close>

lemma settles_respond_unit [spec_intros]: "settles S (respond rp)"
  unfolding respond_def by (rule settles_map [OF settles_respond])

lemmas sender_settles [spec_intros] =
  text_sync.send_settles [of _ "(st, t, ct)" for st t ct, unfolded prod.case]
  text_async.send_settles [of _ "(st, t, ct)" for st t ct, unfolded prod.case]
  bytes_sync.send_settles [of _ "(st, t, ct)" for st t ct, unfolded prod.case]
  pybytes_sync.send_settles [of _ "(st, t, ct)" for st t ct, unfolded prod.case]
  headers_sync.send_settles [of _ "(st, t, ct)" for st t ct, unfolded prod.case]
  headers_async.send_settles [of _ "(st, t, ct)" for st t ct, unfolded prod.case]
  s405_sync.send_settles s405_async.send_settles
  s429_sync.send_settles [of _ "(l, r)" for l r, unfolded prod.case]
  s429_async.send_settles [of _ "(l, r)" for l r, unfolded prod.case]
  head_simple_sync.send_settles [of _ "(st, t, ct)" for st t ct, unfolded prod.case]
  head_simple_async.send_settles [of _ "(st, t, ct)" for st t ct, unfolded prod.case]
  head_sync.send_settles [of _ "(st, t, ct)" for st t ct, unfolded prod.case]

definition replies_in :: "(reply \<Rightarrow> bool) \<Rightarrow> action \<Rightarrow> bool" where
  "replies_in P a \<longleftrightarrow> (\<forall>rp. a = Respond rp \<longrightarrow> P rp)"

lemma replies_in_simps [simp]:
  "replies_in P (Respond rp) \<longleftrightarrow> P rp" "replies_in P (SetTemplate t)" "replies_in P ReadBody"
  "replies_in P (Call r f xs kw)" "replies_in P (IntoFuture f)" "replies_in P (Await f)" "replies_in P (IsInstance e cl)"
  "replies_in P (HasAttr f n)" "replies_in P (RunQuery pl q args)" "replies_in P (CloseSocket i)"
  by (auto simp: replies_in_def)

lemmas sender_only =
  text_sync.send_only [of _ "(st, t, ct)" for st t ct, unfolded prod.case]
  text_async.send_only [of _ "(st, t, ct)" for st t ct, unfolded prod.case]
  bytes_sync.send_only [of _ "(st, t, ct)" for st t ct, unfolded prod.case]
  pybytes_sync.send_only [of _ "(st, t, ct)" for st t ct, unfolded prod.case]
  headers_sync.send_only [of _ "(st, t, ct)" for st t ct, unfolded prod.case]
  headers_async.send_only [of _ "(st, t, ct)" for st t ct, unfolded prod.case]
  s405_sync.send_only s405_async.send_only
  s429_sync.send_only [of _ "(l, r)" for l r, unfolded prod.case]
  s429_async.send_only [of _ "(l, r)" for l r, unfolded prod.case]
  head_simple_sync.send_only [of _ "(st, t, ct)" for st t ct, unfolded prod.case]
  head_simple_async.send_only [of _ "(st, t, ct)" for st t ct, unfolded prod.case]
  head_sync.send_only [of _ "(st, t, ct)" for st t ct, unfolded prod.case]

end
