(* ===== verification/HandlerMap.thy ===== *)
theory HandlerMap
  imports Response
begin

text \<open>
  \<open>src/src/dispatch.rs\<close>: from the value a handler returns to the response. What a handler
  may return (a \<open>str\<close>, bytes, a dict, a \<open>Response\<close>, a stream that is already sent), the
  rejection of unsafe headers, the merge of the CORS and security headers, the response
  middleware and the call on the protocol object.
\<close>

section \<open>Header safety\<close>

definition contains_crlf :: "string \<Rightarrow> bool" where
  "contains_crlf s = list_ex (\<lambda>x. (of_char x :: nat) = 13 \<or> (of_char x :: nat) = 10) s"

text \<open>
  \<open>char::is_control\<close>: U+0000 to U+001F, U+007F and U+0080 to U+009F, the last as the two
  bytes \<open>C2 80\<close> to \<open>C2 9F\<close>.
\<close>

fun has_control :: "string \<Rightarrow> bool" where
  "has_control [] = False"
| "has_control (x # s) =
     ((of_char x :: nat) < 32 \<or> (of_char x :: nat) = 127
      \<or> ((of_char x :: nat) = 194 \<and> s \<noteq> [] \<and> 128 \<le> (of_char (hd s) :: nat) \<and> (of_char (hd s) :: nat) < 160)
      \<or> has_control s)"

definition is_unsafe_cookie_line :: "string \<Rightarrow> bool" where
  "is_unsafe_cookie_line s \<longleftrightarrow> contains_crlf s \<or> has_control s"

section \<open>The mapped value\<close>

datatype simple_body = Owned bytes | PyString_body string | PyBytes_body bytes

fun byte_len :: "simple_body \<Rightarrow> nat" where
  "byte_len (Owned v) = length v"
| "byte_len (PyString_body s) = length s"
| "byte_len (PyBytes_body b) = length b"

datatype handler_map =
    AlreadySent
  | WithHeaders (hm_status: u16) (hm_body: simple_body) (hm_headers: header_pairs)
  | Simple (hm_status: u16) (hm_body: simple_body) (hm_ct: string)

abbreviation ct_text :: string where "ct_text \<equiv> ''text/plain; charset=utf-8''"
abbreviation ct_json :: string where "ct_json \<equiv> ''application/json; charset=utf-8''"
abbreviation ct_bytes :: string where "ct_bytes \<equiv> ''application/octet-stream''"

text \<open>\<open>extract::<u16>()?\<close>, \<open>extract::<String>()?\<close>, \<open>downcast::<PyDict>()?\<close> and the like.\<close>

definition u16_of :: "pyobj \<Rightarrow> u16 pyres" where
  "u16_of v =
     (case extract_u16 v of
        Some w \<Rightarrow> Ok w
      | None \<Rightarrow> (case v of PyInt i \<Rightarrow> Err (PyErr ''OverflowError'' ''out of range'')
                 | _ \<Rightarrow> type_error ''expected int''))"

definition str_of :: "pyobj \<Rightarrow> string pyres" where
  "str_of v = (case extract_string v of Some s \<Rightarrow> Ok s | None \<Rightarrow> type_error ''expected str'')"

definition dict_of :: "pyobj \<Rightarrow> (pyobj \<times> pyobj) list pyres" where
  "dict_of v = (case v of PyDict d \<Rightarrow> Ok d | _ \<Rightarrow> type_error ''expected dict'')"

definition list_of :: "pyobj \<Rightarrow> pyobj list pyres" where
  "list_of v = (case v of PyList l \<Rightarrow> Ok l | _ \<Rightarrow> type_error ''expected list'')"

definition tuple_of :: "pyobj \<Rightarrow> pyobj list pyres" where
  "tuple_of v = (case v of PyTuple l \<Rightarrow> Ok l | _ \<Rightarrow> type_error ''expected tuple'')"

definition item_of :: "pyobj list \<Rightarrow> nat \<Rightarrow> pyobj pyres" where
  "item_of l i = (if i < length l then Ok (l ! i) else Err (PyErr ''IndexError'' ''tuple index out of range''))"

definition attr_of :: "pyobj \<Rightarrow> string \<Rightarrow> pyobj pyres" where
  "attr_of v n = (case py_getattr v n of Some a \<Rightarrow> Ok a | None \<Rightarrow> Err (PyErr ''AttributeError'' n))"

section \<open>From a Python value to a response\<close>

text \<open>\<open>src/src/schema.rs\<close>: the native printer first, then \<open>json.dumps\<close> of Python.\<close>

definition json_dumps_bytes :: "pyobj \<Rightarrow> ('k, bytes) io" where
  "json_dumps_bytes obj =
     ibind (perform (Call (Helper ''json.dumps'') PyNone [obj] [])) (\<lambda>r.
       ilift (case extract_string r of Some s \<Rightarrow> Ok s | None \<Rightarrow> type_error ''expected str''))"

definition py_to_json_bytes_or_fallback :: "pyobj \<Rightarrow> ('k, bytes) io" where
  "py_to_json_bytes_or_fallback obj =
     ibind (iask env_wire) (\<lambda>L.
       case py_to_json_bytes L obj of
         Ok b \<Rightarrow> ireturn b
       | Err _ \<Rightarrow> json_dumps_bytes obj
       | Panic s \<Rightarrow> ilift (Panic s))"

definition json_body :: "pyobj \<Rightarrow> ('k, bytes \<times> string) io" where
  "json_body b = ibind (py_to_json_bytes_or_fallback b) (\<lambda>j. ireturn (j, ct_json))"

definition value_to_bytes_and_ct :: "pyobj \<Rightarrow> ('k, bytes \<times> string) io" where
  "value_to_bytes_and_ct b =
     (case b of
        PyNone \<Rightarrow> ireturn ([], ct_text)
      | PyStr s \<Rightarrow> ireturn (s, ct_text)
      | PyBytes buf \<Rightarrow> ireturn (buf, ct_bytes)
      | PyDict d \<Rightarrow> json_body b
      | PyList l \<Rightarrow> json_body b
      | PyTuple l \<Rightarrow> json_body b
      | _ \<Rightarrow>
         (case extract_string b of
            Some s \<Rightarrow> ireturn (s, ct_text)
          | None \<Rightarrow>
             (case extract_bytes b of Some buf \<Rightarrow> ireturn (buf, ct_bytes) | None \<Rightarrow> json_body b)))"

text \<open>The pairs of the \<open>headers\<close> dict; one with a line break is refused.\<close>

fun checked_pairs :: "(pyobj \<times> pyobj) list \<Rightarrow> header_pairs pyres" where
  "checked_pairs [] = Ok []"
| "checked_pairs ((k, v) # d) =
     rbind (str_of k) (\<lambda>key. rbind (str_of v) (\<lambda>val.
       if contains_crlf key \<or> contains_crlf val
       then value_error ''unsafe response header contains CR or LF''
       else rbind (checked_pairs d) (\<lambda>ps. Ok ((key, val) # ps))))"

fun checked_cookies :: "pyobj list \<Rightarrow> header_pairs pyres" where
  "checked_cookies [] = Ok []"
| "checked_cookies (v # l) =
     rbind (str_of v) (\<lambda>s.
       if is_unsafe_cookie_line s
       then value_error ''unsafe set-cookie value contains control characters''
       else rbind (checked_cookies l) (\<lambda>ps. Ok ((''set-cookie'', s) # ps)))"

definition has_header :: "string \<Rightarrow> header_pairs \<Rightarrow> bool" where
  "has_header n hs \<longleftrightarrow> list_ex (\<lambda>(k, v). eq_ignore_ascii_case k n) hs"

definition optional_py :: "(pyobj \<Rightarrow> header_pairs pyres) \<Rightarrow> pyobj option \<Rightarrow> header_pairs pyres" where
  "optional_py f v = (case v of None \<Rightarrow> Ok [] | Some o1 \<Rightarrow> if o1 = PyNone then Ok [] else f o1)"

definition structured_from_status_body ::
    "pyobj \<Rightarrow> pyobj \<Rightarrow> pyobj option \<Rightarrow> pyobj option \<Rightarrow> ('k, handler_map) io" where
  "structured_from_status_body st body_val headers cookies =
     ibind (ilift (u16_of st)) (\<lambda>status.
     ibind (value_to_bytes_and_ct body_val) (\<lambda>(body, default_ct).
     ibind (ilift (optional_py (\<lambda>h. rbind (dict_of h) checked_pairs) headers)) (\<lambda>pairs0.
     ibind (ilift (optional_py (\<lambda>c. rbind (list_of c) checked_cookies) cookies)) (\<lambda>cs.
       ireturn (WithHeaders status (Owned body)
         ((if has_header ''content-type'' pairs0 then pairs0
           else (''content-type'', default_ct) # pairs0) @ cs))))))"

definition is_oxyroute_response :: "pyobj \<Rightarrow> bool" where
  "is_oxyroute_response b \<longleftrightarrow>
     (case b of PyDict d \<Rightarrow> False
      | _ \<Rightarrow> py_getattr b ''status'' \<noteq> None \<and> py_getattr b ''body'' \<noteq> None
            \<and> py_getattr b ''headers'' \<noteq> None)"

definition structured_from_response_attrs :: "pyobj \<Rightarrow> ('k, handler_map) io" where
  "structured_from_response_attrs b =
     ibind (ilift (attr_of b ''status'')) (\<lambda>st.
     ibind (ilift (attr_of b ''body'')) (\<lambda>body.
     ibind (ilift (attr_of b ''headers'')) (\<lambda>headers.
     ibind (ilift (attr_of b ''cookies'')) (\<lambda>cookies.
       structured_from_status_body st body (Some headers) (Some cookies)))))"

text \<open>\<open>bd.str()\<close>: the text of a \<open>str\<close>; for another value Python is asked.\<close>

definition py_str :: "pyobj \<Rightarrow> ('k, string) io" where
  "py_str v =
     (case v of PyStr s \<Rightarrow> ireturn s
      | _ \<Rightarrow> ibind (perform (Call (Helper ''str'') PyNone [v] [])) (\<lambda>r. ilift (str_of r)))"

definition json_reply :: "pyobj \<Rightarrow> ('k, handler_map) io" where
  "json_reply b = ibind (py_to_json_bytes_or_fallback b) (\<lambda>j. ireturn (Simple 200 (Owned j) ct_json))"

text \<open>A dict: a structured response, a plain status and text, or JSON data.\<close>

definition map_dict_return :: "pyobj \<Rightarrow> (pyobj \<times> pyobj) list \<Rightarrow> ('k, handler_map) io" where
  "map_dict_return b d =
     (case (dict_get d ''status'', dict_get d ''body'') of
        (Some st, Some bd) \<Rightarrow>
          (let h = dict_get d ''headers''; c = dict_get d ''cookies''
           in if h \<noteq> None \<or> c \<noteq> None then structured_from_status_body st bd h c
              else (case extract_u16 st of
                      Some code \<Rightarrow>
                        if 100 \<le> code \<and> code \<le> 599
                        then icase (py_str bd) (\<lambda>_. json_reply b)
                               (\<lambda>s. ireturn (Simple code (Owned s) ct_text))
                        else json_reply b
                    | None \<Rightarrow> json_reply b))
      | _ \<Rightarrow> json_reply b)"

definition map_handler_return :: "pyobj \<Rightarrow> ('k, handler_map) io" where
  "map_handler_return b =
     (case b of
        PyStr s \<Rightarrow> ireturn (Simple 200 (PyString_body s) ct_text)
      | PyBytes buf \<Rightarrow> ireturn (Simple 200 (PyBytes_body buf) ct_bytes)
      | PyDict d \<Rightarrow> map_dict_return b d
      | PyList l \<Rightarrow> json_reply b
      | PyTuple l \<Rightarrow> json_reply b
      | _ \<Rightarrow>
        if stream_done b then ireturn AlreadySent
        else if is_oxyroute_response b then structured_from_response_attrs b
        else (case extract_string b of
                Some s \<Rightarrow> ireturn (Simple 200 (Owned s) ct_text)
              | None \<Rightarrow>
                 (case extract_bytes b of
                    Some buf \<Rightarrow> ireturn (Simple 200 (Owned buf) ct_bytes)
                  | None \<Rightarrow> json_reply b)))"

definition microbench_map_handler_return :: "pyobj \<Rightarrow> ('k, u16) io" where
  "microbench_map_handler_return out =
     ibind (map_handler_return out) (\<lambda>m.
       ireturn (case m of AlreadySent \<Rightarrow> 0 | WithHeaders st b h \<Rightarrow> st | Simple st b ct \<Rightarrow> st))"

section \<open>Merging configured headers\<close>

text \<open>What the mapped value is when it carries headers; \<open>Simple\<close> starts with its type.\<close>

definition merge_into :: "(header_pairs \<Rightarrow> header_pairs) \<Rightarrow> handler_map \<Rightarrow> handler_map" where
  "merge_into f m =
     (case m of
        AlreadySent \<Rightarrow> AlreadySent
      | WithHeaders status body headers \<Rightarrow> WithHeaders status body (f headers)
      | Simple status body ct \<Rightarrow> WithHeaders status body (f [(''content-type'', ct)]))"

definition put_replace :: "string \<times> string \<Rightarrow> header_pairs \<Rightarrow> header_pairs" where
  "put_replace ab headers =
     filter (\<lambda>(k, v). \<not> eq_ignore_ascii_case k (fst ab)) headers @ [ab]"

definition put_if_absent :: "string \<times> string \<Rightarrow> header_pairs \<Rightarrow> header_pairs" where
  "put_if_absent ab headers = (if has_header (fst ab) headers then headers else headers @ [ab])"

definition merge_header_pairs_replace :: "handler_map \<Rightarrow> header_pairs \<Rightarrow> handler_map" where
  "merge_header_pairs_replace m pairs =
     (if pairs = [] then m else merge_into (fold put_replace pairs) m)"

definition merge_header_pairs_if_absent :: "handler_map \<Rightarrow> header_pairs \<Rightarrow> handler_map" where
  "merge_header_pairs_if_absent m pairs =
     (if pairs = [] then m else merge_into (fold put_if_absent pairs) m)"

text \<open>The handle of the scope object, where Python code gets it as an argument.\<close>

definition scope_py :: pyobj where "scope_py = PyObject ''RSGIScope'' []"

fun pair_of :: "pyobj \<Rightarrow> (string \<times> string) option" where
  "pair_of (PyTuple [a, b]) =
     Option.bind (extract_string a) (\<lambda>k. map_option (Pair k) (extract_string b))"
| "pair_of _ = None"

text \<open>A configuration object that is not compiled is asked for its pairs.\<close>

definition python_pairs :: "pyobj \<Rightarrow> ('k, header_pairs) io" where
  "python_pairs cfg =
     ibind (perform (Call ConfigPairs cfg [scope_py] [])) (\<lambda>r.
       ilift (case extract_vec pair_of r of Some ps \<Rightarrow> Ok ps | None \<Rightarrow> type_error ''expected list''))"

definition scope_headers :: "scope \<Rightarrow> py_headers pyres" where
  "scope_headers sc = (case sc_headers sc of Some h \<Rightarrow> Ok h | None \<Rightarrow> Err (PyErr ''AttributeError'' ''headers''))"

definition merge_security :: "'k frozen_state \<Rightarrow> scope \<Rightarrow> handler_map \<Rightarrow> ('k, handler_map) io" where
  "merge_security snap sc m =
     (case f_compiled_security snap of
        Some sec \<Rightarrow>
          ireturn (merge_header_pairs_if_absent m
            (security_header_pairs sec (case sc_scheme sc of Some s \<Rightarrow> s | None \<Rightarrow> [])))
      | None \<Rightarrow>
         (case f_security_headers snap of
            Some cfg \<Rightarrow> ibind (python_pairs cfg) (\<lambda>ps. ireturn (merge_header_pairs_if_absent m ps))
          | None \<Rightarrow> ireturn m))"

definition merge_cors :: "'k frozen_state \<Rightarrow> scope \<Rightarrow> handler_map \<Rightarrow> ('k, handler_map) io" where
  "merge_cors snap sc m =
     (case f_compiled_cors snap of
        Some c \<Rightarrow>
          ibind (ilift (scope_headers sc)) (\<lambda>h.
            ireturn (case header_get_lax h ''origin'' of
                Some origin \<Rightarrow> merge_header_pairs_replace m (cors_header_pairs c origin)
              | None \<Rightarrow> m))
      | None \<Rightarrow>
         (case f_cors snap of
            Some cfg \<Rightarrow>
              ibind (ilift (scope_headers sc)) (\<lambda>h.
                if header_get_lax h ''origin'' = None then ireturn m
                else ibind (python_pairs cfg) (\<lambda>ps. ireturn (merge_header_pairs_replace m ps)))
          | None \<Rightarrow> ireturn m))"

definition merge_config_response_headers ::
    "'k frozen_state \<Rightarrow> scope \<Rightarrow> handler_map \<Rightarrow> ('k, handler_map) io" where
  "merge_config_response_headers snap sc m =
     (if m = AlreadySent then ireturn m
      else ibind (merge_security snap sc m) (merge_cors snap sc))"

section \<open>Sending the mapped value\<close>

definition send_simple_body_sync :: "u16 \<Rightarrow> simple_body \<Rightarrow> string \<Rightarrow> ('k, unit) io" where
  "send_simple_body_sync status body ct =
     (case body of
        Owned b \<Rightarrow> if b = [] then send_empty_sync status (Some ct) else send_bytes_sync status b ct
      | PyString_body s \<Rightarrow> send_text_sync status s ct
      | PyBytes_body b \<Rightarrow> send_pybytes_sync status b ct)"

definition send_handler_map_inline :: "bool \<Rightarrow> handler_map \<Rightarrow> ('k, unit) io" where
  "send_handler_map_inline is_head m =
     (case m of
        AlreadySent \<Rightarrow> ireturn ()
      | WithHeaders status body headers \<Rightarrow>
          if is_head then send_head_len_with_headers_sync status (byte_len body) headers
          else (case body of
                  PyString_body s \<Rightarrow> respond (ResponseStr status (build_header_list_from_pairs headers) s)
                | PyBytes_body b \<Rightarrow> respond (ResponseBytes status (build_header_list_from_pairs headers) b)
                | Owned v \<Rightarrow> send_with_headers_sync status v headers)
      | Simple status body ct \<Rightarrow>
          if is_head then send_head_simple_sync status (byte_len body) ct
          else send_simple_body_sync status body ct)"

section \<open>Response middleware\<close>

definition body_py :: "simple_body \<Rightarrow> pyobj" where
  "body_py b = (case b of Owned v \<Rightarrow> PyBytes v | PyBytes_body v \<Rightarrow> PyBytes v | PyString_body s \<Rightarrow> PyStr s)"

text \<open>The arguments of \<open>Response(...)\<close>: the headers go through a dict.\<close>

definition response_kwargs :: "handler_map \<Rightarrow> (string \<times> pyobj) list" where
  "response_kwargs m =
     (case m of
        Simple status body ct \<Rightarrow>
          [(''status'', PyInt (uint status)), (''headers'', PyDict [(PyStr ''content-type'', PyStr ct)]),
           (''body'', body_py body)]
      | WithHeaders status body headers \<Rightarrow>
          [(''status'', PyInt (uint status)),
           (''headers'', PyDict (fold (\<lambda>(k, v). dict_set (PyStr k) (PyStr v)) headers [])),
           (''body'', body_py body)]
      | AlreadySent \<Rightarrow> [])"

fun run_response_middleware :: "pyobj \<Rightarrow> pyobj list \<Rightarrow> handler_map \<Rightarrow> ('k, handler_map) io" where
  "run_response_middleware cls [] m = ireturn m"
| "run_response_middleware cls (mw # mws) m =
     ibind (perform (Call (Helper ''Response'') cls [] (response_kwargs m))) (\<lambda>res.
     ibind (perform (Call ResponseMiddleware mw [scope_py, res] [])) (\<lambda>out.
     ibind (map_handler_return out) (\<lambda>m'.
       if m' = AlreadySent then ireturn AlreadySent else run_response_middleware cls mws m')))"

definition apply_response_middleware :: "'k frozen_state \<Rightarrow> handler_map \<Rightarrow> ('k, handler_map) io" where
  "apply_response_middleware snap m =
     (if f_response_middleware snap \<noteq> [] \<and> m \<noteq> AlreadySent
      then ibind (perform (Call (Helper ''import oxyroute.response'') PyNone [] [])) (\<lambda>cls.
             run_response_middleware cls (f_response_middleware snap) m)
      else ireturn m)"

text \<open>From the value that a handler or a middleware returned to the response.\<close>

definition finish_response :: "'k frozen_state \<Rightarrow> scope \<Rightarrow> bool \<Rightarrow> pyobj \<Rightarrow> ('k, unit) io" where
  "finish_response snap sc is_head out =
     ibind (map_handler_return out) (\<lambda>m0.
     ibind (apply_response_middleware snap m0) (\<lambda>m1.
     ibind (if f_security_headers snap \<noteq> None \<or> f_cors snap \<noteq> None
            then merge_config_response_headers snap sc m1 else ireturn m1) (\<lambda>m2.
       send_handler_map_inline is_head m2)))"

end
