(* ===== verification/Samples.thy ===== *)
theory Samples
  imports HandlerMap AppInv
begin

text \<open>
  A concrete environment and context for the witnesses: every action is answered by
  \<open>None\<close>, except that \<open>Response(...)\<close> builds an instance and a middleware gives its
  response back.
\<close>

definition sample_jwt_json :: "(string, json) jwt_lib" where
  "sample_jwt_json = \<lparr>from_secret = (\<lambda>b. b), from_rsa_pem = (\<lambda>b. Ok b),
     from_ec_pem = (\<lambda>b. Ok b), from_ed_pem = (\<lambda>b. Ok b),
     validation_new = (\<lambda>a. \<lparr>v_algorithms = [a], v_validate_nbf = False, v_validate_exp = True,
        v_leeway = 60, v_validate_aud = True, v_iss = None, v_aud = None\<rparr>),
     set_issuer = (\<lambda>xs v. v\<lparr>v_iss := Some xs\<rparr>), set_audience = (\<lambda>xs v. v\<lparr>v_aud := Some xs\<rparr>),
     jwt_decode = (\<lambda>t k v. if t = k then Ok (JObj [(''sub'', JStr t)]) else Err ExpiredSignature),
     jwt_error_text = (\<lambda>e. ''error''), claims_to_py = (\<lambda>c. Ok (json_to_py c))\<rparr>"

definition sample_env_libs :: "(string, json) libs" where
  "sample_env_libs = \<lparr>lib_matchit = sample_matchit, lib_json = sample_json, lib_jwt = sample_jwt_json,
     alg_from_str = (\<lambda>s. if s = ''HS256'' then Some HS256 else None),
     iscoroutinefunction = (\<lambda>f. Ok False), inspect_signature = (\<lambda>f. Ok []), callable_name = (\<lambda>f. Ok ''h'')\<rparr>"

fun sample_answer :: "log \<Rightarrow> action \<Rightarrow> pyerr + pyobj" where
  "sample_answer h (Call (Helper n) f xs kw) =
     (if n = ''Response'' then Inr (PyObject n (kw @ [(''cookies'', PyNone)])) else Inr PyNone)"
| "sample_answer h (Call ResponseMiddleware f [s, r] kw) = Inr r"
| "sample_answer h (Call RouteHandler f xs kw) = Inr f"
| "sample_answer h a = Inr PyNone"

definition sample_env :: "string env" where
  "sample_env = \<lparr>answer = sample_answer, clock = length,
     env_rl = \<lparr>hash_key = length, first_key = (\<lambda>m. map_option fst (List.find (\<lambda>_. True) m))\<rparr>,
     env_libs = sample_env_libs, env_wire = sample_wire, env_debug = False, env_max_body = 16,
     env_error_text = (\<lambda>e. ''error''), env_rows = (\<lambda>h p q xs. []), env_alloc = (\<lambda>n. True),
     env_query_order = (\<lambda>m. m)\<rparr>"

definition sample_ctx :: "string ctx" where
  "sample_ctx = \<lparr>tr = [],
     lims = (\<lambda>_. limiter_new \<lparr>cfg_limit = 1, cfg_window = Fin 60, cfg_strategy = Ip\<rparr>),
     app = sample_state\<rparr>"

lemmas sample_simps = sample_env_def sample_ctx_def sample_env_libs_def sample_jwt_json_def
  sample_wire_def

text \<open>The combinators, to run a computation on a concrete context.\<close>

lemmas run_simps = ibind_def icase_def ithen_def iignore_def ireturn_def ilift_def iask_def iget_def
  ishared_def perform_def respond_def Let_def

end
