(* ===== verification/HandlerFacts.thy ===== *)
theory HandlerFacts
  imports Samples
begin

text \<open>
  What holds of the responses that \<open>HandlerMap\<close> builds: no header is split, the configured
  CORS headers win and the security headers yield, \<open>HEAD\<close> answers as \<open>GET\<close> without the
  body; and what the response middleware does to repeated headers.
\<close>

section \<open>Structured responses are clean\<close>

lemma contains_crlf_clean: "\<not> contains_crlf s \<longleftrightarrow> clean s"
  by (auto simp: contains_crlf_def clean_def list_ex_iff list_all_iff)

lemma safe_cookie_clean: "\<not> is_unsafe_cookie_line s \<Longrightarrow> clean s"
  by (simp add: is_unsafe_cookie_line_def contains_crlf_clean)

lemma checked_pairs_clean: "checked_pairs d = Ok ps \<Longrightarrow> clean_pairs ps"
  by (induction d arbitrary: ps rule: checked_pairs.induct)
    (auto simp: contains_crlf_clean split: if_splits)

lemma checked_cookies_clean:
  "checked_cookies l = Ok ps \<Longrightarrow> clean_pairs ps \<and> list_all (\<lambda>(k, v). k = ''set-cookie'' \<and> \<not> has_control v) ps"
  by (induction l arbitrary: ps)
    (auto simp: safe_cookie_clean is_unsafe_cookie_line_def dest!: split: if_splits)

lemma optional_py_ok:
  "optional_py f v = Ok ps \<Longrightarrow> P [] \<Longrightarrow> (\<And>o1 qs. f o1 = Ok qs \<Longrightarrow> P qs) \<Longrightarrow> P ps"
  by (auto simp: optional_py_def split: option.splits if_splits)

lemma clean_ct [simp]: "clean ct_text" "clean ct_json" "clean ct_bytes"
  by (simp_all add: clean_def)

lemma only_True [simp]: "only (\<lambda>_. True) (perform a)" "only (\<lambda>_. True) (iask f)"
  by (auto intro: spec_intros)

lemma json_bytes_only: "only (\<lambda>_. True) (py_to_json_bytes_or_fallback b)"
  by (auto simp: py_to_json_bytes_or_fallback_def json_dumps_bytes_def intro!: spec_intros split: rust.split)

lemma json_bytes_yields: "yields (py_to_json_bytes_or_fallback b) (\<lambda>_. True)"
  by (rule only_yields_True [OF json_bytes_only])

lemma value_to_bytes_clean: "yields (value_to_bytes_and_ct b) (\<lambda>(body, ct). clean ct)"
  unfolding value_to_bytes_and_ct_def json_body_def
  by (auto intro!: yields_intros yields_bind [OF json_bytes_yields] split: pyobj.split option.split)

lemma has_header_Cons [simp]: "has_header n ((k, v) # hs) \<longleftrightarrow> eq_ignore_ascii_case k n \<or> has_header n hs"
  by (simp add: has_header_def)

lemma has_header_append [simp]: "has_header n (hs @ hs') \<longleftrightarrow> has_header n hs \<or> has_header n hs'"
  by (simp add: has_header_def)

definition hm_clean :: "handler_map \<Rightarrow> bool" where
  "hm_clean m \<longleftrightarrow> (case m of AlreadySent \<Rightarrow> True
     | WithHeaders st b hs \<Rightarrow> clean_pairs hs \<and> has_header ''content-type'' hs
     | Simple st b ct \<Rightarrow> clean ct)"

lemma structured_clean: "yields (structured_from_status_body st b h c) hm_clean"
  unfolding structured_from_status_body_def
proof (rule yields_bind [where R = "\<lambda>_. True"], rule yields_lift, simp,
    rule yields_bind [OF value_to_bytes_clean], clarify)
  fix status body ct assume ct: "clean ct"
  show "yields (ibind (ilift (optional_py (\<lambda>h. rbind (dict_of h) checked_pairs) h)) (\<lambda>pairs0.
     ibind (ilift (optional_py (\<lambda>c. rbind (list_of c) checked_cookies) c)) (\<lambda>cs.
       ireturn (WithHeaders status (Owned body)
         ((if has_header ''content-type'' pairs0 then pairs0
           else (''content-type'', ct) # pairs0) @ cs))))) hm_clean"
  proof (rule yields_bind [where R = clean_pairs])
    show "yields (ilift (optional_py (\<lambda>h. rbind (dict_of h) checked_pairs) h)) clean_pairs"
      by (rule yields_lift) (auto elim!: optional_py_ok dest: checked_pairs_clean)
  next
    fix pairs0 assume p: "clean_pairs pairs0"
    have "yields (ilift (optional_py (\<lambda>c. rbind (list_of c) checked_cookies) c)) clean_pairs"
      by (rule yields_lift) (auto elim!: optional_py_ok dest: checked_cookies_clean)
    then show "yields (ibind (ilift (optional_py (\<lambda>c. rbind (list_of c) checked_cookies) c)) (\<lambda>cs.
       ireturn (WithHeaders status (Owned body)
         ((if has_header ''content-type'' pairs0 then pairs0
           else (''content-type'', ct) # pairs0) @ cs)))) hm_clean"
      by (rule yields_bind) (use p ct in \<open>auto intro!: yields_return simp: hm_clean_def clean_def\<close>)
  qed
qed

lemma json_reply_clean: "yields (json_reply b) hm_clean"
  unfolding json_reply_def
  by (rule yields_bind [OF json_bytes_yields]) (auto intro: yields_return simp: hm_clean_def)

lemma py_str_yields: "yields (py_str v) (\<lambda>_. True)"
  by (rule only_yields_True) (auto simp: py_str_def intro!: spec_intros split: pyobj.split)

lemma response_attrs_clean: "yields (structured_from_response_attrs b) hm_clean"
  unfolding structured_from_response_attrs_def
  by (rule yields_bind [where R = "\<lambda>_. True"], rule yields_lift, simp)+ (rule structured_clean)

lemma map_dict_clean: "yields (map_dict_return b d) hm_clean"
  unfolding map_dict_return_def Let_def
  by (auto intro!: structured_clean json_reply_clean yields_case [OF py_str_yields] yields_return
      simp: hm_clean_def split: option.split)

lemma map_handler_clean: "yields (map_handler_return out) hm_clean"
  unfolding map_handler_return_def
  by (auto intro!: yields_return json_reply_clean map_dict_clean response_attrs_clean
      simp: hm_clean_def split: pyobj.split option.split)

text \<open>
  C11. A handler cannot split the response: whatever value it returns, in whatever
  environment, the headers of the response it is mapped to contain no CR and no LF, and a
  structured response always has a content type. A value with an unsafe header or cookie
  is an error instead.
\<close>

theorem handler_response_clean:
  assumes "map_handler_return out W c = (Ok m, c')"
  shows "case m of AlreadySent \<Rightarrow> True
    | WithHeaders st b hs \<Rightarrow> clean_pairs hs \<and> has_header ''content-type'' hs
    | Simple st b ct \<Rightarrow> clean ct"
  using yieldsD [OF map_handler_clean assms] by (simp add: hm_clean_def)

section \<open>The interface of a header merge\<close>

text \<open>
  Both merges put the configured pairs one by one. Each put leaves the headers of other
  names alone and makes sure that the name is there; so does the merge of any list.
\<close>

definition named :: "string \<Rightarrow> header_pairs \<Rightarrow> header_pairs" where
  "named n hs = filter (\<lambda>(k, v). eq_ignore_ascii_case k n) hs"

lemma named_simps [simp]:
  "named n [] = []" "named n (hs @ hs') = named n hs @ named n hs'"
  "named n ((k, v) # hs) = (if eq_ignore_ascii_case k n then (k, v) # named n hs else named n hs)"
  by (simp_all add: named_def)

lemma has_header_named: "has_header n hs \<longleftrightarrow> named n hs \<noteq> []"
  by (auto simp: has_header_def named_def list_ex_iff filter_empty_conv)

locale header_merger =
  fixes put :: "string \<times> string \<Rightarrow> header_pairs \<Rightarrow> header_pairs"
  assumes put_other: "\<not> eq_ignore_ascii_case (fst ab) n \<Longrightarrow> named n (put ab hs) = named n hs"
    and put_has: "has_header (fst ab) (put ab hs)"
    and put_clean: "clean_pairs hs \<Longrightarrow> clean (fst ab) \<Longrightarrow> clean (snd ab) \<Longrightarrow> clean_pairs (put ab hs)"
begin

lemma merge_other: "\<not> has_header n pairs \<Longrightarrow> named n (fold put pairs hs) = named n hs"
  by (induction pairs arbitrary: hs) (auto simp: put_other)

lemma merge_clean: "clean_pairs hs \<Longrightarrow> clean_pairs pairs \<Longrightarrow> clean_pairs (fold put pairs hs)"
proof (induction pairs arbitrary: hs)
  case (Cons x pairs)
  then show ?case using put_clean [of hs x] by (cases x) auto
qed simp

lemma put_keeps: "has_header n hs \<Longrightarrow> has_header n (put ab hs)"
proof (cases "eq_ignore_ascii_case (fst ab) n")
  case True
  have "has_header (fst ab) (put ab hs)" by (rule put_has)
  with True show ?thesis
    unfolding has_header_def list_ex_iff by (auto intro: eq_ignore_trans)
qed (simp add: has_header_named put_other)

lemma merge_keeps: "has_header n hs \<Longrightarrow> has_header n (fold put pairs hs)"
  by (induction pairs arbitrary: hs) (auto intro: put_keeps)

lemma merge_has: "(a, b) \<in> set pairs \<Longrightarrow> has_header a (fold put pairs hs)"
proof (induction pairs arbitrary: hs)
  case (Cons x pairs)
  then show ?case using put_has [of x hs] by (auto intro: merge_keeps)
qed simp

end

lemma named_filter: "named n (filter (\<lambda>(k, v). \<not> eq_ignore_ascii_case k m) hs) =
    (if eq_ignore_ascii_case m n then [] else named n hs)"
  by (induction hs) (auto simp: eq_ignore_ascii_case_def)

interpretation replace: header_merger put_replace
proof
  fix ab :: "string \<times> string" and n hs
  show "\<not> eq_ignore_ascii_case (fst ab) n \<Longrightarrow> named n (put_replace ab hs) = named n hs"
    by (cases ab) (simp add: put_replace_def named_filter)
  show "has_header (fst ab) (put_replace ab hs)" by (cases ab) (simp add: put_replace_def)
  show "clean_pairs hs \<Longrightarrow> clean (fst ab) \<Longrightarrow> clean (snd ab) \<Longrightarrow> clean_pairs (put_replace ab hs)"
    by (cases ab) (auto simp: put_replace_def clean_pairs_def)
qed

interpretation absent: header_merger put_if_absent
proof
  fix ab :: "string \<times> string" and n hs
  show "\<not> eq_ignore_ascii_case (fst ab) n \<Longrightarrow> named n (put_if_absent ab hs) = named n hs"
    by (cases ab) (simp add: put_if_absent_def)
  show "has_header (fst ab) (put_if_absent ab hs)" by (cases ab) (simp add: put_if_absent_def)
  show "clean_pairs hs \<Longrightarrow> clean (fst ab) \<Longrightarrow> clean (snd ab) \<Longrightarrow> clean_pairs (put_if_absent ab hs)"
    by (cases ab) (auto simp: put_if_absent_def)
qed

section \<open>Configured headers on a response\<close>

abbreviation acao :: string where "acao \<equiv> ''Access-Control-Allow-Origin''"

lemma named_put_replace: "named n (put_replace (n, v) hs) = [(n, v)]"
  by (simp add: put_replace_def named_filter)

lemma has_header_cong:
  "eq_ignore_ascii_case a n \<Longrightarrow> has_header a hs = has_header n hs"
  by (simp add: has_header_def eq_ignore_ascii_case_def)

lemma absent_keeps_named: "has_header n hs \<Longrightarrow> named n (fold put_if_absent pairs hs) = named n hs"
proof (induction pairs arbitrary: hs)
  case (Cons x pairs)
  have "named n (put_if_absent x hs) = named n hs"
  proof (cases "eq_ignore_ascii_case (fst x) n")
    case True
    with Cons.prems show ?thesis by (simp add: put_if_absent_def has_header_cong)
  qed (rule absent.put_other)
  moreover have "has_header n (put_if_absent x hs)" using Cons.prems by (rule absent.put_keeps)
  ultimately show ?case using Cons.IH [of "put_if_absent x hs"] by simp
qed simp

text \<open>The headers of a mapped value, as they would be sent.\<close>

fun hm_pairs :: "handler_map \<Rightarrow> header_pairs" where
  "hm_pairs (WithHeaders st b hs) = hs"
| "hm_pairs (Simple st b ct) = [(''content-type'', ct)]"
| "hm_pairs AlreadySent = []"

lemma hm_pairs_absent:
  "m \<noteq> AlreadySent \<Longrightarrow> hm_pairs (merge_header_pairs_if_absent m ps) = fold put_if_absent ps (hm_pairs m)
    \<and> merge_header_pairs_if_absent m ps \<noteq> AlreadySent
    \<and> hm_status (merge_header_pairs_if_absent m ps) = hm_status m
    \<and> hm_body (merge_header_pairs_if_absent m ps) = hm_body m"
  by (cases m) (auto simp: merge_header_pairs_if_absent_def merge_into_def)

lemma hm_pairs_replace:
  "m \<noteq> AlreadySent \<Longrightarrow> hm_pairs (merge_header_pairs_replace m ps) = fold put_replace ps (hm_pairs m)
    \<and> merge_header_pairs_replace m ps \<noteq> AlreadySent
    \<and> hm_status (merge_header_pairs_replace m ps) = hm_status m
    \<and> hm_body (merge_header_pairs_replace m ps) = hm_body m"
  by (cases m) (auto simp: merge_header_pairs_replace_def merge_into_def)

definition same_answer :: "handler_map \<Rightarrow> handler_map \<Rightarrow> bool" where
  "same_answer m m' \<longleftrightarrow> m' \<noteq> AlreadySent \<and> hm_status m' = hm_status m \<and> hm_body m' = hm_body m"

lemma python_pairs_yields: "yields (python_pairs cfg) (\<lambda>_. True)"
  by (rule only_yields_True) (auto simp: python_pairs_def intro!: spec_intros)

lemma merge_security_yields:
  "m \<noteq> AlreadySent \<Longrightarrow> yields (merge_security snap sc m)
    (\<lambda>m'. same_answer m m' \<and> (\<forall>n. has_header n (hm_pairs m) \<longrightarrow> named n (hm_pairs m') = named n (hm_pairs m)))"
  unfolding merge_security_def
  by (auto intro!: yields_return yields_bind [OF python_pairs_yields]
      simp: same_answer_def hm_pairs_absent absent_keeps_named split: option.split)

lemma cors_pairs_form:
  "select_allow_origin c origin = Some s \<Longrightarrow>
    \<exists>ps. cors_header_pairs c origin = (acao, s) # ps \<and> \<not> has_header acao ps"
  by (auto simp: cors_header_pairs_def has_header_def eq_ignore_ascii_case_def ascii_lower_def split: option.split)

text \<open>
  C23. A CORS answer cannot be overridden by a handler: with a compiled CORS configuration
  that allows the origin of the request, the response carries exactly one
  \<open>Access-Control-Allow-Origin\<close>, the one that the configuration selects, whatever headers
  the handler and the security preset have set; status and body are the handler's.
\<close>

theorem cors_answer_wins:
  assumes "merge_config_response_headers snap sc m W c = (Ok m', c')" "m \<noteq> AlreadySent"
    and "f_compiled_cors snap = Some cfg" "sc_headers sc = Some h"
    and "header_get_lax h ''origin'' = Some origin" "select_allow_origin cfg origin = Some s"
  shows "m' \<noteq> AlreadySent \<and> hm_status m' = hm_status m \<and> hm_body m' = hm_body m
    \<and> named acao (hm_pairs m') = [(acao, s)]"
proof -
  obtain ps where ps: "cors_header_pairs cfg origin = (acao, s) # ps" "\<not> has_header acao ps"
    using cors_pairs_form [OF assms(6)] by blast
  have "yields (merge_cors snap sc m1) (\<lambda>m'. same_answer m m' \<and> named acao (hm_pairs m') = [(acao, s)])"
    if "same_answer m m1" for m1
    using that assms(3-5) ps unfolding merge_cors_def scope_headers_def
    by (auto simp: same_answer_def hm_pairs_replace replace.merge_other named_put_replace
        intro!: yields_bind [where R = "\<lambda>x. x = h"] yields_lift yields_return)
  then have "yields (merge_config_response_headers snap sc m)
      (\<lambda>m'. same_answer m m' \<and> named acao (hm_pairs m') = [(acao, s)])"
    using assms(2) unfolding merge_config_response_headers_def
    by (simp, intro yields_bind [OF merge_security_yields [OF assms(2)]]) blast
  from yieldsD [OF this assms(1)] show ?thesis by (simp add: same_answer_def)
qed

text \<open>
  C24. The security preset never overrides a handler: every header that the handler has set
  keeps exactly its values, also when the preset configures the same name.
\<close>

theorem security_preset_yields:
  assumes "merge_security snap sc m W c = (Ok m', c')" "m \<noteq> AlreadySent" "has_header n (hm_pairs m)"
  shows "named n (hm_pairs m') = named n (hm_pairs m) \<and> hm_status m' = hm_status m \<and> hm_body m' = hm_body m"
  using yieldsD [OF merge_security_yields [OF assms(2)] assms(1)] assms(3) by (simp add: same_answer_def)

section \<open>HEAD and GET\<close>

fun reply_body :: "reply \<Rightarrow> bytes" where
  "reply_body (ResponseEmpty st hs) = []"
| "reply_body (ResponseStr st hs t) = t"
| "reply_body (ResponseBytes st hs b) = b"

text \<open>The one protocol call that a mapped value makes.\<close>

definition map_reply :: "bool \<Rightarrow> handler_map \<Rightarrow> reply" where
  "map_reply is_head m =
     (case m of
        WithHeaders status body headers \<Rightarrow>
          if is_head then head_reply (status, byte_len body, headers)
          else (case body of
                  PyString_body s \<Rightarrow> ResponseStr status (build_header_list_from_pairs headers) s
                | PyBytes_body b \<Rightarrow> ResponseBytes status (build_header_list_from_pairs headers) b
                | Owned v \<Rightarrow> headers_reply (status, v, headers))
      | Simple status body ct \<Rightarrow>
          if is_head then head_simple_reply (status, byte_len body, ct)
          else (case body of
                  Owned b \<Rightarrow> bytes_reply (status, b, ct)
                | PyBytes_body b \<Rightarrow> bytes_reply (status, b, ct)
                | PyString_body s \<Rightarrow> text_reply (status, s, ct)))"

lemma send_inline_reply:
  "m \<noteq> AlreadySent \<Longrightarrow> send_handler_map_inline is_head m = respond (map_reply is_head m)"
  by (cases m)
    (auto simp: send_handler_map_inline_def map_reply_def sender_defs reply_defs send_simple_body_sync_def
      show_nat_0 split: simple_body.split)

lemma respond_actions: "map fst (tr (snd (respond rp W c))) = map fst (tr c) @ [Respond rp]"
  by (simp add: respond_def ibind_def perform_def Let_def ireturn_def ilift_def split: sum.split)

lemma named_build:
  "named ''content-length'' (build_header_list_from_pairs (with_content_length len hs)) =
    [(''content-length'', show_nat len)]"
proof -
  have "named ''content-length'' (build_header_list_from_pairs
      (filter (\<lambda>(k, v). \<not> eq_ignore_ascii_case k ''content-length'') hs)) = []"
    by (induction hs) (auto simp: build_header_list_from_pairs_def wire_name_lower)
  then show ?thesis
    by (simp add: build_header_list_from_pairs_def with_content_length_def wire_name_lower str_simps)
qed

definition no_length :: "header_pairs \<Rightarrow> header_pairs" where
  "no_length hs = filter (\<lambda>(k, v). \<not> eq_ignore_ascii_case k ''content-length'') hs"

lemma no_length_build:
  "no_length (build_header_list_from_pairs (with_content_length len hs)) =
    no_length (build_header_list_from_pairs hs)"
  by (induction hs)
    (auto simp: no_length_def build_header_list_from_pairs_def with_content_length_def wire_name_lower)

lemma head_send_agrees:
  assumes "m \<noteq> AlreadySent"
  shows "\<exists>rp hs.
    map fst (tr (snd (send_handler_map_inline False m W c))) = map fst (tr c) @ [Respond rp]
    \<and> map fst (tr (snd (send_handler_map_inline True m W c)))
        = map fst (tr c) @ [Respond (ResponseEmpty (rp_status rp) hs)]
    \<and> named ''content-length'' hs = [(''content-length'', show_nat (length (reply_body rp)))]
    \<and> no_length hs = no_length (rp_headers rp)"
proof (cases m)
  case (WithHeaders st b hs)
  let ?hs = "build_header_list_from_pairs (with_content_length (byte_len b) hs)"
  have "map_reply True m = ResponseEmpty st ?hs" using WithHeaders by (simp add: map_reply_def head_reply_def)
  moreover have "rp_status (map_reply False m) = st" "length (reply_body (map_reply False m)) = byte_len b"
    "rp_headers (map_reply False m) = build_header_list_from_pairs hs"
    using WithHeaders by (auto simp: map_reply_def headers_reply_def split: simple_body.split)
  ultimately show ?thesis
    using assms by (intro exI [of _ "map_reply False m"] exI [of _ ?hs])
      (simp add: send_inline_reply respond_actions named_build no_length_build)
next
  case (Simple st b ct)
  let ?hs = "[(''content-type'', ct), (''content-length'', show_nat (byte_len b))]"
  have "map_reply True m = ResponseEmpty st ?hs" using Simple by (simp add: map_reply_def head_simple_reply_def)
  moreover have "rp_status (map_reply False m) = st" "length (reply_body (map_reply False m)) = byte_len b"
    "rp_headers (map_reply False m) = [(''content-type'', ct)]"
    using Simple by (auto simp: map_reply_def text_reply_def bytes_reply_def split: simple_body.split)
  ultimately show ?thesis
    using assms by (intro exI [of _ "map_reply False m"] exI [of _ ?hs])
      (simp add: send_inline_reply respond_actions no_length_def eq_ignore_ascii_case_def ascii_lower_def)
qed (use assms in simp)

section \<open>Repeated headers under response middleware\<close>

text \<open>
  C36. With response middleware, a response loses cookies: its headers reach the middleware
  through a dict, so of two \<open>Set-Cookie\<close> lines only the last survives, even when the
  middleware returns the response unchanged.
\<close>

theorem middleware_drops_cookies:
  assumes mk: "\<And>h kw. answer W h (Call (Helper ''Response'') cls [] kw) =
      Inr (PyObject ''Response'' (kw @ [(''cookies'', PyNone)]))"
    and mw: "\<And>h r. answer W h (Call ResponseMiddleware mw [scope_py, r] []) = Inr r"
    and safe: "\<not> contains_crlf b" "\<not> contains_crlf t"
  shows "fst (run_response_middleware cls [mw]
      (WithHeaders 200 (Owned body) [(''content-type'', t), (''set-cookie'', a), (''set-cookie'', b)]) W c)
    = Ok (WithHeaders 200 (Owned body) [(''content-type'', t), (''set-cookie'', b)])"
proof -
  have "\<not> contains_crlf ''content-type''" "\<not> contains_crlf ''set-cookie''" by (simp_all add: contains_crlf_def)
  then show ?thesis
    using safe
    by (simp add: run_simps mk mw response_kwargs_def body_py_def dict_set_def map_handler_return_def
        stream_done_def getattr_as_def is_oxyroute_response_def structured_from_response_attrs_def attr_of_def
        structured_from_status_body_def u16_of_def value_to_bytes_and_ct_def optional_py_def dict_of_def
        str_of_def eq_ignore_ascii_case_def ascii_lower_def has_header_def)
qed

section \<open>Witnesses\<close>

theorem handler_response_clean_witness:
  "clean_pairs [(''content-type'', ct_text), (''set-cookie'', ''a=1'')]"
proof -
  have "map_handler_return (PyDict [(PyStr ''status'', PyInt 200), (PyStr ''body'', PyStr ''x''),
      (PyStr ''cookies'', PyList [PyStr ''a=1''])]) sample_env sample_ctx =
    (Ok (WithHeaders 200 (Owned ''x'') [(''content-type'', ct_text), (''set-cookie'', ''a=1'')]), sample_ctx)"
    by (simp add: run_simps map_handler_return_def map_dict_return_def structured_from_status_body_def
        u16_of_def value_to_bytes_and_ct_def optional_py_def list_of_def str_of_def is_unsafe_cookie_line_def
        contains_crlf_def has_header_def)
  from handler_response_clean [OF this] show ?thesis by simp
qed

definition sample_snapshot :: "string frozen_state" where
  "sample_snapshot = (snapshot app_state_new)\<lparr>f_cors := Some sample_cors_py, f_compiled_cors := Some sample_cors,
     f_security_headers := Some PyNone,
     f_compiled_security := Some \<lparr>hsts = None, x_content_type_options = Some ''nosniff'', x_frame_options = Some ''DENY'',
        referrer_policy = None, content_security_policy = None, permissions_policy = None, sec_extra = []\<rparr>\<rparr>"

definition sample_scope :: scope where
  "sample_scope = \<lparr>sc_proto = ''http'', sc_method = ''GET'', sc_path = ''/a/5'', sc_query = Some [],
     sc_headers = Some (HDict [(PyStr ''origin'', PyStr ''https://a'')]), sc_client = ClientMissing,
     sc_scheme = Some ''http''\<rparr>"

lemmas sample_merge_simps = sample_snapshot_def app_state_new_def sample_scope_def merge_security_def
  merge_cors_def scope_headers_def header_get_lax_def nonempty_str_def sample_cors_def cors_header_pairs_def
  select_allow_origin_def security_header_pairs_def opt_header_def merge_header_pairs_if_absent_def
  merge_header_pairs_replace_def merge_into_def put_replace_def put_if_absent_def has_header_def
  eq_ignore_ascii_case_def ascii_lower_def

theorem cors_answer_wins_witness:
  "named acao (hm_pairs (WithHeaders 200 (Owned ''x'')
     [(''content-type'', ct_text), (''X-Content-Type-Options'', ''nosniff''), (''X-Frame-Options'', ''DENY''),
      (acao, ''https://a''), (''Access-Control-Allow-Credentials'', ''true''), (''Vary'', ''Origin'')]))
    = [(acao, ''https://a'')]"
proof -
  have "merge_config_response_headers sample_snapshot sample_scope
      (WithHeaders 200 (Owned ''x'') [(''content-type'', ct_text), (''access-control-allow-origin'', ''*'')])
      sample_env sample_ctx =
    (Ok (WithHeaders 200 (Owned ''x'')
     [(''content-type'', ct_text), (''X-Content-Type-Options'', ''nosniff''), (''X-Frame-Options'', ''DENY''),
      (acao, ''https://a''), (''Access-Control-Allow-Credentials'', ''true''), (''Vary'', ''Origin'')]), sample_ctx)"
    by (simp add: merge_config_response_headers_def run_simps sample_merge_simps) code_simp
  from cors_answer_wins [OF this, of sample_cors "HDict [(PyStr ''origin'', PyStr ''https://a'')]" "''https://a''" "''https://a''"]
  show ?thesis by (simp add: sample_merge_simps)
qed

theorem security_preset_yields_witness:
  "named ''X-Frame-Options'' [(''x-frame-options'', ''SAMEORIGIN''), (''X-Content-Type-Options'', ''nosniff'')]
    = [(''x-frame-options'', ''SAMEORIGIN'')]"
proof -
  have "merge_security sample_snapshot sample_scope
      (WithHeaders 200 (Owned ''x'') [(''x-frame-options'', ''SAMEORIGIN'')]) sample_env sample_ctx =
    (Ok (WithHeaders 200 (Owned ''x'') [(''x-frame-options'', ''SAMEORIGIN''), (''X-Content-Type-Options'', ''nosniff'')]),
     sample_ctx)"
    by (simp add: run_simps sample_merge_simps) code_simp
  from security_preset_yields [OF this, of "''X-Frame-Options''"]
  show ?thesis by (simp add: has_header_def eq_ignore_ascii_case_def ascii_lower_def) code_simp
qed

theorem middleware_drops_cookies_witness:
  "fst (run_response_middleware PyNone [PyNone]
      (WithHeaders 200 (Owned ''x'') [(''content-type'', ct_text), (''set-cookie'', ''a=1''), (''set-cookie'', ''b=2'')])
      sample_env sample_ctx)
    = Ok (WithHeaders 200 (Owned ''x'') [(''content-type'', ct_text), (''set-cookie'', ''b=2'')])"
  by (rule middleware_drops_cookies) (simp_all add: sample_env_def contains_crlf_def)

end
