(* ===== verification/ErrorPath.thy ===== *)
theory ErrorPath
  imports HandlerFacts
begin

text \<open>
  \<open>src/src/dispatch.rs\<close>, what happens to a Python error: the registered exception handlers,
  \<open>HTTPException\<close>, and the internal error with its detail in debug mode. The log messages
  are not modelled.
\<close>

section \<open>The exception of the framework\<close>

text \<open>The exception object that Python code gets.\<close>

definition exc_py :: "pyerr \<Rightarrow> pyobj" where
  "exc_py e = (case e of PyErr cls msg \<Rightarrow> PyObject cls [(''args'', PyTuple [PyStr msg])])"

fun payload_headers :: "pyobj list \<Rightarrow> header_pairs option pyres" where
  "payload_headers [] = Ok (Some [])"
| "payload_headers (item # items) =
     rbind (tuple_of item) (\<lambda>p.
     rbind (rbind (item_of p 0) str_of) (\<lambda>k.
     rbind (rbind (item_of p 1) str_of) (\<lambda>v.
       if contains_crlf k \<or> contains_crlf v then Ok None
       else rbind (payload_headers items) (\<lambda>r. Ok (map_option (\<lambda>ps. (k, v) # ps) r)))))"

definition bytes_of :: "pyobj \<Rightarrow> bytes pyres" where
  "bytes_of v = (case extract_bytes v of Some b \<Rightarrow> Ok b | None \<Rightarrow> type_error ''expected bytes'')"

type_synonym http_exception = "u16 \<times> bytes \<times> header_pairs"

definition payload_of :: "pyobj \<Rightarrow> http_exception option pyres" where
  "payload_of r =
     (if r = PyNone then Ok None
      else rbind (tuple_of r) (\<lambda>tup.
        if length tup \<noteq> 3 then Ok None
        else rbind (rbind (item_of tup 0) u16_of) (\<lambda>status.
             rbind (rbind (item_of tup 1) bytes_of) (\<lambda>body.
             rbind (rbind (item_of tup 2) list_of) (\<lambda>l.
             rbind (payload_headers l) (\<lambda>h.
               Ok (map_option (\<lambda>headers. (status, body, headers)) h)))))))"

definition http_exception_payload :: "pyerr \<Rightarrow> ('k, http_exception option) io" where
  "http_exception_payload err =
     ibind (perform (Call (Helper ''_http_exception_payload'') PyNone [exc_py err] [])) (\<lambda>r.
       ilift (payload_of r))"

definition ensure_http_exception_content_type :: "header_pairs \<Rightarrow> header_pairs" where
  "ensure_http_exception_content_type headers =
     (if has_header ''content-type'' headers then headers
      else (''content-type'', ct_json) # headers)"

definition try_http_exception :: "pyerr \<Rightarrow> ('k, pyobj option) io" where
  "try_http_exception err =
     ibind (http_exception_payload err) (\<lambda>p.
       case p of
         None \<Rightarrow> ireturn None
       | Some (st, body, headers) \<Rightarrow>
           ibind (send_with_headers st body (ensure_http_exception_content_type headers))
             (\<lambda>out. ireturn (Some out)))"

text \<open>The synchronous function returns \<open>true\<close> for \<open>Some ()\<close> and \<open>false\<close> for \<open>None\<close>.\<close>

definition try_http_exception_sync :: "pyerr \<Rightarrow> ('k, unit option) io" where
  "try_http_exception_sync err =
     ibind (http_exception_payload err) (\<lambda>p.
       case p of
         None \<Rightarrow> ireturn None
       | Some (st, body, headers) \<Rightarrow>
           ibind (send_with_headers_sync st body (ensure_http_exception_content_type headers))
             (\<lambda>out. ireturn (Some out)))"

section \<open>The internal error\<close>

definition ellipsis :: string where "ellipsis = [CHR 0xE2, CHR 0x80, CHR 0xA6]"

text \<open>\<open>&d[..4000]\<close> panics when byte 4000 is inside a character.\<close>

definition truncate_detail :: "string \<Rightarrow> string pyres" where
  "truncate_detail d =
     (if 4000 < length d
      then (if is_char_boundary d 4000 then Ok (take 4000 d @ ellipsis)
            else Panic ''byte index 4000 is not a char boundary'')
      else Ok d)"

definition internal_error_text :: string where
  "internal_error_text = ''{'' @ dquoted ''error'' @ '':'' @ dquoted ''internal server error'' @ ''}''"

definition internal_error_body :: "pyerr \<Rightarrow> ('k, string) io" where
  "internal_error_body err =
     ibind (iask (\<lambda>W. W)) (\<lambda>W.
       if env_debug W
       then ibind (ilift (truncate_detail (env_error_text W err))) (\<lambda>d.
              ireturn (json_to_string (lib_json (env_libs W))
                (JObj [(''error'', JStr ''internal server error''), (''detail'', JStr d)])))
       else ireturn internal_error_text)"

definition send_internal_error :: "pyerr \<Rightarrow> ('k, pyobj) io" where
  "send_internal_error err = ibind (internal_error_body err) (\<lambda>body. send_text 500 body ct_json)"

definition send_internal_error_sync :: "pyerr \<Rightarrow> ('k, unit) io" where
  "send_internal_error_sync err = ibind (internal_error_body err) (\<lambda>body. send_text_sync 500 body ct_json)"

section \<open>Exception handlers\<close>

text \<open>\<open>exc_obj.is_instance(cls).unwrap_or(false)\<close>\<close>

definition instance_of :: "pyerr \<Rightarrow> string \<Rightarrow> ('k, bool) io" where
  "instance_of err cls =
     icase (perform (IsInstance err cls)) (\<lambda>_. ireturn False) (\<lambda>r. ireturn (r = PyBool True))"

text \<open>The loop of the synchronous path, over the handlers from the last registered on.\<close>

fun sync_handlers :: "bool \<Rightarrow> pyerr \<Rightarrow> exc_handler list \<Rightarrow> ('k, unit) io \<Rightarrow> ('k, unit) io" where
  "sync_handlers is_head err [] otherwise = otherwise"
| "sync_handlers is_head err ((cls, h, asy) # hs) otherwise =
     ibind (instance_of err cls) (\<lambda>i.
       if \<not> i \<or> asy then sync_handlers is_head err hs otherwise
       else icase (perform (Call ExceptionHandler h [scope_py, exc_py err] []))
              (\<lambda>_. sync_handlers is_head err hs otherwise)
              (\<lambda>res. icase (map_handler_return res)
                 (\<lambda>_. sync_handlers is_head err hs otherwise)
                 (send_handler_map_inline is_head)))"

definition send_python_error_sync :: "'k frozen_state option \<Rightarrow> bool \<Rightarrow> pyerr \<Rightarrow> ('k, unit) io" where
  "send_python_error_sync snap is_head err =
     (let otherwise = ibind (try_http_exception_sync err) (\<lambda>r.
        case r of Some x \<Rightarrow> ireturn x | None \<Rightarrow> send_internal_error_sync err)
      in case snap of
           Some s \<Rightarrow> sync_handlers is_head err (rev (f_exception_handlers s)) otherwise
         | None \<Rightarrow> otherwise)"

text \<open>The first handler of the error's class whose call does not raise, with its result.\<close>

fun call_handlers :: "pyerr \<Rightarrow> exc_handler list \<Rightarrow> ('k, (pyobj \<times> bool) option) io" where
  "call_handlers err [] = ireturn None"
| "call_handlers err ((cls, h, asy) # hs) =
     ibind (instance_of err cls) (\<lambda>i.
       if \<not> i then call_handlers err hs
       else icase (perform (Call ExceptionHandler h [scope_py, exc_py err] []))
              (\<lambda>_. call_handlers err hs) (\<lambda>res. ireturn (Some (res, asy))))"

definition send_handled :: "bool \<Rightarrow> pyobj \<Rightarrow> ('k, pyobj) io \<Rightarrow> ('k, pyobj) io" where
  "send_handled is_head final otherwise =
     icase (map_handler_return final) (\<lambda>_. otherwise)
       (\<lambda>mapped. icase (send_handler_map_inline is_head mapped) (\<lambda>_. otherwise) (\<lambda>_. ireturn PyNone))"

definition send_python_error :: "'k frozen_state option \<Rightarrow> bool \<Rightarrow> pyerr \<Rightarrow> ('k, pyobj) io" where
  "send_python_error snap is_head err =
     (let otherwise = ibind (try_http_exception err) (\<lambda>r.
        case r of Some x \<Rightarrow> ireturn x | None \<Rightarrow> send_internal_error err)
      in case snap of
           None \<Rightarrow> otherwise
         | Some s \<Rightarrow>
             ibind (call_handlers err (rev (f_exception_handlers s))) (\<lambda>found.
               case found of
                 None \<Rightarrow> otherwise
               | Some (res, asy) \<Rightarrow>
                   if asy
                   then icase (perform (IntoFuture res))
                          (\<lambda>_. send_handled is_head res otherwise)
                          (\<lambda>_. icase (perform (Await res)) send_internal_error
                             (\<lambda>x. send_handled is_head x otherwise))
                   else send_handled is_head res otherwise))"

section \<open>An error is answered once\<close>

lemma silent_json_bytes [spec_intros]: "silent (py_to_json_bytes_or_fallback b)"
  by (auto simp: py_to_json_bytes_or_fallback_def json_dumps_bytes_def intro!: spec_intros split: rust.split)

lemma silent_value_to_bytes [spec_intros]: "silent (value_to_bytes_and_ct b)"
  by (auto simp: value_to_bytes_and_ct_def json_body_def intro!: spec_intros split: pyobj.split option.split)

lemma silent_structured [spec_intros]: "silent (structured_from_status_body st b h c)"
  by (auto simp: structured_from_status_body_def intro!: spec_intros)

lemma silent_map_handler [spec_intros]: "silent (map_handler_return out)"
  by (auto simp: map_handler_return_def map_dict_return_def json_reply_def py_str_def Let_def
      structured_from_response_attrs_def intro!: spec_intros split: pyobj.split option.split)

lemma json_reply_maps: "yields (json_reply b) (\<lambda>m. m \<noteq> AlreadySent)"
  unfolding json_reply_def by (rule yields_bind [OF json_bytes_yields]) (auto intro: yields_return)

lemma structured_maps: "yields (structured_from_status_body st b h c) (\<lambda>m. m \<noteq> AlreadySent)"
  unfolding structured_from_status_body_def
  by (rule yields_bind [where R = "\<lambda>_. True"], rule yields_lift, simp,
      rule yields_bind [OF value_to_bytes_clean], clarify,
      (rule yields_bind [where R = "\<lambda>_. True"], rule yields_lift, simp)+, rule yields_return, simp)

lemma response_attrs_maps: "yields (structured_from_response_attrs b) (\<lambda>m. m \<noteq> AlreadySent)"
  unfolding structured_from_response_attrs_def
  by (rule yields_bind [where R = "\<lambda>_. True"], rule yields_lift, simp)+ (rule structured_maps)

lemma map_dict_maps: "yields (map_dict_return b d) (\<lambda>m. m \<noteq> AlreadySent)"
  unfolding map_dict_return_def Let_def
  by (auto intro!: structured_maps json_reply_maps yields_case [OF py_str_yields] yields_return
      split: option.split)

lemma yields_mono: "yields m P \<Longrightarrow> (\<And>x. P x \<Longrightarrow> Q x) \<Longrightarrow> yields m Q"
  unfolding yields_def by (erule spec_mono) auto

lemma yields_maps: "yields m (\<lambda>m. m \<noteq> AlreadySent) \<Longrightarrow> yields m (\<lambda>m. m = AlreadySent \<longrightarrow> Q)"
  by (erule yields_mono) simp

lemma stream_done_data [simp]:
  "\<not> stream_done (PyList l)" "\<not> stream_done (PyTuple l)" "\<not> stream_done (PyDict d)"
  by (simp_all add: stream_done_def getattr_as_def)

lemma map_handler_sentinel: "yields (map_handler_return out) (\<lambda>m. m = AlreadySent \<longrightarrow> stream_done out)"
  unfolding map_handler_return_def
  by (auto intro!: yields_return yields_maps json_reply_maps response_attrs_maps map_dict_maps
      split: pyobj.split option.split)

lemma settles_send_map [spec_intros]: "settles (m = AlreadySent) (send_handler_map_inline is_head m)"
proof (cases "m = AlreadySent")
  case True
  then show ?thesis by (simp add: send_handler_map_inline_def settles_done)
next
  case False
  then show ?thesis by (simp add: send_inline_reply settles_respond_unit)
qed

lemma settles_send_mapped: "(m = AlreadySent \<Longrightarrow> S) \<Longrightarrow> settles S (send_handler_map_inline is_head m)"
  by (rule settles_mono [OF settles_send_map])

lemma silent_payload [spec_intros]: "silent (http_exception_payload err)"
  by (auto simp: http_exception_payload_def intro!: spec_intros)

lemma silent_instance_of [spec_intros]: "silent (instance_of err cls)"
  by (auto simp: instance_of_def intro!: spec_intros)

lemma silent_error_body [spec_intros]: "silent (internal_error_body err)"
  by (auto simp: internal_error_body_def intro!: spec_intros)

lemma settles_internal_error [spec_intros]:
  "settles S (send_internal_error err)" "settles S (send_internal_error_sync err)"
  unfolding send_internal_error_def send_internal_error_sync_def
  by (rule settles_silent_bind, rule silent_error_body, rule sender_settles)+

lemma attempts_send:
  fixes p :: "('k, 'b option) io"
  assumes p: "silent p" and send: "\<And>q. \<exists>rp x. send q = ibind (perform (Respond rp)) (\<lambda>_. ireturn x)"
  shows "attempts (ibind p (\<lambda>r. case r of None \<Rightarrow> ireturn None | Some q \<Rightarrow> ibind (send q) (\<lambda>x. ireturn (Some x))))"
  unfolding attempts_def
proof (rule spec_bind [OF silent_spec [OF p]])
  fix r :: "'b option" and n assume n: "responses n = 0"
  show "spec (case r of None \<Rightarrow> ireturn None | Some q \<Rightarrow> ibind (send q) (\<lambda>x. ireturn (Some x)))
     (\<lambda>r' n'. responses (n @ n') = (case r' of Ok (Some _) \<Rightarrow> 1 | _ \<Rightarrow> 0))"
  proof (cases r)
    case None
    with n show ?thesis by (auto intro: spec_return)
  next
    case (Some q)
    obtain rp x where q: "send q = ibind (perform (Respond rp)) (\<lambda>_. ireturn x)" using send by blast
    show ?thesis
      unfolding Some option.case q ibind_assoc ibind_return
      by (rule spec_bind [where R = "\<lambda>r n. responses n = (case r of Ok _ \<Rightarrow> 1 | _ \<Rightarrow> 0)"])
        (auto intro!: spec_perform spec_return simp: n)
  qed
qed auto

lemma attempts_http [spec_intros]: "attempts (try_http_exception err)" "attempts (try_http_exception_sync err)"
proof -
  let ?s = "\<lambda>(st, body, hs). send_with_headers st body (ensure_http_exception_content_type hs)"
  let ?t = "\<lambda>(st, body, hs). send_with_headers_sync st body (ensure_http_exception_content_type hs)"
  have s: "\<exists>rp x. ?s q = ibind (perform (Respond rp)) (\<lambda>_. ireturn x)" for q :: http_exception
    using headers_async.send_form [of "(fst q, fst (snd q), ensure_http_exception_content_type (snd (snd q)))"]
    by (cases q) auto
  have t: "\<exists>rp x. ?t q = ibind (perform (Respond rp)) (\<lambda>_. ireturn x)" for q :: http_exception
    using headers_sync.send_form [of "(fst q, fst (snd q), ensure_http_exception_content_type (snd (snd q)))"]
    by (cases q) auto
  have e1: "try_http_exception err = ibind (http_exception_payload err) (\<lambda>r. case r of None \<Rightarrow> ireturn None
      | Some q \<Rightarrow> ibind (?s q) (\<lambda>x. ireturn (Some x)))"
    unfolding try_http_exception_def
    by (rule arg_cong [where f = "ibind (http_exception_payload err)"], rule ext) (auto split: option.split)
  have e2: "try_http_exception_sync err = ibind (http_exception_payload err) (\<lambda>r. case r of None \<Rightarrow> ireturn None
      | Some q \<Rightarrow> ibind (?t q) (\<lambda>x. ireturn (Some x)))"
    unfolding try_http_exception_sync_def
    by (rule arg_cong [where f = "ibind (http_exception_payload err)"], rule ext) (auto split: option.split)
  show "attempts (try_http_exception err)"
    unfolding e1 by (rule attempts_send [where send = ?s, OF silent_payload s])
  show "attempts (try_http_exception_sync err)"
    unfolding e2 by (rule attempts_send [where send = ?t, OF silent_payload t])
qed

lemma settles_sync_handlers:
  "settles S otherwise \<Longrightarrow> settles S (sync_handlers is_head err hs otherwise)"
proof (induction hs)
  case (Cons x hs)
  obtain cls h asy where x: "x = (cls, h, asy)" by (cases x)
  have ih: "settles S' (sync_handlers is_head err hs otherwise)" if "S \<Longrightarrow> S'" for S'
    using Cons that by (blast intro: settles_mono)
  have "settles S (icase (perform (Call ExceptionHandler h [scope_py, exc_py err] []))
      (\<lambda>_. sync_handlers is_head err hs otherwise)
      (\<lambda>res. icase (map_handler_return res) (\<lambda>_. sync_handlers is_head err hs otherwise)
         (send_handler_map_inline is_head)))"
    by (rule settles_call_case, simp, rule ih, simp,
        rule settles_yields_case [OF silent_map_handler map_handler_sentinel], rule ih, simp,
        rule settles_send_mapped, simp)
  then show ?case
    using ih [of S] by (auto simp: x intro!: settles_silent_bind silent_instance_of)
qed simp

lemma settles_otherwise [spec_intros]:
  "settles S (ibind (try_http_exception err) (\<lambda>r.
      case r of Some x \<Rightarrow> ireturn x | None \<Rightarrow> send_internal_error err))"
  "settles S (ibind (try_http_exception_sync err) (\<lambda>r.
      case r of Some x \<Rightarrow> ireturn x | None \<Rightarrow> send_internal_error_sync err))"
  using settles_attempt [OF attempts_http(1) settles_internal_error(1), where g = "\<lambda>x. x"]
    settles_attempt [OF attempts_http(2) settles_internal_error(2), where g = "\<lambda>x. x"] .

lemma settles_python_error_sync [spec_intros]: "settles S (send_python_error_sync snap is_head err)"
  by (auto simp: send_python_error_sync_def Let_def
      intro!: settles_sync_handlers settles_otherwise split: option.split)

lemma settles_send_handled:
  assumes "settles S otherwise" "stream_done final \<Longrightarrow> S"
  shows "settles S (send_handled is_head final otherwise)"
  unfolding send_handled_def
  by (rule settles_yields_case [OF silent_map_handler map_handler_sentinel], rule assms(1),
      rule settles_retry, rule settles_send_mapped) (use assms in auto)

lemma call_handlers_spec:
  "spec (call_handlers err hs :: ('k, (pyobj \<times> bool) option) io) (\<lambda>r n. responses n = 0
     \<and> (\<forall>x. r = Ok x \<and> (\<exists>res asy. x = Some (res, asy) \<and> stream_done res) \<longrightarrow> list_ex sentinel n))"
  (is "spec _ ?Q")
proof (induction hs)
  case Nil
  then show ?case by (simp add: spec_return)
next
  case (Cons x hs)
  obtain cls h asy where x: "x = (cls, h, asy)" by (cases x)
  have later: "spec (call_handlers err hs :: ('k, (pyobj \<times> bool) option) io) (\<lambda>r n'. ?Q r (n @ n'))" if "responses n = 0" for n
    by (rule spec_mono [OF Cons]) (use that in auto)
  have "spec (icase (perform (Call ExceptionHandler h [scope_py, exc_py err] []))
      (\<lambda>_. call_handlers err hs :: ('k, (pyobj \<times> bool) option) io) (\<lambda>res. ireturn (Some (res, asy)))) (\<lambda>r n'. ?Q r (n @ n'))"
    if "responses n = 0" for n
    by (rule spec_case [where R = "\<lambda>r k. responses k = 0 \<and> (\<forall>x. r = Ok x \<and> stream_done x \<longrightarrow> list_ex sentinel k)"])
      (use that in \<open>auto intro!: spec_perform spec_return spec_mono [OF Cons]\<close>)
  with later show ?case
    unfolding x call_handlers.simps
    by (auto intro!: spec_bind [OF silent_spec [OF silent_instance_of]])
qed

lemma settles_awaited:
  assumes "\<And>S. settles S otherwise" "stream_done res \<Longrightarrow> S"
  shows "settles S (icase (perform (IntoFuture res)) (\<lambda>_. send_handled is_head res otherwise)
    (\<lambda>_. icase (perform (Await res)) send_internal_error (\<lambda>x. send_handled is_head x otherwise)))"
  by (rule settles_silent_case, rule silent_intros(6), simp, rule settles_send_handled [OF assms], assumption,
      rule settles_call_case, simp, rule settles_internal_error, rule settles_send_handled [OF assms(1)], simp)

lemma settles_python_error [spec_intros]: "settles S (send_python_error snap is_head err)"
proof (cases snap)
  case None
  then show ?thesis by (simp add: send_python_error_def settles_otherwise)
next
  case (Some s)
  show ?thesis
    unfolding send_python_error_def Some Let_def option.case ibind_icase [where m = "call_handlers _ _"]
    by (rule settles_quiet_case [OF call_handlers_spec], rule settles_err)
      (auto intro!: settles_otherwise settles_awaited settles_send_handled split: option.split prod.split)
qed

end
