(* ===== verification/Dispatch.thy ===== *)
theory Dispatch
  imports ErrorPath
begin

text \<open>
  \<open>src/src/dispatch.rs\<close>: the synchronous short circuit and the asynchronous path of an HTTP
  request, one definition per stage in the order of the code. A stage takes the rest of the
  request as its continuation; the early returns of the code are the branches that do not
  call it.
\<close>

section \<open>What both paths share\<close>

definition is_head :: "scope \<Rightarrow> bool" where
  "is_head sc \<longleftrightarrow> sc_method sc = ''HEAD''"

definition protocol_py :: pyobj where "protocol_py = PyObject ''RSGIHTTPProtocol'' []"

definition set_template :: "string \<Rightarrow> ('k, unit) io" where
  "set_template t = iignore (perform (SetTemplate t))"

definition header_of :: "scope \<Rightarrow> string \<Rightarrow> string option" where
  "header_of sc name = Option.bind (sc_headers sc) (\<lambda>h. header_get_lax h name)"

definition param_kwargs :: "string list \<Rightarrow> path_params \<Rightarrow> (string \<times> pyobj) list" where
  "param_kwargs wild params =
     fold (\<lambda>(k, v). al_put k (if k \<in> set wild then PyStr v else value_for_path_param v)) params []"

text \<open>The document, from the cache in the application state.\<close>

definition served_doc :: "('k, string) io" where
  "served_doc = ishared (\<lambda>W c.
     let (s, a) = app_openapi_json (lib_json (env_libs W)) (app c) in (Ok s, lims c, a))"

definition compiled_for :: "'k frozen_state \<Rightarrow> ('k, compiled_routers) io" where
  "compiled_for snap =
     (case f_compiled snap of
        Some c \<Rightarrow> ireturn c
      | None \<Rightarrow> ishared (\<lambda>W c.
          let (a, r) = ensure_compiled_snapshot (env_libs W) (app c)
          in (case r of Ok x \<Rightarrow> Ok x | Err m \<Rightarrow> Panic m | Panic m \<Rightarrow> Panic m, lims c, a)))"

definition is_openapi_request :: "'k frozen_state \<Rightarrow> scope \<Rightarrow> bool" where
  "is_openapi_request snap sc \<longleftrightarrow>
     (sc_method sc = ''GET'' \<or> sc_method sc = ''HEAD'') \<and> sc_path sc = ''/openapi.json''
     \<and> f_include_openapi snap"

text \<open>The answer to a preflight, if the request is one and CORS is compiled.\<close>

definition preflight_answer :: "'k frozen_state \<Rightarrow> scope \<Rightarrow> (header_pairs, u16 \<times> string) rust option pyres" where
  "preflight_answer snap sc =
     (if sc_method sc = ''OPTIONS''
      then (case f_compiled_cors snap of
              None \<Rightarrow> Ok None
            | Some c \<Rightarrow>
                rbind (scope_headers sc) (\<lambda>h.
                  case header_get_lax h ''access-control-request-method'' of
                    None \<Rightarrow> Ok None
                  | Some acrm \<Rightarrow>
                      Ok (Some (handle_preflight c acrm
                        (case header_get_lax h ''origin'' of Some s \<Rightarrow> s | None \<Rightarrow> [])
                        (case header_get_lax h ''access-control-request-headers'' of Some s \<Rightarrow> s | None \<Rightarrow> [])))))
      else Ok None)"

section \<open>The synchronous short circuit\<close>

definition run_trivial_sync_route ::
    "'k frozen_state \<Rightarrow> scope \<Rightarrow> 'k route_entry \<Rightarrow> path_params \<Rightarrow> ('k, unit) io" where
  "run_trivial_sync_route snap sc entry params =
     (let err = send_python_error_sync (Some snap) (is_head sc)
      in ithen (set_template (path_template (extra entry)))
        (icase (perform (Call RouteHandler (handler entry) []
            (if params = [] then [] else param_kwargs (wildcard_params (extra entry)) params))) err (\<lambda>out.
         icase (map_handler_return out) err (\<lambda>mapped.
         icase (merge_config_response_headers snap sc mapped) err (\<lambda>mapped.
         icase (send_handler_map_inline (is_head sc) mapped) err (\<lambda>_. ireturn ()))))))"

definition try_rsgi_sync_short_circuit :: "'k frozen_state \<Rightarrow> scope \<Rightarrow> ('k, pyobj option) io" where
  "try_rsgi_sync_short_circuit snap sc =
     (if sc_proto sc = ''websocket'' then ireturn None
      else if sc_proto sc \<noteq> ''http'' then ireturn (Some PyNone)
      else
        ibind (ilift (preflight_answer snap sc)) (\<lambda>pre.
        case pre of
          Some (Ok hs) \<Rightarrow> ibind (send_with_headers_sync 204 [] hs) (\<lambda>_. ireturn (Some PyNone))
        | Some (Err (status, msg)) \<Rightarrow> ibind (send_text_sync status msg ct_text) (\<lambda>_. ireturn (Some PyNone))
        | Some (Panic m) \<Rightarrow> ilift (Panic m)
        | None \<Rightarrow>
          if f_request_middleware snap \<noteq> [] \<or> f_response_middleware snap \<noteq> [] then ireturn None
          else if is_openapi_request snap sc
          then ithen (set_template ''/openapi.json'')
            (ibind served_doc (\<lambda>doc.
             ibind (if is_head sc then send_head_simple_sync 200 (length doc) ct_json
                    else send_str_sync 200 doc ct_json) (\<lambda>_. ireturn (Some PyNone))))
          else
            ibind (compiled_for snap) (\<lambda>c.
            ibind (iask (\<lambda>W. lib_matchit (env_libs W))) (\<lambda>M.
            case match_route_compiled M c (sc_method sc) (sc_path sc) of
              None \<Rightarrow> ilift (value_error ''method'')
            | Some (Some (idx, params)) \<Rightarrow>
                if f_cors snap \<noteq> None \<and> f_compiled_cors snap = None
                   \<or> f_security_headers snap \<noteq> None \<and> f_compiled_security snap = None
                then ireturn None
                else if idx < length (f_routes snap)
                then (let entry = f_routes snap ! idx
                      in if route_is_trivial_sync entry
                         then ibind (run_trivial_sync_route snap sc entry params) (\<lambda>_. ireturn (Some PyNone))
                         else ireturn None)
                else ilift (runtime_error ''route index'')
            | Some None \<Rightarrow>
                (let m = methods_matching_path_compiled M c (sc_path sc)
                 in ibind (if m = [] then send_text_sync 404 ''Not Found'' ct_text
                           else send_405_method_not_allowed_sync m) (\<lambda>_. ireturn (Some PyNone)))))))"

section \<open>Stages before the route\<close>

definition fail_with :: "'k frozen_state \<Rightarrow> scope \<Rightarrow> pyerr \<Rightarrow> ('k, pyobj) io" where
  "fail_with snap sc e = send_python_error (Some snap) (is_head sc) e"

definition openapi_stage :: "'k frozen_state \<Rightarrow> scope \<Rightarrow> ('k, pyobj) io \<Rightarrow> ('k, pyobj) io" where
  "openapi_stage snap sc k =
     (if is_openapi_request snap sc
      then ithen (set_template ''/openapi.json'')
        (ibind served_doc (\<lambda>doc.
          if is_head sc then send_head_simple 200 (length doc) ct_json
          else send_str 200 doc ct_json))
      else k)"

definition preflight_stage :: "'k frozen_state \<Rightarrow> scope \<Rightarrow> ('k, pyobj) io \<Rightarrow> ('k, pyobj) io" where
  "preflight_stage snap sc k =
     ibind (ilift (preflight_answer snap sc)) (\<lambda>pre.
       case pre of
         Some (Ok hs) \<Rightarrow> send_with_headers 204 [] hs
       | Some (Err (status, msg)) \<Rightarrow> send_text status msg ct_text
       | Some (Panic m) \<Rightarrow> ilift (Panic m)
       | None \<Rightarrow> k)"

text \<open>A middleware that returns something other than \<open>None\<close> answers the request.\<close>

fun middleware_stage :: "'k frozen_state \<Rightarrow> scope \<Rightarrow> pyobj list \<Rightarrow> ('k, pyobj) io \<Rightarrow> ('k, pyobj) io" where
  "middleware_stage snap sc [] k = k"
| "middleware_stage snap sc (mw # mws) k =
     icase (perform (Call RequestMiddleware mw [scope_py, protocol_py] [])) (fail_with snap sc) (\<lambda>out.
       if out = PyNone then middleware_stage snap sc mws k
       else icase (finish_response snap sc (is_head sc) out) (fail_with snap sc) (\<lambda>_. ireturn PyNone))"

definition route_stage :: "'k frozen_state \<Rightarrow> scope
    \<Rightarrow> (nat \<Rightarrow> 'k route_entry \<Rightarrow> path_params \<Rightarrow> ('k, pyobj) io) \<Rightarrow> ('k, pyobj) io" where
  "route_stage snap sc k =
     ibind (compiled_for snap) (\<lambda>c.
     ibind (iask (\<lambda>W. lib_matchit (env_libs W))) (\<lambda>M.
       case match_route_compiled M c (sc_method sc) (sc_path sc) of
         None \<Rightarrow> ilift (value_error ''method'')
       | Some None \<Rightarrow>
           (let m = methods_matching_path_compiled M c (sc_path sc)
            in if m = [] then send_text 404 ''Not Found'' ct_text else send_405_method_not_allowed m)
       | Some (Some (idx, params)) \<Rightarrow>
           if idx < length (f_routes snap) then k idx (f_routes snap ! idx) params
           else ilift (runtime_error ''route index'')))"

section \<open>Stages before the handler\<close>

text \<open>\<open>RateLimiter::check\<close> on the limiter of the route, at the current instant.\<close>

definition check_limiter :: "nat \<Rightarrow> string \<Rightarrow> ('k, rl_decision) io" where
  "check_limiter idx key = ishared (\<lambda>W c.
     let (d, L) = rl_check (env_rl W) (clock W (tr c)) key (lims c idx)
     in (Ok d, (lims c)(idx := L), app c))"

definition rate_stage :: "scope \<Rightarrow> nat \<Rightarrow> 'k route_entry \<Rightarrow> ('k, pyobj) io \<Rightarrow> ('k, pyobj) io" where
  "rate_stage sc idx entry k =
     (case rate_limiter (extra entry) of
        None \<Rightarrow> k
      | Some rl \<Rightarrow>
          ibind (check_limiter idx (extract_rate_limit_key sc (rl_strategy rl))) (\<lambda>d.
            case d of
              Denied limit reset_secs \<Rightarrow> send_429_rate_limited limit reset_secs
            | Allowed limit remaining reset_secs \<Rightarrow> k))"

definition should_read_body :: "'k route_entry \<Rightarrow> bool" where
  "should_read_body entry \<longleftrightarrow>
     read_json_body entry \<or> read_form_body entry
     \<or> handler_varkw entry \<or> ''body'' \<in> set (handler_param_names (extra entry))"

definition payload_too_large :: "('k, pyobj) io" where
  "payload_too_large =
     send_text 413 (''{'' @ dquoted ''error'' @ '':'' @ dquoted ''payload too large'' @ ''}'') ct_json"

definition declared_length :: "scope \<Rightarrow> u64 option" where
  "declared_length sc = Option.bind (header_of sc ''content-length'') parse_u64"

definition read_stage :: "u64 \<Rightarrow> (request_body \<Rightarrow> pyobj option \<Rightarrow> ('k, pyobj) io) \<Rightarrow> ('k, pyobj) io" where
  "read_stage limit k =
     ibind (perform ReadBody) (\<lambda>obj.
       let (body, orig) = from_py_any obj
       in if unat limit < body_len body then payload_too_large else k body orig)"

definition body_stage :: "scope \<Rightarrow> 'k route_entry
    \<Rightarrow> (request_body \<Rightarrow> pyobj option \<Rightarrow> ('k, pyobj) io) \<Rightarrow> ('k, pyobj) io" where
  "body_stage sc entry k =
     ithen (set_template (path_template (extra entry)))
       (ibind (iask env_max_body) (\<lambda>limit.
         if should_read_body entry
         then (case declared_length sc of
                 Some len \<Rightarrow> if limit < len then payload_too_large else read_stage limit k
               | None \<Rightarrow> read_stage limit k)
         else k BodyEmpty None))"

definition unauthorized :: "('k, pyobj) io" where
  "unauthorized = send_text 401 ''Unauthorized'' ct_text"

text \<open>The bearer token, else the cookie.\<close>

definition request_token :: "'k route_entry \<Rightarrow> string option \<Rightarrow> string option \<Rightarrow> string option" where
  "request_token entry auth cookie_raw =
     (case Option.bind (extract_bearer auth) (\<lambda>t. if t = [] then None else Some t) of
        Some t \<Rightarrow> Some t
      | None \<Rightarrow>
         (case (jwt_cookie (extra entry), cookie_raw) of
            (Some cname, Some raw) \<Rightarrow>
              Option.bind (extract_cookie_value raw cname) (\<lambda>t. if t = [] then None else Some t)
          | _ \<Rightarrow> None))"

definition jwt_stage :: "scope \<Rightarrow> 'k route_entry \<Rightarrow> (json option \<Rightarrow> ('k, pyobj) io) \<Rightarrow> ('k, pyobj) io" where
  "jwt_stage sc entry k =
     (if \<not> require_jwt entry then k None
      else
        ibind (ilift (scope_headers sc)) (\<lambda>h.
        ibind (iask (\<lambda>W. lib_jwt (env_libs W))) (\<lambda>J.
        case (jwt_decoding_key (extra entry), jwt_validation (extra entry)) of
          (Some dk, Some val) \<Rightarrow>
            (case request_token entry (header_get_lax h ''authorization'') (header_get_lax h ''cookie'') of
               None \<Rightarrow> unauthorized
             | Some t \<Rightarrow>
                 (case jwt_decode J t dk val of
                    Ok claims \<Rightarrow> k (Some claims)
                  | Err e \<Rightarrow>
                      if e = ExpiredSignature then send_text 401 ''Expired'' ct_text else unauthorized
                  | Panic m \<Rightarrow> ilift (Panic m)))
        | _ \<Rightarrow> unauthorized)))"

definition body_method :: "scope \<Rightarrow> bool" where
  "body_method sc \<longleftrightarrow> sc_method sc \<in> {''POST'', ''PUT'', ''PATCH'', ''DELETE''}"

definition has_json_body :: "scope \<Rightarrow> 'k route_entry \<Rightarrow> request_body \<Rightarrow> bool" where
  "has_json_body sc entry body \<longleftrightarrow>
     read_json_body entry \<and> \<not> read_form_body entry \<and> body_method sc \<and> \<not> body_is_empty body"

text \<open>\<open>serde_json::json!({ "error": m }).to_string()\<close>\<close>

definition error_json :: "('k, 'c) libs \<Rightarrow> string \<Rightarrow> string" where
  "error_json B m = json_to_string (lib_json B) (JObj [(''error'', JStr m)])"

definition literal_error :: "string \<Rightarrow> string" where
  "literal_error m = ''{'' @ dquoted ''error'' @ '':'' @ dquoted m @ ''}''"

type_synonym form_data = "(string \<times> string) list \<times> parsed_file list"

definition form_stage :: "'k frozen_state \<Rightarrow> scope \<Rightarrow> 'k route_entry \<Rightarrow> request_body
    \<Rightarrow> (form_data \<Rightarrow> ('k, pyobj) io) \<Rightarrow> ('k, pyobj) io" where
  "form_stage snap sc entry body k =
     (if \<not> (read_form_body entry \<and> body_method sc) \<or> body_is_empty body then k ([], [])
      else
        icase (ilift (scope_headers sc)) (fail_with snap sc) (\<lambda>h.
        ibind (iask (\<lambda>W. W)) (\<lambda>W.
        case header_get_lax h ''content-type'' of
          None \<Rightarrow> send_text 400 (literal_error ''missing content-type'') ct_json
        | Some ct \<Rightarrow>
            if ct = [] then send_text 400 (literal_error ''missing content-type'') ct_json
            else if starts_with (to_ascii_lowercase ct) ''application/x-www-form-urlencoded''
            then k (parse_urlencoded_form (env_wire W) (as_bytes body), [])
            else if starts_with (to_ascii_lowercase ct) ''multipart/form-data''
            then (case w_boundary (env_wire W) ct of
                    None \<Rightarrow> send_text 400 (literal_error ''invalid multipart boundary'') ct_json
                  | Some boundary \<Rightarrow>
                     (case parse_multipart (env_wire W) (as_bytes body) boundary of
                        Ok parsed \<Rightarrow> k parsed
                      | Err e \<Rightarrow> send_text 400 (error_json (env_libs W) (''multipart: '' @ e)) ct_json
                      | Panic m \<Rightarrow> ilift (Panic m)))
            else send_text 415
              (literal_error ''expected application/x-www-form-urlencoded or multipart/form-data'') ct_json)))"

section \<open>Dependencies\<close>

definition query_string :: "scope \<Rightarrow> string" where
  "query_string sc = (case sc_query sc of Some q \<Rightarrow> q | None \<Rightarrow> [])"

definition build_request_context :: "scope \<Rightarrow> ('k, pyobj) io" where
  "build_request_context sc =
     ibind (perform (Call (Helper ''import oxyroute.request'') PyNone [] [])) (\<lambda>cls.
       perform (Call (Helper ''Request'') cls
         [scope_py, PyStr (sc_method sc), PyStr (sc_path sc), PyStr (query_string sc)] []))"

definition context_stage :: "'k frozen_state \<Rightarrow> scope \<Rightarrow> 'k route_entry
    \<Rightarrow> (pyobj option \<Rightarrow> ('k, pyobj) io) \<Rightarrow> ('k, pyobj) io" where
  "context_stage snap sc entry k =
     (if list_ex de_wants_request (dependencies (extra entry))
      then icase (build_request_context sc) (fail_with snap sc) (\<lambda>d. k (Some d))
      else k None)"

type_synonym resolved = "(dependency_entry \<times> pyobj) list"

text \<open>The keyword arguments of a factory: the request, then the earlier dependencies it names.\<close>

definition factory_kwargs :: "dependency_entry \<Rightarrow> pyobj option \<Rightarrow> resolved \<Rightarrow> (string \<times> pyobj) list" where
  "factory_kwargs dep ctx prev =
     fold (\<lambda>(d, v) kw. if de_varkw dep \<or> de_name d \<in> set (de_params dep) then al_put (de_name d) v kw else kw)
       prev (case ctx of Some rc \<Rightarrow> if de_wants_request dep then [(''request'', rc)] else [] | None \<Rightarrow> [])"

text \<open>An instance of the class \<open>DBQuery\<close>, by its attributes.\<close>

definition as_db_query :: "pyobj \<Rightarrow> db_query option" where
  "as_db_query v =
     (case v of
        PyObject cls attrs \<Rightarrow>
          if cls = ''DBQuery''
          then (case (map_of attrs ''query'', map_of attrs ''args'', map_of attrs ''chunk_size'') of
                  (Some (PyStr q), Some a, Some (PyInt n)) \<Rightarrow>
                    Some \<lparr>dq_query = q, dq_args = a, dq_chunk = Some (word_of_int n)\<rparr>
                | (Some (PyStr q), Some a, _) \<Rightarrow> Some \<lparr>dq_query = q, dq_args = a, dq_chunk = None\<rparr>
                | _ \<Rightarrow> None)
          else None
      | _ \<Rightarrow> None)"

text \<open>
  \<open>execute_query\<close>: the action is \<open>q.fetch(pool)\<close>, whose stream runs as its rows are taken.
\<close>

definition run_query :: "pool \<Rightarrow> db_query \<Rightarrow> ('k, pyobj) io" where
  "run_query p q =
     ibind (ilift (query_args q)) (\<lambda>args.
     ithen (iignore (perform (RunQuery p (dq_query q) args)))
       (ishared (\<lambda>W c. (execute_query (env_alloc W) (env_rows W (tr c) p (dq_query q) args) q, lims c, app c))))"

definition no_database :: string where
  "no_database = ''DBQuery used but database pool is not configured (call app.setup_database first)''"

text \<open>The value of one factory: awaited when it is asynchronous, run when it is a query.\<close>

definition resolve_dependency :: "'k frozen_state \<Rightarrow> dependency_entry \<Rightarrow> pyobj option \<Rightarrow> resolved \<Rightarrow> ('k, pyobj) io" where
  "resolve_dependency snap dep ctx prev =
     ibind (perform (Call (Factory (de_name dep)) (de_factory dep) [] (factory_kwargs dep ctx prev))) (\<lambda>r.
     ibind (if de_is_async dep then ithen (perform (IntoFuture r)) (perform (Await r)) else ireturn r) (\<lambda>v.
       case as_db_query v of
         None \<Rightarrow> ireturn v
       | Some q \<Rightarrow>
          (case f_db_pool snap of
             Some p \<Rightarrow> run_query p q
           | None \<Rightarrow> ilift (runtime_error no_database))))"

fun dependency_stage :: "'k frozen_state \<Rightarrow> scope \<Rightarrow> pyobj option \<Rightarrow> dependency_entry list \<Rightarrow> resolved
    \<Rightarrow> (resolved \<Rightarrow> ('k, pyobj) io) \<Rightarrow> ('k, pyobj) io" where
  "dependency_stage snap sc ctx [] prev k = k prev"
| "dependency_stage snap sc ctx (dep # deps) prev k =
     icase (resolve_dependency snap dep ctx prev) (fail_with snap sc) (\<lambda>v.
       dependency_stage snap sc ctx deps (prev @ [(dep, v)]) k)"

section \<open>The arguments of the handler\<close>

datatype arg_result =
    ArgsOk "(string \<times> pyobj) list"
  | ValidationFailed string
  | JsonParseFailed string

definition wants :: "'k route_entry \<Rightarrow> string \<Rightarrow> bool" where
  "wants entry name \<longleftrightarrow> handler_varkw entry \<or> name \<in> set (handler_param_names (extra entry))"

definition str_dict :: "(string \<times> string) list \<Rightarrow> pyobj" where
  "str_dict m = PyDict (fold (\<lambda>(k, v). dict_set (PyStr k) (PyStr v)) m [])"

definition file_py :: "parsed_file \<Rightarrow> pyobj" where
  "file_py f = PyDict
     [(PyStr ''name'', PyStr (pf_name f)),
      (PyStr ''filename'', case pf_filename f of Some n \<Rightarrow> PyStr n | None \<Rightarrow> PyNone),
      (PyStr ''content_type'', PyStr (pf_content_type f)), (PyStr ''data'', PyBytes (pf_data f))]"

definition has_attr :: "pyobj \<Rightarrow> string \<Rightarrow> ('k, bool) io" where
  "has_attr v n = icase (perform (HasAttr v n)) (\<lambda>_. ireturn False) (\<lambda>r. ireturn (r = PyBool True))"

text \<open>The text of a validation error: its \<open>json()\<close>, or an empty list.\<close>

definition validation_text :: "pyerr \<Rightarrow> ('k, string) io" where
  "validation_text e =
     icase (perform (Call (Helper ''json'') (exc_py e) [] [])) (\<lambda>_. ireturn ''[]'')
       (\<lambda>r. ireturn (case extract_string r of Some s \<Rightarrow> s | None \<Rightarrow> ''[]''))"

definition model_result :: "'k route_entry \<Rightarrow> (string \<times> pyobj) list \<Rightarrow> ('k, pyobj) io \<Rightarrow> ('k, arg_result) io" where
  "model_result entry kw m =
     icase m
       (\<lambda>e. ibind (validation_text e) (\<lambda>s.
          ireturn (ValidationFailed (''{'' @ dquoted ''detail'' @ '':'' @ s @ ''}''))))
       (\<lambda>v. let target = (if body_param_name (extra entry) = [] then ''json'' else body_param_name (extra entry));
                kw1 = al_put target v kw
            in ireturn (ArgsOk (if target \<noteq> ''json'' \<and> handler_varkw entry then al_put ''json'' v kw1 else kw1)))"

definition json_args :: "'k route_entry \<Rightarrow> request_body \<Rightarrow> pyobj option \<Rightarrow> (string \<times> pyobj) list
    \<Rightarrow> ('k, arg_result) io" where
  "json_args entry body orig kw =
     ibind (iask (\<lambda>W. (env_libs W, json_bytes_to_py (env_wire W) (as_bytes body)))) (\<lambda>(B, parsed).
     let with_json = (\<lambda>f. case parsed of
            Ok v \<Rightarrow> f v
          | Err e \<Rightarrow> ireturn (JsonParseFailed (error_json B (''json: '' @ e)))
          | Panic m \<Rightarrow> ilift (Panic m))
     in case body_model entry of
          None \<Rightarrow> with_json (\<lambda>v. ireturn (ArgsOk (al_put ''json'' v kw)))
        | Some bm \<Rightarrow>
            ibind (has_attr bm ''model_validate_json'') (\<lambda>native.
              if native
              then model_result entry kw (perform (Call (BodyModel ''model_validate_json'') bm
                [case orig of Some o1 \<Rightarrow> o1 | None \<Rightarrow> PyBytes (as_bytes body)] []))
              else with_json (\<lambda>v.
                ibind (has_attr bm ''model_validate'') (\<lambda>validate.
                  model_result entry kw (perform (Call
                    (BodyModel (if validate then ''model_validate'' else ''__call__'')) bm [v] []))))))"

text \<open>What the request holds when the handler is about to be called.\<close>

record request_data =
  rd_params :: path_params
  rd_query :: "(string \<times> string) list"
  rd_deps :: resolved
  rd_claims :: "json option"
  rd_body :: request_body
  rd_body_py :: "pyobj option"
  rd_form :: form_data

definition pass_body :: "scope \<Rightarrow> 'k route_entry \<Rightarrow> request_data \<Rightarrow> bool" where
  "pass_body sc entry rd \<longleftrightarrow>
     \<not> read_form_body entry \<and> \<not> body_is_empty (rd_body rd) \<and> \<not> has_json_body sc entry (rd_body rd)"

definition should_use_kwargs :: "scope \<Rightarrow> 'k route_entry \<Rightarrow> request_data \<Rightarrow> bool" where
  "should_use_kwargs sc entry rd \<longleftrightarrow>
     rd_params rd \<noteq> [] \<or> rd_query rd \<noteq> []
     \<or> list_ex (\<lambda>(d, v). wants entry (de_name d)) (rd_deps rd)
     \<or> rd_claims rd \<noteq> None \<or> has_json_body sc entry (rd_body rd)
     \<or> (read_form_body entry \<and> wants entry ''form'') \<or> (read_form_body entry \<and> wants entry ''files'')
     \<or> pass_body sc entry rd \<or> wants entry ''protocol''"

text \<open>The arguments before the JSON body, in the order in which they are set.\<close>

definition kwargs_head :: "'k env \<Rightarrow> 'k route_entry \<Rightarrow> request_data \<Rightarrow> (string \<times> pyobj) list" where
  "kwargs_head W entry rd =
     (let kw1 = param_kwargs (wildcard_params (extra entry)) (rd_params rd);
          kw2 = (if rd_query rd = [] then kw1
                 else al_put ''query'' (str_dict (env_query_order W (rd_query rd))) kw1);
          kw3 = fold (\<lambda>(d, v) kw. if wants entry (de_name d) then al_put (de_name d) v kw else kw) (rd_deps rd) kw2
      in case rd_claims rd of Some c \<Rightarrow> al_put ''claims'' (json_to_py c) kw3 | None \<Rightarrow> kw3)"

text \<open>The arguments after it.\<close>

definition kwargs_tail :: "'k env \<Rightarrow> scope \<Rightarrow> 'k route_entry \<Rightarrow> request_data \<Rightarrow> (string \<times> pyobj) list
    \<Rightarrow> (string \<times> pyobj) list" where
  "kwargs_tail W sc entry rd kw =
     (let kw1 = (if read_form_body entry
            then (let kwf = (if wants entry ''form''
                             then al_put ''form'' (str_dict (env_query_order W (fst (rd_form rd)))) kw else kw)
                  in if wants entry ''files''
                     then al_put ''files'' (PyList (map file_py (snd (rd_form rd)))) kwf else kwf)
            else if pass_body sc entry rd
            then al_put ''body'' (case rd_body_py rd of Some o1 \<Rightarrow> o1 | None \<Rightarrow> PyBytes (as_bytes (rd_body rd))) kw
            else kw)
      in if wants entry ''protocol'' then al_put ''protocol'' protocol_py kw1 else kw1)"

definition handler_args :: "scope \<Rightarrow> 'k route_entry \<Rightarrow> request_data \<Rightarrow> ('k, arg_result) io" where
  "handler_args sc entry rd =
     (if \<not> should_use_kwargs sc entry rd then ireturn (ArgsOk [])
      else
        ibind (iask (\<lambda>W. W)) (\<lambda>W.
        ibind (if has_json_body sc entry (rd_body rd)
               then json_args entry (rd_body rd) (rd_body_py rd) (kwargs_head W entry rd)
               else ireturn (ArgsOk (kwargs_head W entry rd))) (\<lambda>r.
          ireturn (case r of ArgsOk kw \<Rightarrow> ArgsOk (kwargs_tail W sc entry rd kw) | _ \<Rightarrow> r))))"

definition call_stage :: "'k frozen_state \<Rightarrow> scope \<Rightarrow> 'k route_entry \<Rightarrow> request_data
    \<Rightarrow> (pyobj \<Rightarrow> ('k, pyobj) io) \<Rightarrow> ('k, pyobj) io" where
  "call_stage snap sc entry rd k =
     icase (handler_args sc entry rd) (fail_with snap sc) (\<lambda>args.
       case args of
         JsonParseFailed b \<Rightarrow> send_text 400 b ct_json
       | ValidationFailed b \<Rightarrow> send_text 422 b ct_json
       | ArgsOk kw \<Rightarrow>
           icase (perform (Call RouteHandler (handler entry) [] kw)) (fail_with snap sc) (\<lambda>res.
             if is_async entry
             then icase (perform (IntoFuture res)) (fail_with snap sc) (\<lambda>_.
                  icase (perform (Await res)) (fail_with snap sc) k)
             else k res))"

definition response_stage :: "'k frozen_state \<Rightarrow> scope \<Rightarrow> pyobj \<Rightarrow> ('k, pyobj) io" where
  "response_stage snap sc out =
     icase (finish_response snap sc (is_head sc) out) (fail_with snap sc) (\<lambda>_. ireturn PyNone)"

section \<open>The whole path\<close>

text \<open>The stages from the matched route on.\<close>

definition run_route :: "'k frozen_state \<Rightarrow> scope \<Rightarrow> nat \<Rightarrow> 'k route_entry \<Rightarrow> path_params \<Rightarrow> ('k, pyobj) io" where
  "run_route snap sc idx entry params =
     rate_stage sc idx entry
     (body_stage sc entry (\<lambda>body orig.
      jwt_stage sc entry (\<lambda>claims.
      ibind (iask env_wire) (\<lambda>L.
      let query = (if wants entry ''query'' then parse_query (w_urldec L) (query_string sc) else []) in
      form_stage snap sc entry body (\<lambda>form.
      context_stage snap sc entry (\<lambda>ctx.
      dependency_stage snap sc ctx (dependencies (extra entry)) [] (\<lambda>deps.
      call_stage snap sc entry
        \<lparr>rd_params = params, rd_query = query, rd_deps = deps, rd_claims = claims,
         rd_body = body, rd_body_py = orig, rd_form = form\<rparr>
        (response_stage snap sc))))))))"

definition run_rsgi_http :: "'k frozen_state \<Rightarrow> scope \<Rightarrow> ('k, pyobj) io" where
  "run_rsgi_http snap sc =
     openapi_stage snap sc
     (preflight_stage snap sc
     (middleware_stage snap sc (f_request_middleware snap)
     (route_stage snap sc (run_route snap sc))))"

end
