(* ===== verification/DispatchFacts.thy ===== *)
theory DispatchFacts
  imports Dispatch
begin

text \<open>
  Every stage of the path of an HTTP request, followed by a rest that settles the request,
  settles it: one response when it returns, none when it raises or panics.
\<close>

section \<open>One response\<close>

lemma silent_set_template [spec_intros]: "silent (set_template t)"
  unfolding set_template_def by (intro spec_intros) auto

lemma silent_shared_parts [spec_intros]:
  "silent served_doc" "silent (compiled_for snap)" "silent (check_limiter idx key)"
  by (auto simp: served_doc_def compiled_for_def check_limiter_def intro: spec_intros split: option.split)

lemma settles_simple_senders [spec_intros]:
  "settles S (send_str st t ct)" "settles S payload_too_large" "settles S unauthorized"
  "settles S (fail_with snap sc e)"
  by (auto simp: send_str_def then_none_def send_str_sync_def payload_too_large_def unauthorized_def
      fail_with_def intro!: settles_map settles_respond_unit sender_settles settles_python_error)

lemma silent_python_pairs [spec_intros]: "silent (python_pairs cfg)"
  by (auto simp: python_pairs_def intro!: spec_intros)

lemma silent_merges [spec_intros]: "silent (merge_config_response_headers snap sc m)"
  by (auto simp: merge_config_response_headers_def merge_security_def merge_cors_def
      intro!: spec_intros split: option.split)

lemma merge_into_sent [simp]: "merge_into f m = AlreadySent \<longleftrightarrow> m = AlreadySent"
  by (cases m) (auto simp: merge_into_def)

lemma merge_pairs_sent [simp]:
  "merge_header_pairs_replace m ps = AlreadySent \<longleftrightarrow> m = AlreadySent"
  "merge_header_pairs_if_absent m ps = AlreadySent \<longleftrightarrow> m = AlreadySent"
  by (auto simp: merge_header_pairs_replace_def merge_header_pairs_if_absent_def)

lemma only_python_pairs: "yields (python_pairs cfg) (\<lambda>_. True)"
  by (rule python_pairs_yields)

lemma merge_security_sent: "yields (merge_security snap sc m) (\<lambda>m'. m' = AlreadySent \<longleftrightarrow> m = AlreadySent)"
  unfolding merge_security_def
  by (auto intro!: yields_return yields_bind [OF python_pairs_yields] split: option.split)

lemma merge_cors_sent: "yields (merge_cors snap sc m) (\<lambda>m'. m' = AlreadySent \<longleftrightarrow> m = AlreadySent)"
  unfolding merge_cors_def
  by (auto intro!: yields_return yields_bind [OF python_pairs_yields] yields_bind [where R = "\<lambda>_. True"]
      yields_lift split: option.splits)

lemma merge_config_sent:
  "yields (merge_config_response_headers snap sc m) (\<lambda>m'. m' = AlreadySent \<longrightarrow> m = AlreadySent)"
proof (cases "m = AlreadySent")
  case False
  then show ?thesis
    unfolding merge_config_response_headers_def
    by (simp, intro yields_bind [OF merge_security_sent]) (rule yields_mono [OF merge_cors_sent], simp)
qed (simp add: merge_config_response_headers_def yields_return)

lemma settles_merge_send:
  assumes "m = AlreadySent \<Longrightarrow> S"
  shows "settles S (ibind (if b then merge_config_response_headers snap sc m else ireturn m)
    (send_handler_map_inline h))"
proof -
  have "yields (if b then merge_config_response_headers snap sc m else ireturn m)
      (\<lambda>m'. m' = AlreadySent \<longrightarrow> m = AlreadySent)"
    by (auto intro: merge_config_sent yields_return)
  then show ?thesis
    by (rule settles_yields_bind [rotated]) (use assms in \<open>auto intro!: settles_send_mapped spec_intros\<close>)
qed

text \<open>The chain of response middleware: its last answer may be a sentinel.\<close>

lemma settles_response_middleware:
  assumes f: "\<And>m S'. (m = AlreadySent \<Longrightarrow> S') \<Longrightarrow> (S \<Longrightarrow> S') \<Longrightarrow> settles S' (f m)"
    and m: "m = AlreadySent \<Longrightarrow> S"
  shows "settles S (ibind (run_response_middleware cls mws m) f)"
  using assms
proof (induction mws arbitrary: m S)
  case (Cons mw mws)
  show ?case
    unfolding run_response_middleware.simps ibind_assoc
  proof (rule settles_silent_bind, rule silent_intros(6), simp, rule settles_call_bind, simp)
    fix res out
    let ?S = "S \<or> stream_done out"
    have f': "settles S' (f m)" if "m = AlreadySent \<Longrightarrow> S'" "?S \<Longrightarrow> S'" for m S'
      using that by (intro Cons.prems(1)) auto
    show "settles ?S (ibind (map_handler_return out) (\<lambda>m'. ibind
          (if m' = AlreadySent then ireturn AlreadySent else run_response_middleware cls mws m') f))"
    proof (rule settles_yields_bind [OF silent_map_handler map_handler_sentinel])
      fix m' assume m': "m' = AlreadySent \<longrightarrow> stream_done out"
      show "settles ?S (ibind
          (if m' = AlreadySent then ireturn AlreadySent else run_response_middleware cls mws m') f)"
      proof (cases "m' = AlreadySent")
        case True
        with m' show ?thesis by (simp add: f')
      next
        case False
        have "settles ?S (ibind (run_response_middleware cls mws m') f)"
          by (rule Cons.IH [OF f']) (use False in auto)
        with False show ?thesis by simp
      qed
    qed
  qed
qed auto

lemma settles_finish: "(stream_done out \<Longrightarrow> S) \<Longrightarrow> settles S (finish_response snap sc h out)"
  unfolding finish_response_def
proof (rule settles_yields_bind [OF silent_map_handler map_handler_sentinel])
  let ?F = "\<lambda>m1. ibind (if f_security_headers snap \<noteq> None \<or> f_cors snap \<noteq> None
            then merge_config_response_headers snap sc m1 else ireturn m1) (send_handler_map_inline h)"
  fix m assume S: "stream_done out \<Longrightarrow> S" and m: "m = AlreadySent \<longrightarrow> stream_done out"
  show "settles S (ibind (apply_response_middleware snap m) ?F)"
  proof (cases "f_response_middleware snap \<noteq> [] \<and> m \<noteq> AlreadySent")
    case True
    show ?thesis
      unfolding apply_response_middleware_def if_P [OF True] ibind_assoc
      by (rule settles_silent_bind, rule silent_intros(6), simp,
          rule settles_response_middleware, rule settles_merge_send) (use True in auto)
  next
    case False
    have "m = AlreadySent \<Longrightarrow> S" using S m by simp
    then show ?thesis
      unfolding apply_response_middleware_def if_not_P [OF False] ibind_return
      by (rule settles_merge_send)
  qed
qed

lemma settles_finish_or_fail:
  "(stream_done out \<Longrightarrow> S) \<Longrightarrow>
    settles S (icase (finish_response snap sc h out) (fail_with snap sc) (\<lambda>_. ireturn PyNone))"
  by (rule settles_retry) (auto intro: settles_finish settles_simple_senders)

lemma settles_middleware:
  "settles S k \<Longrightarrow> settles S (middleware_stage snap sc mws k)"
proof (induction mws)
  case (Cons mw mws)
  then show ?case
    by (auto intro!: settles_call_case settles_simple_senders settles_finish_or_fail
        elim: settles_mono)
qed simp

lemma silent_run_query [spec_intros]: "silent (run_query p q)"
  by (auto simp: run_query_def intro!: spec_intros)

lemma silent_resolve [spec_intros]: "silent (resolve_dependency snap dep ctx prev)"
  by (auto simp: resolve_dependency_def intro!: spec_intros split: option.split)

lemma settles_dependencies:
  "(\<And>prev. settles S (k prev)) \<Longrightarrow> settles S (dependency_stage snap sc ctx deps prev k)"
  by (induction deps arbitrary: prev) (auto intro!: settles_silent_case silent_resolve settles_simple_senders)

lemma silent_args [spec_intros]: "silent (handler_args sc entry rd)"
  by (auto simp: handler_args_def json_args_def model_result_def has_attr_def validation_text_def Let_def
      intro!: spec_intros split: option.split rust.split)

lemma settles_call:
  assumes k: "\<And>out S'. (stream_done out \<Longrightarrow> S') \<Longrightarrow> (S \<Longrightarrow> S') \<Longrightarrow> settles S' (k out)"
  shows "settles S (call_stage snap sc entry rd k)"
  unfolding call_stage_def
proof (rule settles_silent_case, rule silent_args, rule settles_simple_senders)
  fix args
  have res: "settles (S \<or> stream_done res) (if is_async entry
      then icase (perform (IntoFuture res)) (fail_with snap sc) (\<lambda>_.
           icase (perform (Await res)) (fail_with snap sc) k)
      else k res)" for res
  proof (cases "is_async entry")
    case True
    have "settles (S \<or> stream_done res) (icase (perform (IntoFuture res)) (fail_with snap sc) (\<lambda>_.
           icase (perform (Await res)) (fail_with snap sc) k))"
      by (rule settles_silent_case, rule silent_intros(6), simp, rule settles_simple_senders,
          rule settles_call_case, simp, rule settles_simple_senders, rule k) auto
    with True show ?thesis by simp
  next
    case False
    with k [of res "S \<or> stream_done res"] show ?thesis by simp
  qed
  have "settles S (icase (perform (Call RouteHandler (handler entry) [] kw)) (fail_with snap sc) (\<lambda>res.
      if is_async entry
      then icase (perform (IntoFuture res)) (fail_with snap sc) (\<lambda>_.
           icase (perform (Await res)) (fail_with snap sc) k)
      else k res))" for kw
    by (rule settles_call_case, simp, rule settles_simple_senders, rule res)
  then show "settles S (case args of
         JsonParseFailed b \<Rightarrow> send_text 400 b ct_json
       | ValidationFailed b \<Rightarrow> send_text 422 b ct_json
       | ArgsOk kw \<Rightarrow>
           icase (perform (Call RouteHandler (handler entry) [] kw)) (fail_with snap sc) (\<lambda>res.
             if is_async entry
             then icase (perform (IntoFuture res)) (fail_with snap sc) (\<lambda>_.
                  icase (perform (Await res)) (fail_with snap sc) k)
             else k res))"
    by (cases args) (simp_all add: sender_settles)
qed

lemma settles_forms:
  "(\<And>fd. settles S (k fd)) \<Longrightarrow> settles S (form_stage snap sc entry body k)"
  unfolding form_stage_def
  by (auto intro!: settles_silent_case settles_silent_bind silent_intros settles_simple_senders
      sender_settles settles_panic split: option.split rust.split)

lemma settles_context:
  "(\<And>ctx. settles S (k ctx)) \<Longrightarrow> settles S (context_stage snap sc entry k)"
  unfolding context_stage_def build_request_context_def
  by (auto intro!: settles_silent_case silent_bind silent_intros settles_simple_senders)

lemma settles_jwt: "(\<And>claims. settles S (k claims)) \<Longrightarrow> settles S (jwt_stage sc entry k)"
  unfolding jwt_stage_def
  by (auto intro!: settles_silent_bind silent_intros settles_simple_senders sender_settles settles_panic
      split: option.split rust.split)

lemma settles_body: "(\<And>b o1. settles S (k b o1)) \<Longrightarrow> settles S (body_stage sc entry k)"
  unfolding body_stage_def read_stage_def
  by (auto intro!: settles_silent_then settles_silent_bind silent_intros silent_set_template
      settles_simple_senders simp: Let_def split: option.split prod.split)

lemma settles_rate: "settles S k \<Longrightarrow> settles S (rate_stage sc idx entry k)"
  unfolding rate_stage_def
  by (auto intro!: settles_silent_bind silent_shared_parts sender_settles split: option.split rl_decision.split)

lemma settles_run_route: "settles S (run_route snap sc idx entry params)"
  unfolding run_route_def Let_def
  by (intro settles_rate settles_body settles_jwt settles_silent_bind silent_intros settles_forms
      settles_context settles_dependencies settles_call)
    (simp add: response_stage_def settles_finish_or_fail)

lemma settles_route: "(\<And>i e ps. settles S (k i e ps)) \<Longrightarrow> settles S (route_stage snap sc k)"
  unfolding route_stage_def
  by (auto intro!: settles_silent_bind silent_shared_parts silent_intros sender_settles settles_err
      simp: Let_def split: option.split)

lemma settles_openapi: "settles S k \<Longrightarrow> settles S (openapi_stage snap sc k)"
  unfolding openapi_stage_def
  by (auto intro!: settles_silent_then settles_silent_bind silent_set_template silent_shared_parts
      sender_settles settles_simple_senders)

lemma settles_preflight: "settles S k \<Longrightarrow> settles S (preflight_stage snap sc k)"
  unfolding preflight_stage_def
  by (auto intro!: settles_silent_bind silent_intros sender_settles settles_panic split: option.split rust.split)

lemma settles_run_rsgi_http: "settles S (run_rsgi_http snap sc)"
  unfolding run_rsgi_http_def
  by (intro settles_openapi settles_preflight settles_middleware settles_route settles_run_route)

section \<open>HEAD and GET\<close>

text \<open>What is done with a returned value before it is sent: it does not look at the method.\<close>

definition mapped_response :: "'k frozen_state \<Rightarrow> scope \<Rightarrow> pyobj \<Rightarrow> ('k, handler_map) io" where
  "mapped_response snap sc out =
     ibind (map_handler_return out) (\<lambda>m0. ibind (apply_response_middleware snap m0) (\<lambda>m1.
       if f_security_headers snap \<noteq> None \<or> f_cors snap \<noteq> None
       then merge_config_response_headers snap sc m1 else ireturn m1))"

lemma finish_mapped: "finish_response snap sc h out = ibind (mapped_response snap sc out) (send_handler_map_inline h)"
  by (simp add: finish_response_def mapped_response_def ibind_assoc)

lemma merge_config_method:
  "merge_config_response_headers snap (sc\<lparr>sc_method := x\<rparr>) m = merge_config_response_headers snap sc m"
proof -
  have "merge_security snap (sc\<lparr>sc_method := x\<rparr>) m' = merge_security snap sc m'"
    and "merge_cors snap (sc\<lparr>sc_method := x\<rparr>) = merge_cors snap sc" for m'
    by (simp_all add: merge_security_def merge_cors_def scope_headers_def fun_eq_iff cong: option.case_cong)
  then show ?thesis by (simp add: merge_config_response_headers_def)
qed

lemma mapped_method: "mapped_response snap (sc\<lparr>sc_method := x\<rparr>) out = mapped_response snap sc out"
  by (simp add: mapped_response_def merge_config_method cong: if_cong)

lemma silent_run_middleware: "silent (run_response_middleware cls mws m)"
proof (induction mws arbitrary: m)
  case (Cons mw mws)
  show ?case
    unfolding run_response_middleware.simps
    by (auto intro!: silent_bind silent_intros silent_map_handler Cons.IH)
qed (simp add: silent_intros)

lemma silent_mapped: "silent (mapped_response snap sc out)"
  unfolding mapped_response_def apply_response_middleware_def
  by (auto intro!: silent_bind silent_intros silent_map_handler silent_merges silent_run_middleware)

text \<open>
  C25. What a handler returns is sent for \<open>HEAD\<close> as for \<open>GET\<close>, without the body: from the
  returned value (of a handler or of a middleware) on, through the mapping, the response
  middleware and the configured headers, both methods do the same, and then make one
  protocol call each, with the same status and the same headers up to the length; the
  \<open>HEAD\<close> response has no body and exactly one content length, the byte length of the body
  that \<open>GET\<close> sends (a length that the handler has set itself is replaced). Or the value
  is not sent: it is the stream sentinel or its mapping raises; then both runs are the
  same and give no response. The answers that the engine makes itself (404, 401, 413, 429, 500
  and an \<open>HTTPException\<close> of the handler) do not pass here: to \<open>HEAD\<close> they are sent with
  their body.
\<close>

theorem head_agrees_with_get:
  "(\<exists>new rp hs.
      map fst (tr (snd (finish_response snap (sc\<lparr>sc_method := ''GET''\<rparr>) False out W c))) = map fst (tr c) @ new @ [Respond rp]
      \<and> map fst (tr (snd (finish_response snap (sc\<lparr>sc_method := ''HEAD''\<rparr>) True out W c)))
          = map fst (tr c) @ new @ [Respond (ResponseEmpty (rp_status rp) hs)]
      \<and> named ''content-length'' hs = [(''content-length'', show_nat (length (reply_body rp)))]
      \<and> no_length hs = no_length (rp_headers rp))
   \<or> finish_response snap (sc\<lparr>sc_method := ''HEAD''\<rparr>) True out W c
       = finish_response snap (sc\<lparr>sc_method := ''GET''\<rparr>) False out W c
     \<and> (\<exists>new. tr (snd (finish_response snap (sc\<lparr>sc_method := ''GET''\<rparr>) False out W c)) = tr c @ new
        \<and> responses new = 0)"
proof -
  obtain r c' where m: "mapped_response snap sc out W c = (r, c')" by fastforce
  obtain new where new: "tr c' = tr c @ new" "responses new = 0"
    using silent_spec [OF silent_mapped, of snap sc out] m unfolding spec_def by (metis snd_conv)
  have run: "finish_response snap (sc\<lparr>sc_method := x\<rparr>) h out W c = (case r of
      Ok hm \<Rightarrow> send_handler_map_inline h hm W c' | Err e \<Rightarrow> (Err e, c') | Panic s \<Rightarrow> (Panic s, c'))" for x h
    by (simp add: finish_mapped mapped_method m ibind_def split: rust.split)
  show ?thesis
  proof (cases "\<exists>hm. r = Ok hm \<and> hm \<noteq> AlreadySent")
    case True
    then obtain hm where hm: "r = Ok hm" "hm \<noteq> AlreadySent" by blast
    from head_send_agrees [OF hm(2), of W c'] show ?thesis
      unfolding run hm(1) rust.case new(1) by (simp only: map_append append_assoc) blast
  next
    case False
    then have "finish_response snap (sc\<lparr>sc_method := x\<rparr>) h out W c = finish_response snap (sc\<lparr>sc_method := y\<rparr>) k out W c
      \<and> snd (finish_response snap (sc\<lparr>sc_method := x\<rparr>) h out W c) = c'" for x y h k
      unfolding run by (cases r) (auto simp: send_handler_map_inline_def ireturn_def ilift_def)
    with new show ?thesis by metis
  qed
qed

end
