(* ===== verification/Admission.thy ===== *)
theory Admission
  imports DispatchFacts
begin

text \<open>
  What a request must pass before its handler runs: the token of a protected route, the
  rate limit and the body limit; and what the handler's dependencies are called with. A
  continuation matters only where it is called: two that agree there give the same run.
\<close>

section \<open>Runs of a stage from one environment\<close>


lemma ibind_cong: "(\<And>x c. f x W c = g x W c) \<Longrightarrow> ibind m f W c = ibind m g W c"
  by (auto simp: ibind_def split: prod.split rust.split)

lemma ithen_cong: "(\<And>c. n W c = n' W c) \<Longrightarrow> ithen m n W c = ithen m n' W c"
  unfolding ithen_def by (rule ibind_cong)

lemma ilift_run [simp]: "ibind (ilift (Ok x)) f W c = f x W c" "ibind (ilift (Err e)) f W c = (Err e, c)"
  by (simp_all add: ibind_def ilift_def)

lemma iask_run [simp]: "ibind (iask g) f W c = f (g W) W c"
  by (simp add: ibind_def iask_def)

lemma rate_stage_cong: "(\<And>c. k W c = k' W c) \<Longrightarrow> rate_stage sc idx entry k W c = rate_stage sc idx entry k' W c"
  unfolding rate_stage_def by (auto intro!: ibind_cong split: option.split rl_decision.split)

text \<open>The body stage calls its continuation on bodies within the limit only.\<close>

lemma read_stage_cong:
  "(\<And>b o1 c. body_len b \<le> unat limit \<Longrightarrow> k b o1 W c = k' b o1 W c) \<Longrightarrow>
    read_stage limit k W c = read_stage limit k' W c"
  unfolding read_stage_def by (rule ibind_cong) (auto simp: Let_def not_less split: prod.split)

lemma body_stage_cong:
  assumes "\<And>b o1 c. body_len b \<le> unat (env_max_body W) \<Longrightarrow> k b o1 W c = k' b o1 W c"
  shows "body_stage sc entry k W c = body_stage sc entry k' W c"
proof -
  have "body_len BodyEmpty \<le> unat (env_max_body W)" by (simp add: body_len_def)
  then show ?thesis
    unfolding body_stage_def using assms
    by (auto intro!: ithen_cong read_stage_cong split: option.split)
qed

lemma set_template_run:
  "ithen (set_template t) m W c = m W (c\<lparr>tr := tr c @ [(SetTemplate t, answer W (tr c) (SetTemplate t))]\<rparr>)"
  by (cases "answer W (tr c) (SetTemplate t)") (simp_all add: set_template_def run_simps)

lemma read_too_long:
  "answer W (tr c) ReadBody = Inr obj \<Longrightarrow> unat limit < body_len (fst (from_py_any obj)) \<Longrightarrow>
    read_stage limit k W c = payload_too_large W (c\<lparr>tr := tr c @ [(ReadBody, Inr obj)]\<rparr>)"
  by (simp add: read_stage_def ibind_def perform_def Let_def split_beta)

lemma then_none_actions: "map fst (tr (snd (then_none m W c))) = map fst (tr (snd (m W c)))"
  by (auto simp: then_none_def ibind_def ireturn_def ilift_def split: prod.split rust.split)

lemma payload_too_large_actions:
  "map fst (tr (snd (payload_too_large W c))) = map fst (tr c)
    @ [Respond (ResponseStr 413 [(''content-type'', ct_json)] (literal_error ''payload too large''))]"
proof -
  have eq: "payload_too_large = then_none (respond
      (ResponseStr 413 [(''content-type'', ct_json)] (literal_error ''payload too large'')))"
    by (simp add: payload_too_large_def literal_error_def sender_defs)
  show ?thesis unfolding eq then_none_actions by (rule respond_actions)
qed

section \<open>Protected routes\<close>

text \<open>What a request must have to pass the check of its route.\<close>

definition token_ok :: "'k env \<Rightarrow> scope \<Rightarrow> 'k route_entry \<Rightarrow> json \<Rightarrow> bool" where
  "token_ok W sc entry claims \<longleftrightarrow> (\<exists>h dk val t. sc_headers sc = Some h
     \<and> jwt_decoding_key (extra entry) = Some dk \<and> jwt_validation (extra entry) = Some val
     \<and> request_token entry (header_get_lax h ''authorization'') (header_get_lax h ''cookie'') = Some t
     \<and> jwt_decode (lib_jwt (env_libs W)) t dk val = Ok claims)"

lemma jwt_stage_cong:
  assumes "require_jwt entry" "\<And>claims c. token_ok W sc entry claims \<Longrightarrow> k (Some claims) W c = k' (Some claims) W c"
  shows "jwt_stage sc entry k W c = jwt_stage sc entry k' W c"
  using assms
  by (auto simp: jwt_stage_def scope_headers_def token_ok_def split: option.splits rust.splits)

text \<open>The callables of a route: its handler and its dependencies.\<close>

fun route_call :: "action \<Rightarrow> bool" where
  "route_call (Call RouteHandler f xs kw) = True"
| "route_call (Call (Factory n) f xs kw) = True"
| "route_call _ = False"

lemma only_senders [spec_intros]:
  "only (\<lambda>a. \<not> route_call a) (send_text st t ct)" "only (\<lambda>a. \<not> route_call a) (send_429_rate_limited l r)"
  "only (\<lambda>a. \<not> route_call a) payload_too_large" "only (\<lambda>a. \<not> route_call a) unauthorized"
  by (auto simp: payload_too_large_def unauthorized_def intro!: sender_only)

lemma only_before_handler:
  assumes "\<And>claims. only (\<lambda>a. \<not> route_call a) (k claims)"
  shows "only (\<lambda>a. \<not> route_call a) (rate_stage sc idx entry (body_stage sc entry (\<lambda>b o1. jwt_stage sc entry k)))"
  using assms
  unfolding rate_stage_def body_stage_def read_stage_def jwt_stage_def set_template_def check_limiter_def
  by (auto intro!: spec_intros simp: Let_def split: option.split rl_decision.split rust.split prod.split)

text \<open>
  C2. A protected route is closed: when the run of a route that requires a token calls the
  handler or any dependency of the route, the request carries a token (the bearer token or
  the configured cookie) that the JWT library has decoded under the key and the validation
  of this route.
\<close>

theorem protected_route_needs_token:
  assumes "require_jwt entry"
    and "(a, v) \<in> set (tr (snd (run_route snap sc idx entry params W c)))" "(a, v) \<notin> set (tr c)" "route_call a"
  shows "\<exists>claims h dk val t. sc_headers sc = Some h
    \<and> jwt_decoding_key (extra entry) = Some dk \<and> jwt_validation (extra entry) = Some val
    \<and> request_token entry (header_get_lax h ''authorization'') (header_get_lax h ''cookie'') = Some t
    \<and> jwt_decode (lib_jwt (env_libs W)) t dk val = Ok claims"
proof (rule ccontr)
  assume "\<not> ?thesis"
  then have no: "\<not> token_ok W sc entry claims" for claims by (auto simp: token_ok_def)
  let ?closed = "rate_stage sc idx entry (body_stage sc entry (\<lambda>b o1. jwt_stage sc entry (\<lambda>_. ireturn PyNone)))"
  have "run_route snap sc idx entry params W c = ?closed W c"
    unfolding run_route_def
    by (intro rate_stage_cong body_stage_cong jwt_stage_cong [OF assms(1)]) (use no in simp)
  moreover have "only (\<lambda>a. \<not> route_call a) ?closed"
    by (rule only_before_handler) (rule spec_intros)
  ultimately show False using only_log assms(2-4) by metis
qed

section \<open>Refused requests\<close>

text \<open>
  C17. The body limit holds before and after the read: a request that declares a longer body
  is answered 413 without reading it; a request whose declaration is missing or within the limit and
  whose body is longer when it has been read is answered 413 then; in both cases nothing
  else happens. What comes after the body stage runs only on bodies within the limit: the run
  does not depend on what it would do on longer ones.
\<close>

theorem body_limit_enforced:
  assumes "should_read_body entry"
  shows "(\<forall>len. declared_length sc = Some len \<and> env_max_body W < len \<longrightarrow>
      map fst (tr (snd (body_stage sc entry k W c))) = map fst (tr c)
        @ [SetTemplate (path_template (extra entry)),
           Respond (ResponseStr 413 [(''content-type'', ct_json)] (literal_error ''payload too large''))])
    \<and> (\<forall>v obj. (\<forall>len. declared_length sc = Some len \<longrightarrow> len \<le> env_max_body W)
        \<and> v = answer W (tr c) (SetTemplate (path_template (extra entry)))
        \<and> answer W (tr c @ [(SetTemplate (path_template (extra entry)), v)]) ReadBody = Inr obj
        \<and> unat (env_max_body W) < body_len (fst (from_py_any obj)) \<longrightarrow>
      map fst (tr (snd (body_stage sc entry k W c))) = map fst (tr c)
        @ [SetTemplate (path_template (extra entry)), ReadBody,
           Respond (ResponseStr 413 [(''content-type'', ct_json)] (literal_error ''payload too large''))])
    \<and> ((\<forall>b o1 c. body_len b \<le> unat (env_max_body W) \<longrightarrow> k b o1 W c = k' b o1 W c) \<longrightarrow>
      body_stage sc entry k W c = body_stage sc entry k' W c)"
proof (intro conjI allI impI)
  fix len assume len: "declared_length sc = Some len \<and> env_max_body W < len"
  then have "body_stage sc entry k W c' = ithen (set_template (path_template (extra entry))) payload_too_large W c'" for c'
    using assms by (auto simp: body_stage_def intro!: ithen_cong)
  then show "map fst (tr (snd (body_stage sc entry k W c))) = map fst (tr c)
        @ [SetTemplate (path_template (extra entry)),
           Respond (ResponseStr 413 [(''content-type'', ct_json)] (literal_error ''payload too large''))]"
    by (simp add: set_template_run payload_too_large_actions)
next
  let ?t = "path_template (extra entry)"
  fix v obj
  assume h: "(\<forall>len. declared_length sc = Some len \<longrightarrow> len \<le> env_max_body W)
        \<and> v = answer W (tr c) (SetTemplate ?t) \<and> answer W (tr c @ [(SetTemplate ?t, v)]) ReadBody = Inr obj
        \<and> unat (env_max_body W) < body_len (fst (from_py_any obj))"
  have "body_stage sc entry k W c' = ithen (set_template ?t) (read_stage (env_max_body W) k) W c'" for c'
    unfolding body_stage_def using h assms by (intro ithen_cong) (auto simp: leD split: option.split)
  then have "body_stage sc entry k W c = read_stage (env_max_body W) k W (c\<lparr>tr := tr c @ [(SetTemplate ?t, v)]\<rparr>)"
    using h by (simp only: set_template_run)
  also have "\<dots> = payload_too_large W (c\<lparr>tr := tr c @ [(SetTemplate ?t, v), (ReadBody, Inr obj)]\<rparr>)"
  proof -
    have ans: "answer W (tr c @ [(SetTemplate ?t, v)]) ReadBody = Inr obj"
      and "unat (env_max_body W) < body_len (fst (from_py_any obj))"
      using h by blast+
    then have "answer W (tr (c\<lparr>tr := tr c @ [(SetTemplate ?t, v)]\<rparr>)) ReadBody = Inr obj"
      "unat (env_max_body W) < body_len (fst (from_py_any obj))" by simp_all
    from read_too_long [OF this] show ?thesis by simp
  qed
  finally show "map fst (tr (snd (body_stage sc entry k W c))) = map fst (tr c) @ [SetTemplate ?t, ReadBody,
      Respond (ResponseStr 413 [(''content-type'', ct_json)] (literal_error ''payload too large''))]"
    by (simp add: payload_too_large_actions)
next
  assume "\<forall>b o1 c. body_len b \<le> unat (env_max_body W) \<longrightarrow> k b o1 W c = k' b o1 W c"
  then show "body_stage sc entry k W c = body_stage sc entry k' W c" by (intro body_stage_cong) auto
qed

section \<open>What a dependency is called with\<close>

text \<open>The calls of factories in the log, in order.\<close>

fun factory_call :: "action \<times> (pyerr + pyobj) \<Rightarrow> (string \<times> (string \<times> pyobj) list) option" where
  "factory_call (Call (Factory n) f xs kw, v) = Some (n, kw)"
| "factory_call _ = None"

lemma factory_kwargs_named:
  assumes "distinct (map (de_name \<circ> fst) prev)" "(d, v) \<in> set prev" "de_varkw dep \<or> de_name d \<in> set (de_params dep)"
  shows "map_of (factory_kwargs dep ctx prev) (de_name d) = Some v"
proof -
  have keep: "map_of (fold (\<lambda>(d, v) kw. if de_varkw dep \<or> de_name d \<in> set (de_params dep)
      then al_put (de_name d) v kw else kw) ps kw) n = map_of kw n"
    if "n \<notin> set (map (de_name \<circ> fst) ps)" for ps kw n
    using that by (induction ps arbitrary: kw) (auto split: if_splits)
  obtain as bs where p: "prev = as @ (d, v) # bs" using assms(2) by (meson split_list)
  with assms(1) have "de_name d \<notin> set (map (de_name \<circ> fst) bs)" by auto
  with assms(3) show ?thesis
    unfolding factory_kwargs_def p by (simp add: keep)
qed

section \<open>Concrete inputs\<close>

text \<open>A protected route with a limiter that has one token and a handler that takes the body.\<close>

definition sample_secured :: "string route_entry" where
  "sample_secured = \<lparr>handler = PyStr ''ok'', body_model = None,
     extra = \<lparr>path_template = ''/s'', jwt_cookie = None, jwt_decoding_key = Some ''t'',
       jwt_validation = Some \<lparr>v_algorithms = [HS256], v_validate_nbf = False, v_validate_exp = True,
         v_leeway = 60, v_validate_aud = False, v_iss = None, v_aud = None\<rparr>,
       dependencies = [], handler_param_names = [''body''], body_param_name = ''json'',
       rate_limiter = None, wildcard_params = []\<rparr>,
     is_async = False, require_jwt = True, read_json_body = False, read_form_body = False,
     handler_varkw = False, trivial_sync = False, has_rate_limit = False\<rparr>"

text \<open>A limiter whose buckets are all empty.\<close>

definition sample_drained :: limiter where
  "sample_drained = (limiter_new \<lparr>cfg_limit = 1, cfg_window = Fin 60, cfg_strategy = Ip\<rparr>)
     \<lparr>rl_refill := Fin 1,
      rl_shards := replicate NUM_SHARDS [(''127.0.0.1'', \<lparr>tokens = Fin 0, last_update = 9\<rparr>)]\<rparr>"

definition sample_limited :: "string route_entry" where
  "sample_limited = sample_secured\<lparr>has_rate_limit := True,
     extra := (extra sample_secured)\<lparr>rate_limiter := Some sample_drained\<rparr>\<rparr>"

lemma sample_denied:
  "\<exists>reset L. rl_check E 0 ''127.0.0.1'' sample_drained = (Denied 1 reset, L)"
proof -
  have "shard_index E ''127.0.0.1'' < NUM_SHARDS" by (simp add: shard_index_def NUM_SHARDS_def)
  then show ?thesis
    by (simp add: rl_check_def sample_drained_def limiter_new_def truncate_key_id MAX_KEY_LEN_def
        Let_def shard_entry_def bucket_check_def refilled_def as_secs_f64_def f64_round_Fin f64_min_def
        f64_of_u64_cap cap_def)
qed

definition sample_post :: "(pyobj \<times> pyobj) list \<Rightarrow> scope" where
  "sample_post hs = \<lparr>sc_proto = ''http'', sc_method = ''POST'', sc_path = ''/s'', sc_query = Some [],
     sc_headers = Some (HDict hs), sc_client = ClientMissing, sc_scheme = Some ''http''\<rparr>"

definition sample_log :: "scope \<Rightarrow> string route_entry \<Rightarrow> log" where
  "sample_log sc entry = tr (snd (run_route (snapshot app_state_new) sc 0 entry [] sample_env sample_ctx))"

lemma sample_fields:
  "answer sample_env = sample_answer" "lib_jwt (env_libs sample_env) = sample_jwt_json"
  "env_max_body sample_env = 16" "tr sample_ctx = []" "env_wire sample_env = sample_wire"
  by (simp_all add: sample_env_def sample_env_libs_def sample_ctx_def)

lemmas stage_simps = rate_stage_def body_stage_def should_read_body_def set_template_def read_stage_def
  from_py_any_def body_len_def context_stage_def call_stage_def handler_args_def should_use_kwargs_def
  wants_def extract_vec_def body_is_empty_def has_json_body_def pass_body_def

theorem protected_route_needs_token_witness:
  "list_ex (\<lambda>(a, v). route_call a) (sample_log (sample_post [(PyStr ''authorization'', PyStr ''Bearer t'')]) sample_secured)
    \<and> (\<exists>t. request_token sample_secured (Some ''Bearer t'') None = Some t)"
proof -
  let ?sc = "sample_post [(PyStr ''authorization'', PyStr ''Bearer t'')]"
  have h: "sc_headers ?sc = Some (HDict [(PyStr ''authorization'', PyStr ''Bearer t'')])"
    "header_get_lax (HDict [(PyStr ''authorization'', PyStr ''Bearer t'')]) ''authorization'' = Some ''Bearer t''"
    "header_get_lax (HDict [(PyStr ''authorization'', PyStr ''Bearer t'')]) ''cookie'' = None"
    "header_of ?sc ''content-length'' = None"
    "request_token sample_secured (Some ''Bearer t'') None = Some ''t''"
    "require_jwt sample_secured" "tr sample_ctx = []"
    by (simp add: sample_post_def, code_simp, code_simp, code_simp, code_simp,
        simp add: sample_secured_def, simp add: sample_ctx_def)
  have run: "list_ex (\<lambda>(a, v). route_call a) (sample_log ?sc sample_secured)"
    unfolding sample_log_def run_route_def using h
    by (simp add: stage_simps run_simps sample_fields sample_jwt_json_def sample_secured_def scope_headers_def declared_length_def
     jwt_stage_def form_stage_def response_stage_def finish_response_def map_handler_return_def
     apply_response_middleware_def send_handler_map_inline_def app_state_new_def sender_defs is_head_def send_simple_body_sync_def sample_post_def)
  then obtain a v where av: "(a, v) \<in> set (sample_log ?sc sample_secured)" "route_call a"
    by (auto simp: list_ex_iff)
  show ?thesis
    using protected_route_needs_token [OF h(6) av(1) [unfolded sample_log_def] _ av(2)] run h by auto
qed

theorem body_limit_enforced_witness:
  "map fst (tr (snd (body_stage (sample_post [(PyStr ''content-length'', PyStr ''17'')]) sample_secured
      (\<lambda>b o1. ireturn PyNone) sample_env sample_ctx)))
    = [SetTemplate ''/s'',
       Respond (ResponseStr 413 [(''content-type'', ct_json)] (literal_error ''payload too large''))]
  \<and> map fst (tr (snd (body_stage (sample_post []) sample_secured (\<lambda>b o1. ireturn PyNone)
      (sample_env\<lparr>answer := \<lambda>h a. Inr (PyBytes ''12345678901234567'')\<rparr>) sample_ctx)))
    = [SetTemplate ''/s'', ReadBody,
       Respond (ResponseStr 413 [(''content-type'', ct_json)] (literal_error ''payload too large''))]"
proof
  let ?sc = "sample_post [(PyStr ''content-length'', PyStr ''17'')]"
  have "declared_length ?sc = Some 17"
    by (simp add: declared_length_def header_of_def header_get_lax_def nonempty_str_def sample_post_def str_simps)
  moreover have read: "should_read_body sample_secured" by (simp add: should_read_body_def sample_secured_def)
  ultimately show "map fst (tr (snd (body_stage ?sc sample_secured (\<lambda>b o1. ireturn PyNone) sample_env sample_ctx)))
    = [SetTemplate ''/s'',
       Respond (ResponseStr 413 [(''content-type'', ct_json)] (literal_error ''payload too large''))]"
    using body_limit_enforced [of sample_secured ?sc sample_env "\<lambda>b o1. ireturn PyNone" sample_ctx "\<lambda>b o1. ireturn PyNone"]
    by (simp add: sample_fields) (simp add: sample_secured_def)
  let ?W = "sample_env\<lparr>answer := \<lambda>h a. Inr (PyBytes ''12345678901234567'')\<rparr>"
  have "declared_length (sample_post []) = None"
    by (simp add: declared_length_def header_of_def sample_post_def) code_simp
  then show "map fst (tr (snd (body_stage (sample_post []) sample_secured (\<lambda>b o1. ireturn PyNone) ?W sample_ctx)))
    = [SetTemplate ''/s'', ReadBody,
       Respond (ResponseStr 413 [(''content-type'', ct_json)] (literal_error ''payload too large''))]"
    using body_limit_enforced [OF read, of "sample_post []" ?W "\<lambda>b o1. ireturn PyNone" sample_ctx "\<lambda>b o1. ireturn PyNone"]
    by (simp add: sample_fields from_py_any_def extract_vec_def body_len_def) (simp add: sample_secured_def)
qed

end
