(* ===== verification/Wiring.thy ===== *)
theory Wiring
  imports Admission
begin

text \<open>
  From the registration of a route to the calls of its factories and of its handler: the
  order that \<open>Dependency\<close> computes and \<open>App\<close> stores is the one in which \<open>Dispatch\<close> calls
  the factories, and it gives every factory the dependencies that its parameters name; and
  the short circuit calls a handler with exactly the parameters that it declares.
\<close>

section \<open>What calls neither the handler nor a factory\<close>

abbreviation uncalled :: "('k, 'a) io \<Rightarrow> bool" where
  "uncalled m \<equiv> only (\<lambda>a. \<not> route_call a) m"

lemma uncalled_send [spec_intros]:
  "uncalled (send_handler_map_inline h m)" "uncalled (send_text st t ct)"
  "uncalled (send_text_sync st t ct)" "uncalled (send_with_headers st b hs)"
  "uncalled (send_with_headers_sync st b hs)"
  "uncalled (send_429_rate_limited l r)" "uncalled payload_too_large" "uncalled unauthorized"
  by (cases m; auto simp: send_handler_map_inline_def send_simple_body_sync_def respond_def
      payload_too_large_def unauthorized_def send_empty_sync_def
      intro!: sender_only spec_intros split: simple_body.split)+

lemma uncalled_values [spec_intros]:
  "uncalled (py_to_json_bytes_or_fallback b)" "uncalled (py_str b)" "uncalled (python_pairs cfg)"
  by (auto simp: py_to_json_bytes_or_fallback_def json_dumps_bytes_def py_str_def python_pairs_def
      intro!: spec_intros split: rust.split pyobj.split)

lemma uncalled_structured [spec_intros]: "uncalled (structured_from_status_body st b h c)"
  by (auto simp: structured_from_status_body_def value_to_bytes_and_ct_def json_body_def
      intro!: spec_intros split: pyobj.split option.split)

lemma uncalled_map [spec_intros]: "uncalled (map_handler_return out)"
  by (auto simp: map_handler_return_def map_dict_return_def json_reply_def Let_def
      structured_from_response_attrs_def intro!: spec_intros split: pyobj.split option.split)

lemma uncalled_merge [spec_intros]: "uncalled (merge_config_response_headers snap sc m)"
  by (auto simp: merge_config_response_headers_def merge_security_def merge_cors_def
      intro!: spec_intros split: option.split)

lemma uncalled_middleware [spec_intros]: "uncalled (run_response_middleware cls mws m)"
  by (induction mws arbitrary: m) (auto intro!: spec_intros)

lemma uncalled_finish [spec_intros]: "uncalled (finish_response snap sc h out)"
  by (auto simp: finish_response_def apply_response_middleware_def intro!: spec_intros)

lemma only_if: "(b \<Longrightarrow> only A m) \<Longrightarrow> (\<not> b \<Longrightarrow> only A n) \<Longrightarrow> only A (if b then m else n)"
  by simp

lemma uncalled_handlers [spec_intros]: "uncalled (call_handlers err hs)"
proof (induction hs)
  case (Cons x hs)
  obtain cls h asy where x: "x = (cls, h, asy)" by (cases x)
  have "uncalled (instance_of err cls)"
    unfolding instance_of_def by (intro only_case only_perform only_return) simp
  then show ?case
    unfolding x call_handlers.simps using Cons
    by (intro only_bind) (auto intro!: only_case only_perform only_return)
qed (simp add: only_return)

lemma uncalled_fail [spec_intros]: "uncalled (fail_with snap sc e)"
  by (auto simp: fail_with_def send_python_error_def send_handled_def try_http_exception_def
      http_exception_payload_def send_internal_error_def internal_error_body_def Let_def
      intro!: spec_intros split: option.split)

lemma uncalled_response [spec_intros]: "uncalled (response_stage snap sc out)"
  by (auto simp: response_stage_def intro!: spec_intros)

lemma uncalled_args [spec_intros]: "uncalled (handler_args sc entry rd)"
  by (auto simp: handler_args_def json_args_def model_result_def has_attr_def validation_text_def Let_def
      intro!: spec_intros split: option.split rust.split)

lemma uncalled_sync_handlers:
  assumes "uncalled m"
  shows "uncalled (sync_handlers h err hs m)"
proof (induction hs)
  case (Cons x hs)
  obtain cls h' asy where x: "x = (cls, h', asy)" by (cases x)
  have i: "uncalled (instance_of err cls)"
    unfolding instance_of_def by (intro only_case only_perform only_return) simp
  show ?case
    unfolding x sync_handlers.simps
    by (intro only_bind only_if i only_case only_perform uncalled_map uncalled_send Cons) simp
qed (simp add: assms)

lemma uncalled_error_sync [spec_intros]: "uncalled (send_python_error_sync s h e)"
  by (auto simp: send_python_error_sync_def try_http_exception_sync_def http_exception_payload_def
      send_internal_error_sync_def internal_error_body_def Let_def
      intro!: spec_intros uncalled_sync_handlers split: option.split)

section \<open>The arguments of a factory\<close>

text \<open>A call of a factory of \<open>ds\<close>, with an argument for every parameter that names one of them.\<close>

definition wired :: "dependency_entry list \<Rightarrow> action \<Rightarrow> bool" where
  "wired ds a \<longleftrightarrow> (\<forall>n f xs kw. a = Call (Factory n) f xs kw \<longrightarrow> xs = [] \<and>
     (\<exists>d \<in> set ds. n = de_name d \<and> f = de_factory d
       \<and> (\<forall>p \<in> set (de_params d). p \<in> de_name ` set ds \<longrightarrow> p \<in> fst ` set kw)))"

lemma wired_other: "\<not> route_call a \<Longrightarrow> wired ds a"
  by (auto simp: wired_def)

lemma only_wired: "uncalled m \<Longrightarrow> only (wired ds) m"
  by (erule only_mono) (rule wired_other)

text \<open>The order that the registration stores.\<close>

definition well_ordered :: "dependency_entry list \<Rightarrow> bool" where
  "well_ordered ds \<longleftrightarrow> distinct (map de_name ds) \<and> (\<forall>i < length ds. \<forall>p \<in> set (de_params (ds ! i)).
     p \<in> de_name ` set ds \<longrightarrow> p \<in> de_name ` set (take i ds))"

lemma factory_kwargs_wired:
  assumes "well_ordered ds" "map fst prev = take i ds" "i < length ds"
    and "p \<in> set (de_params (ds ! i))" "p \<in> de_name ` set ds"
  shows "p \<in> fst ` set (factory_kwargs (ds ! i) ctx prev)"
proof -
  have "p \<in> de_name ` set (take i ds)" using assms unfolding well_ordered_def by blast
  then obtain d v where d: "(d, v) \<in> set prev" "de_name d = p"
    unfolding assms(2) [symmetric] by force
  have "map (de_name \<circ> fst) prev = take i (map de_name ds)"
    using arg_cong [OF assms(2), of "map de_name"] by (simp add: take_map)
  then have "distinct (map (de_name \<circ> fst) prev)"
    using assms(1) by (simp add: well_ordered_def)
  from factory_kwargs_named [OF this d(1)] assms(4) d(2)
  show ?thesis by (force dest: map_of_SomeD)
qed

lemma dependency_stage_wired:
  assumes "well_ordered ds" "\<And>prev. only (wired ds) (k prev)"
  shows "map fst prev = take i ds \<Longrightarrow> deps = drop i ds \<Longrightarrow>
    only (wired ds) (dependency_stage snap sc ctx deps prev k)"
proof (induction deps arbitrary: prev i)
  case Nil
  then show ?case using assms(2) by simp
next
  case (Cons dep deps)
  have i: "i < length ds" "ds ! i = dep" "drop (Suc i) ds = deps"
    using Cons.prems(2) by (metis drop_all length_0_conv list.distinct(1) not_le,
      metis drop_eq_Nil hd_drop_conv_nth list.distinct(1) list.sel(1) not_le,
      metis drop_Suc list.sel(3) tl_drop)
  have call: "wired ds (Call (Factory (de_name dep)) (de_factory dep) [] (factory_kwargs dep ctx prev))"
    using factory_kwargs_wired [OF assms(1) Cons.prems(1) i(1)] i nth_mem [OF i(1)]
    by (auto simp: wired_def)
  have "only (wired ds) (resolve_dependency snap dep ctx prev)"
    unfolding resolve_dependency_def run_query_def
    by (auto intro!: spec_intros call wired_other split: option.split)
  moreover have "map fst (prev @ [(dep, v)]) = take (Suc i) ds" for v
    using Cons.prems(1) i by (simp add: take_Suc_conv_app_nth)
  then have "only (wired ds) (dependency_stage snap sc ctx deps (prev @ [(dep, v)]) k)" for v
    using i(3) by (intro Cons.IH [of _ "Suc i"]) auto
  ultimately show ?case
    unfolding dependency_stage.simps by (intro only_case only_wired [OF uncalled_fail])
qed

lemmas wired_parts = only_wired [OF uncalled_fail] only_wired [OF uncalled_send(2)]
  only_wired [OF uncalled_send(6)] only_wired [OF uncalled_send(7)] only_wired [OF uncalled_send(8)]
  only_bind only_then only_lift only_ask only_ignore only_shared only_case

lemma wired_rate: "only (wired ds) k \<Longrightarrow> only (wired ds) (rate_stage sc idx entry k)"
  unfolding rate_stage_def check_limiter_def
  by (auto intro!: wired_parts split: option.split rl_decision.split)

lemma wired_body: "(\<And>b o1. only (wired ds) (k b o1)) \<Longrightarrow> only (wired ds) (body_stage sc entry k)"
  unfolding body_stage_def read_stage_def set_template_def
  by (auto intro!: wired_parts only_perform simp: wired_other Let_def split: option.split prod.split)

lemma wired_jwt: "(\<And>cl. only (wired ds) (k cl)) \<Longrightarrow> only (wired ds) (jwt_stage sc entry k)"
  unfolding jwt_stage_def by (auto intro!: wired_parts split: option.split rust.split)

lemma wired_form: "(\<And>fd. only (wired ds) (k fd)) \<Longrightarrow> only (wired ds) (form_stage snap sc entry b k)"
  unfolding form_stage_def by (auto intro!: wired_parts split: option.split rust.split)

lemma wired_call: "(\<And>out. only (wired ds) (k out)) \<Longrightarrow> only (wired ds) (call_stage snap sc entry rd k)"
  unfolding call_stage_def
  by (auto intro!: only_case only_wired [OF uncalled_args] only_wired [OF uncalled_fail] only_wired [OF uncalled_send(2)]
      only_perform simp: wired_def split: arg_result.split)

lemma run_route_wired:
  assumes "well_ordered (dependencies (extra entry))"
  shows "only (wired (dependencies (extra entry))) (run_route snap sc idx entry params)"
proof -
  have tail: "only (wired (dependencies (extra entry)))
     (context_stage snap sc entry (\<lambda>ctx. dependency_stage snap sc ctx (dependencies (extra entry)) [] (\<lambda>deps.
      call_stage snap sc entry (rd ctx deps) (response_stage snap sc))))" for rd
  proof -
    have dep: "only (wired (dependencies (extra entry))) (dependency_stage snap sc ctx
        (dependencies (extra entry)) [] (\<lambda>deps. call_stage snap sc entry (rd ctx deps) (response_stage snap sc)))" for ctx
      by (rule dependency_stage_wired [OF assms, where i = 0])
        (auto intro!: wired_call only_wired [OF uncalled_response])
    show ?thesis
      unfolding context_stage_def build_request_context_def
      by (auto intro!: only_case only_bind only_perform dep only_wired [OF uncalled_fail] simp: wired_other)
  qed
  show ?thesis
    unfolding run_route_def Let_def
    by (intro wired_rate wired_body wired_jwt only_bind only_ask wired_form tail)
qed

text \<open>
  C10. Every factory gets the dependencies it names: for a route that \<open>add_route\<close> accepts,
  with its dependencies declared in any order, every call of a factory while a request of
  that route is served is the call of a declared dependency, and each of its parameters
  that names another dependency of the route has an argument.
\<close>

theorem factories_get_dependencies:
  assumes "build_entry B a = Ok (e, op_id)"
    and "(Call (Factory n) f xs kw, v) \<in> set (tr (snd (run_route snap sc idx e params W c)))"
    and "(Call (Factory n) f xs kw, v) \<notin> set (tr c)"
  shows "xs = [] \<and> (\<exists>d \<in> set (dependencies (extra e)). n = de_name d \<and> f = de_factory d
    \<and> (\<forall>p \<in> set (de_params d). p \<in> de_name ` set (dependencies (extra e)) \<longrightarrow> p \<in> fst ` set kw))"
proof -
  have "well_ordered (dependencies (extra e))"
    using build_entry_ordered [OF assms(1)] by (simp add: well_ordered_def)
  from only_log [OF run_route_wired [OF this] assms(2)] assms(3) show ?thesis
    unfolding wired_def by blast
qed

definition sample_dep_entry :: "string route_entry" where
  "sample_dep_entry = \<lparr>handler = PyStr ''h'', body_model = None,
     extra = \<lparr>path_template = ''/d'', jwt_cookie = None, jwt_decoding_key = None, jwt_validation = None,
       dependencies =
         [\<lparr>de_name = ''a'', de_factory = PyStr ''h'', de_is_async = False, de_wants_request = False,
           de_params = [''id''], de_varkw = False\<rparr>,
          \<lparr>de_name = ''x'', de_factory = PyStr ''b'', de_is_async = False, de_wants_request = False,
           de_params = [''a''], de_varkw = False\<rparr>],
       handler_param_names = [''id''], body_param_name = ''json'', rate_limiter = None, wildcard_params = []\<rparr>,
     is_async = False, require_jwt = False, read_json_body = False, read_form_body = False,
     handler_varkw = False, trivial_sync = False, has_rate_limit = False\<rparr>"

lemma sample_dep_build: "build_entry sample_libs sample_dep_route = Ok (sample_dep_entry, ''h'')"
  by code_simp

theorem factories_get_dependencies_witness:
  "\<exists>v. (Call (Factory ''x'') (PyStr ''b'') [] [(''a'', PyNone)], v) \<in>
      set (tr (snd (run_route (snapshot app_state_new) (sample_post []) 0 sample_dep_entry [] sample_env sample_ctx)))
    \<and> (\<exists>d \<in> set (dependencies (extra sample_dep_entry)). de_name d = ''x'' \<and> de_params d = [''a''])"
proof -
  have run: "(Call (Factory ''x'') (PyStr ''b'') [] [(''a'', PyNone)], Inr PyNone) \<in>
      set (tr (snd (run_route (snapshot app_state_new) (sample_post []) 0 sample_dep_entry [] sample_env sample_ctx)))"
    unfolding run_route_def
    by (simp add: stage_simps run_simps sample_fields sample_dep_entry_def jwt_stage_def form_stage_def
        resolve_dependency_def factory_kwargs_def as_db_query_def
        response_stage_def finish_response_def map_handler_return_def merge_config_response_headers_def
     apply_response_middleware_def send_handler_map_inline_def app_state_new_def sender_defs is_head_def
     send_simple_body_sync_def sample_post_def has_json_body_def pass_body_def)
  have "tr sample_ctx = []" by (simp add: sample_ctx_def)
  with factories_get_dependencies [OF sample_dep_build run] run show ?thesis
    by (auto simp: sample_dep_entry_def)
qed

section \<open>The call of a trivial route\<close>

text \<open>The value of a parameter: its last value in the list that the router gives, coerced unless it is a wildcard.\<close>

definition param_value :: "string list \<Rightarrow> path_params \<Rightarrow> string \<Rightarrow> pyobj option" where
  "param_value wild ps n = map_option (\<lambda>v. if n \<in> set wild then PyStr v else value_for_path_param v) (map_of (rev ps) n)"

lemma fold_al_put:
  "map_of (fold (\<lambda>(k, v). al_put k (f k v)) ps m) n =
     (case map_of (rev ps) n of Some v \<Rightarrow> Some (f n v) | None \<Rightarrow> map_of m n)
   \<and> (distinct (map fst m) \<longrightarrow> distinct (map fst (fold (\<lambda>(k, v). al_put k (f k v)) ps m)))"
  by (induction ps arbitrary: m) (auto simp: map_add_def split: option.split)

lemma param_kwargs_bind:
  "map_of (param_kwargs wild ps) = param_value wild ps" "distinct (map fst (param_kwargs wild ps))"
  using fold_al_put [of "\<lambda>k v. if k \<in> set wild then PyStr v else value_for_path_param v" ps "[]"]
  by (auto simp: param_kwargs_def param_value_def fun_eq_iff split: option.split)

definition called_with :: "'k route_entry \<Rightarrow> path_params \<Rightarrow> action \<Rightarrow> bool" where
  "called_with entry ps a \<longleftrightarrow> (\<forall>r f xs kw. a = Call r f xs kw \<and> route_call a \<longrightarrow>
     r = RouteHandler \<and> f = handler entry \<and> xs = [] \<and> distinct (map fst kw)
     \<and> map_of kw = param_value (wildcard_params (extra entry)) ps)"

lemma only_called_with: "uncalled m \<Longrightarrow> only (called_with entry ps) m"
  by (erule only_mono) (simp add: called_with_def)

lemma trivial_called_with: "only (called_with entry ps) (run_trivial_sync_route snap sc entry ps)"
proof -
  have "called_with entry ps (Call RouteHandler (handler entry) []
      (if ps = [] then [] else param_kwargs (wildcard_params (extra entry)) ps))"
    using param_kwargs_bind [of "wildcard_params (extra entry)" ps] by (simp add: called_with_def param_value_def fun_eq_iff)
  then show ?thesis
    unfolding run_trivial_sync_route_def Let_def set_template_def
    by (intro only_then only_ignore only_case only_perform only_return only_called_with [OF uncalled_error_sync]
        only_called_with [OF uncalled_map] only_called_with [OF uncalled_merge] only_called_with [OF uncalled_send(1)])
      (simp_all add: called_with_def)
qed

lemma param_value_keys: "map_of kw = param_value wild ps \<Longrightarrow> fst ` set kw = fst ` set ps"
proof -
  have "dom (param_value wild ps) = fst ` set ps"
    by (simp add: param_value_def dom_map_option_comp [unfolded comp_def] dom_map_of_conv_image_fst dom_def
        flip: dom_map_of_conv_image_fst)
      (auto simp: map_of_eq_None_iff simp flip: not_None_eq)
  then show "map_of kw = param_value wild ps \<Longrightarrow> fst ` set kw = fst ` set ps"
    by (metis dom_map_of_conv_image_fst)
qed



end
