(* ===== verification/FastPath.thy ===== *)
theory FastPath
  imports Admission
begin

text \<open>
  The synchronous short circuit against the general path: where it answers a request, the
  general path would have performed the same actions with the same outcome. The exception
  handlers are the exception: the short circuit skips the asynchronous ones.
\<close>

section \<open>Agreement of an attempt with a path\<close>

text \<open>\<open>agrees m n\<close>: wherever \<open>m\<close> does not give up, \<open>n\<close> does the same.\<close>

definition agrees :: "('k, 'a option) io \<Rightarrow> ('k, 'a) io \<Rightarrow> bool" where
  "agrees m n \<longleftrightarrow> (\<forall>W c. fst (m W c) = Ok None \<or> n W c = (rmap the (fst (m W c)), snd (m W c)))"

named_theorems agrees_intros \<open>agreement of the combinators\<close>

lemma agrees_give_up [agrees_intros]: "agrees (ireturn None) n"
  by (simp add: agrees_def ireturn_def ilift_def)

lemma agrees_fail [agrees_intros]: "agrees (ilift (Err e)) (ilift (Err e))" "agrees (ilift (Panic s)) (ilift (Panic s))"
  by (simp_all add: agrees_def ilift_def)

lemma agrees_answer [agrees_intros]: "agrees (ibind m (\<lambda>_. ireturn (Some PyNone))) (then_none m)"
  by (auto simp: agrees_def then_none_def ibind_def ireturn_def ilift_def split: prod.split rust.split)

lemma agrees_bind [agrees_intros]: "(\<And>x. agrees (f x) (g x)) \<Longrightarrow> agrees (ibind m f) (ibind m g)"
  unfolding agrees_def ibind_def by (auto split: prod.split rust.split)

lemma agrees_then [agrees_intros]: "agrees n n' \<Longrightarrow> agrees (ithen m n) (ithen m n')"
  unfolding ithen_def by (rule agrees_bind)

section \<open>The combinators\<close>

lemma icase_ibind: "icase (ibind m f) h g = icase m h (\<lambda>x. icase (f x) h g)"
  by (auto simp: icase_def ibind_def fun_eq_iff split: prod.split rust.split)

lemma then_none_icase: "then_none (icase m h f) = icase m (\<lambda>e. then_none (h e)) (\<lambda>x. then_none (f x))"
  by (auto simp: icase_def then_none_def ibind_def fun_eq_iff split: prod.split rust.split)

lemma then_none_ibind: "then_none (ibind m f) = ibind m (\<lambda>x. then_none (f x))"
  by (simp add: then_none_def ibind_assoc)

lemma then_none_ithen: "then_none (ithen m n) = ithen m (then_none n)"
  by (simp add: ithen_def then_none_ibind)

lemma then_none_return: "then_none (ireturn ()) = ireturn PyNone"
  by (simp add: then_none_def)

lemma icase_return [simp]: "icase (ireturn x) h f = f x"
  by (simp add: icase_def ireturn_def ilift_def fun_eq_iff)

lemma ibind_ask_const [simp]: "ibind (iask f) (\<lambda>_. m) = m"
  by (simp add: ibind_def iask_def)

section \<open>Senders and errors\<close>

lemma wire_ct [simp]: "wire_name ''content-type'' = ''content-type''" "wire_name ''content-length'' = ''content-length''"
  by (simp_all add: wire_name_lower str_simps)

lemma send_none:
  "send_text st t ct = then_none (send_text_sync st t ct)"
  "send_str st t ct = then_none (send_str_sync st t ct)"
  "send_with_headers st b hs = then_none (send_with_headers_sync st b hs)"
  "send_head_simple st len ct = then_none (send_head_simple_sync st len ct)"
  "send_405_method_not_allowed m = then_none (send_405_method_not_allowed_sync m)"
  by (simp_all add: sender_defs Let_def build_header_list_from_pairs_def show_nat_0)

lemma http_exception_none:
  "try_http_exception err = ibind (try_http_exception_sync err) (\<lambda>r. ireturn (map_option (\<lambda>_. PyNone) r))"
  unfolding try_http_exception_def try_http_exception_sync_def send_none then_none_def ibind_assoc
  by (rule arg_cong [where f = "ibind (http_exception_payload err)"], rule ext)
    (auto simp: ibind_assoc split: option.split)

lemma fail_with_sync:
  assumes "f_exception_handlers snap = []"
  shows "fail_with snap sc e = then_none (send_python_error_sync (Some snap) (is_head sc) e)"
proof -
  have "ibind (try_http_exception e) (\<lambda>r. case r of Some x \<Rightarrow> ireturn x | None \<Rightarrow> send_internal_error e) =
    then_none (ibind (try_http_exception_sync e) (\<lambda>r. case r of Some x \<Rightarrow> ireturn x | None \<Rightarrow> send_internal_error_sync e))"
    unfolding http_exception_none then_none_def ibind_assoc
    by (rule arg_cong [where f = "ibind (try_http_exception_sync e)"], rule ext)
      (auto simp: send_internal_error_def send_internal_error_sync_def send_none then_none_def ibind_assoc
        split: option.split)
  then show ?thesis
    using assms by (simp add: fail_with_def send_python_error_def send_python_error_sync_def)
qed

section \<open>A trivial route\<close>

definition configs_match :: "'k frozen_state \<Rightarrow> bool" where
  "configs_match f \<longleftrightarrow> (f_compiled_cors f \<noteq> None \<longrightarrow> f_cors f \<noteq> None)
     \<and> (f_compiled_security f \<noteq> None \<longrightarrow> f_security_headers f \<noteq> None)"

lemma merge_configured:
  assumes "configs_match snap"
  shows "(if f_security_headers snap \<noteq> None \<or> f_cors snap \<noteq> None
      then merge_config_response_headers snap sc m else ireturn m) = merge_config_response_headers snap sc m"
  using assms
  by (auto simp: configs_match_def merge_config_response_headers_def merge_security_def merge_cors_def)

lemma trivial_wants:
  assumes "entry_ok entry" "trivial_sync entry" "n \<in> set reserved_names"
  shows "\<not> wants entry n"
  using assms by (auto simp: entry_ok_def wants_def list_ex_iff)

lemma reserved_body [simp]:
  "''body'' \<in> set reserved_names" "''query'' \<in> set reserved_names" "''protocol'' \<in> set reserved_names"
  by (simp_all add: reserved_names_def)

lemma trivial_stages:
  assumes "entry_ok entry" "trivial_sync entry"
  shows "run_route snap sc idx entry params =
    ithen (set_template (path_template (extra entry)))
      (call_stage snap sc entry
        \<lparr>rd_params = params, rd_query = [], rd_deps = [], rd_claims = None,
         rd_body = BodyEmpty, rd_body_py = None, rd_form = ([], [])\<rparr>
        (response_stage snap sc))"
proof -
  have "\<not> should_read_body entry"
    using assms trivial_wants [OF assms, of "''body''"] by (auto simp: should_read_body_def entry_ok_def wants_def)
  moreover have "\<not> wants entry ''query''" by (rule trivial_wants [OF assms]) simp
  moreover have "rate_limiter (extra entry) = None" using assms by (auto simp: entry_ok_def)
  ultimately show ?thesis
    using assms
    by (simp add: entry_ok_def run_route_def rate_stage_def body_stage_def jwt_stage_def form_stage_def
        context_stage_def Let_def)
qed

lemma trivial_call:
  assumes "entry_ok entry" "trivial_sync entry"
  shows "call_stage snap sc entry
        \<lparr>rd_params = params, rd_query = [], rd_deps = [], rd_claims = None,
         rd_body = BodyEmpty, rd_body_py = None, rd_form = ([], [])\<rparr> k =
    icase (perform (Call RouteHandler (handler entry) []
      (if params = [] then [] else param_kwargs (wildcard_params (extra entry)) params))) (fail_with snap sc) k"
proof -
  have "\<not> wants entry ''protocol''" by (rule trivial_wants [OF assms]) simp
  then show ?thesis
    using assms
    by (simp add: entry_ok_def call_stage_def handler_args_def should_use_kwargs_def pass_body_def has_json_body_def
        kwargs_head_def kwargs_tail_def body_is_empty_def Let_def)
qed

lemma trivial_route_agrees:
  assumes "entry_ok entry" "trivial_sync entry" "configs_match snap"
    and "f_exception_handlers snap = []" "f_response_middleware snap = []"
  shows "run_route snap sc idx entry params = then_none (run_trivial_sync_route snap sc entry params)"
  unfolding trivial_stages [OF assms(1,2)] trivial_call [OF assms(1,2)] run_trivial_sync_route_def Let_def
    then_none_ithen then_none_icase then_none_return fail_with_sync [OF assms(4)]
    response_stage_def finish_response_def apply_response_middleware_def merge_configured [OF assms(3)]
  by (simp add: assms(5) icase_ibind)

section \<open>The short circuit\<close>

lemma short_circuit_agrees:
  assumes "list_all entry_ok (f_routes snap)" "configs_match snap"
    and "f_exception_handlers snap = []" "sc_proto sc = ''http''"
  shows "agrees (try_rsgi_sync_short_circuit snap sc) (run_rsgi_http snap sc)"
proof -
  have trivial: "agrees (ibind (run_trivial_sync_route snap sc (f_routes snap ! i) ps) (\<lambda>_. ireturn (Some PyNone)))
      (run_route snap sc i (f_routes snap ! i) ps)"
    if "i < length (f_routes snap)" "trivial_sync (f_routes snap ! i)" "f_response_middleware snap = []" for i ps
    using that assms(1) trivial_route_agrees [OF _ that(2) assms(2,3) that(3)]
    by (simp add: list_all_length agrees_answer)
  have head: "is_head sc \<Longrightarrow> sc_method sc = ''HEAD''" by (simp add: is_head_def)
  show ?thesis
  proof (cases "is_openapi_request snap sc")
    case True
    then have "preflight_answer snap sc = Ok None"
      by (auto simp: is_openapi_request_def preflight_answer_def)
    with True show ?thesis
      using assms(4)
      by (auto simp: try_rsgi_sync_short_circuit_def run_rsgi_http_def openapi_stage_def send_none ireturn_def [symmetric]
          intro!: agrees_intros)
  next
    case False
    then show ?thesis
      using assms(4) trivial
      by (auto simp: try_rsgi_sync_short_circuit_def run_rsgi_http_def openapi_stage_def preflight_stage_def
          route_stage_def send_none Let_def route_is_trivial_sync_def
          intro!: agrees_intros split: option.split rust.split)
  qed
qed

section \<open>Configurations in the application state\<close>

text \<open>A configuration is compiled only where it is set, in the state and in what it publishes.\<close>

definition configs_ok :: "'k app_state \<Rightarrow> bool" where
  "configs_ok st \<longleftrightarrow> configs_match (frozen_view st) \<and> configs_match (snapshot st)"

definition same_configs :: "'k app_state \<Rightarrow> 'k app_state \<Rightarrow> bool" where
  "same_configs st st' \<longleftrightarrow> cors st' = cors st \<and> compiled_cors st' = compiled_cors st
     \<and> security_headers st' = security_headers st \<and> compiled_security st' = compiled_security st
     \<and> (snapshot st' = snapshot st \<or> snapshot st' = frozen_view st')"

lemma same_configs_ok: "configs_ok st \<Longrightarrow> same_configs st st' \<Longrightarrow> configs_ok st'"
  by (auto simp: configs_ok_def configs_match_def same_configs_def frozen_view_def)

lemma same_configs_refl: "same_configs st st"
  by (simp add: same_configs_def)

lemma frozen_view_published [simp]: "frozen_view (rebuild_snapshot st) = frozen_view st"
  by (simp add: frozen_view_def rebuild_snapshot_def)

lemma rebuild_configs [simp]:
  "cors (rebuild_snapshot st) = cors st" "compiled_cors (rebuild_snapshot st) = compiled_cors st"
  "security_headers (rebuild_snapshot st) = security_headers st"
  "compiled_security (rebuild_snapshot st) = compiled_security st"
  "snapshot (rebuild_snapshot st) = frozen_view st"
  by (simp_all add: rebuild_snapshot_def)

lemma method_router_configs [simp]:
  "cors (set_method_router m r st) = cors st" "compiled_cors (set_method_router m r st) = compiled_cors st"
  "security_headers (set_method_router m r st) = security_headers st"
  "compiled_security (set_method_router m r st) = compiled_security st"
  "snapshot (set_method_router m r st) = snapshot st"
  by (simp_all add: set_method_router_def)

lemma insert_route_configs: "same_configs st (fst (insert_route B m p i st))"
  by (auto simp: insert_route_def same_configs_def Let_def split: option.split rust.split)

lemma configs_trans: "same_configs st s1 \<Longrightarrow> snapshot s1 = snapshot st \<Longrightarrow> same_configs s1 s2 \<Longrightarrow> same_configs st s2"
  by (auto simp: same_configs_def)

lemma add_route_configs: "same_configs st (fst (add_route B a st))"
proof -
  have "same_configs st (fst (insert_route B m p i (st\<lparr>routes := rs, openapi := d\<rparr>)))" for m p i rs d
    by (rule configs_trans [OF _ _ insert_route_configs]) (simp_all add: same_configs_def)
  then show ?thesis
    by (auto simp: add_route_def Let_def same_configs_refl split: rust.split) (simp add: same_configs_def)+
qed

lemma app_exec_configs:
  assumes "configs_ok st"
  shows "configs_ok (app_exec B op st)"
proof -
  have pub: "configs_match (frozen_view s) \<Longrightarrow> configs_ok (rebuild_snapshot s)" for s :: "'a app_state"
    by (simp add: configs_ok_def)
  have live: "configs_match (frozen_view st)" using assms by (simp add: configs_ok_def)
  show ?thesis
  proof (cases op)
    case (SetCors cfg)
    have "configs_match (frozen_view (st\<lparr>cors := cfg, compiled_cors := Option.bind cfg f\<rparr>))" for f
      using live by (cases cfg) (auto simp: configs_match_def frozen_view_def)
    then show ?thesis by (simp add: SetCors set_cors_def pub)
  next
    case (SetSecurityHeaders cfg)
    have "configs_match (frozen_view (st\<lparr>security_headers := cfg, compiled_security := Option.bind cfg f\<rparr>))" for f
      using live by (cases cfg) (auto simp: configs_match_def frozen_view_def)
    then show ?thesis by (simp add: SetSecurityHeaders set_security_headers_def pub)
  next
    case (AddRoute a)
    then show ?thesis using same_configs_ok [OF assms add_route_configs] by simp
  qed (rule same_configs_ok [OF assms],
      auto simp: same_configs_def add_websocket_route_def freeze_def ensure_compiled_snapshot_def
        set_openapi_served_def set_openapi_title_def set_openapi_version_def set_openapi_info_def
        app_openapi_json_def add_exception_handler_def set_middleware_def add_middleware_def
        setup_database_def close_database_def Let_def split: rust.split option.split prod.split)+
qed

interpretation configs: op_machine "app_exec B" configs_ok for B
  by unfold_locales (rule app_exec_configs)

lemma configs_new: "configs_ok (app_new b)"
  by (simp add: configs_ok_def configs_match_def app_new_def app_state_new_def frozen_view_def)

text \<open>
  C4. The fast path is the slow path: for an application in any reachable state without
  exception handlers, whenever the synchronous short circuit takes an HTTP request (it
  does not return \<open>Ok(None)\<close>), the general path would have ended in the same context, with
  the same actions in the same order and the same answers, and with the same outcome; for
  every handler, configuration object and response call, whatever they return or raise.
\<close>

theorem fast_path_equivalent:
  assumes "st = fold (app_exec B) ops (app_new b)" "snap = hot_snapshot st"
    and "f_exception_handlers snap = []" "sc_proto sc = ''http''"
    and "try_rsgi_sync_short_circuit snap sc W c = (r, c')" "r \<noteq> Ok None"
  shows "run_rsgi_http snap sc W c = (rmap the r, c')"
proof -
  have "app_ok st" "configs_ok st"
    unfolding assms(1) by (rule app.run_inv [OF app_new_ok], rule configs.run_inv [OF configs_new])
  then have "list_all entry_ok (f_routes snap)" "configs_match snap"
    by (simp_all add: assms(2) hot_snapshot_def app_ok_def snapshot_ok_def configs_ok_def)
  from short_circuit_agrees [OF this assms(3,4)] assms(5,6) show ?thesis
    unfolding agrees_def by (metis fst_conv snd_conv)
qed

theorem fast_path_equivalent_witness:
  "map fst (tr (snd (run_rsgi_http (hot_snapshot sample_state) sample_scope sample_env sample_ctx))) =
    [SetTemplate ''/a/:id'', Call RouteHandler (PyStr ''h'') [] [(''id'', PyInt 5)],
     Respond (ResponseStr 200 [(''content-type'', ct_text)] ''h'')]"
proof -
  let ?s = "hot_snapshot sample_state"
  obtain cr where cr: "f_compiled ?s = Some cr"
    "match_route_compiled sample_matchit cr ''GET'' ''/a/5'' = Some (Some (0, [(''id'', ''5'')]))"
    using sample_match by blast
  have snap: "f_request_middleware ?s = []" "f_response_middleware ?s = []" "f_exception_handlers ?s = []"
    "f_cors ?s = None" "f_compiled_cors ?s = None" "f_security_headers ?s = None" "f_compiled_security ?s = None"
    "0 < length (f_routes ?s)"
    by code_simp+
  let ?e = "f_routes ?s ! 0"
  have e: "trivial_sync ?e" "handler ?e = PyStr ''h''" "path_template (extra ?e) = ''/a/:id''"
    "wildcard_params (extra ?e) = []" "value_for_path_param ''5'' = PyInt 5"
    by code_simp+
  have sc: "sc_proto sample_scope = ''http''" "sc_method sample_scope = ''GET''" "sc_path sample_scope = ''/a/5''"
    by (simp_all add: sample_scope_def)
  have "\<exists>c'. try_rsgi_sync_short_circuit ?s sample_scope sample_env sample_ctx = (Ok (Some PyNone), c')
    \<and> map fst (tr c') = [SetTemplate ''/a/:id'', Call RouteHandler (PyStr ''h'') [] [(''id'', PyInt 5)],
     Respond (ResponseStr 200 [(''content-type'', ct_text)] ''h'')]"
    using snap e sc cr
    by (simp add: try_rsgi_sync_short_circuit_def preflight_answer_def is_openapi_request_def compiled_for_def
        route_is_trivial_sync_def run_trivial_sync_route_def set_template_def param_kwargs_def is_head_def
        map_handler_return_def merge_config_response_headers_def merge_security_def merge_cors_def
        send_handler_map_inline_def send_simple_body_sync_def sender_defs run_simps sample_fields sample_simps)
  then obtain c' where run: "try_rsgi_sync_short_circuit ?s sample_scope sample_env sample_ctx = (Ok (Some PyNone), c')"
    and log: "map fst (tr c') = [SetTemplate ''/a/:id'', Call RouteHandler (PyStr ''h'') [] [(''id'', PyInt 5)],
     Respond (ResponseStr 200 [(''content-type'', ct_text)] ''h'')]"
    by (elim exE conjE) (rule that)
  have some: "Ok (Some PyNone) \<noteq> (Ok None :: pyobj option pyres)" by simp
  show ?thesis
    unfolding fast_path_equivalent [OF sample_state_def refl snap(3) sc(1) run some] snd_conv by (rule log)
qed

end
