(* ===== verification/WebSocket.thy ===== *)
theory WebSocket
  imports Admission
begin

text \<open>
  \<open>src/src/websocket.rs\<close>, the connection object, and \<open>run_rsgi_websocket\<close> of
  \<open>src/src/dispatch.rs\<close>: the origin check, the registry of open connections, the handler
  and the close codes. The coroutines of \<open>oxyroute/_ws.py\<close> that the object returns are
  taken as run to their end, with what the transport answers as an argument.
\<close>

section \<open>The connection object\<close>

record ws_conn =
  ws_transport :: "pyobj option"
  ws_path_params :: path_params
  ws_closed :: bool

text \<open>What the object asks of the protocol and of the transport.\<close>

datatype ws_action =
    WsAccept
  | WsReceive pyobj
  | WsSend pyobj pyobj
  | WsClose int

record ws_msg =
  msg_kind :: int
  msg_data :: pyobj

definition ws_new :: "path_params \<Rightarrow> ws_conn" where
  "ws_new ps = \<lparr>ws_transport = None, ws_path_params = ps, ws_closed = False\<rparr>"

definition path_params_dict :: "ws_conn \<Rightarrow> pyobj" where
  "path_params_dict s = PyDict (fold (\<lambda>(k, v). dict_set (PyStr k) (PyStr v)) (ws_path_params s) [])"

definition is_closed :: "ws_conn \<Rightarrow> bool" where
  "is_closed s = ws_closed s"

definition ws_origin :: "scope \<Rightarrow> string option" where
  "ws_origin sc = (case sc_headers sc of None \<Rightarrow> None | Some h \<Rightarrow> header_get_lax h ''origin'')"

definition set_transport :: "pyobj \<Rightarrow> ws_conn \<Rightarrow> ws_conn" where
  "set_transport t s = s\<lparr>ws_transport := Some t\<rparr>"

definition mark_closed :: "ws_conn \<Rightarrow> ws_conn" where
  "mark_closed s = s\<lparr>ws_closed := True\<rparr>"

definition not_accepted :: pyerr where
  "not_accepted = PyErr ''RuntimeError'' ''WebSocket: call accept() before send/receive''"

definition ws_accept :: "pyerr + pyobj \<Rightarrow> ws_conn \<Rightarrow> ws_conn \<times> ws_action list \<times> pyobj pyres" where
  "ws_accept r s =
     (case r of
        Inr t \<Rightarrow> (set_transport t s, [WsAccept], Ok PyNone)
      | Inl e \<Rightarrow> (s, [WsAccept], Err e))"

text \<open>
  \<open>ws_receive\<close>, \<open>ws_receive_text\<close> and \<open>ws_receive_bytes\<close>: kind 0 is the close frame. A
  \<open>memoryview\<close>, which the code also takes as bytes, is not among the values of \<open>pyobj\<close>.
\<close>

datatype ws_mode = AnyFrame | TextFrame | BinaryFrame

definition frame_value :: "ws_mode \<Rightarrow> ws_msg \<Rightarrow> pyobj pyres" where
  "frame_value mode msg =
     (case mode of
        AnyFrame \<Rightarrow> Ok (msg_data msg)
      | TextFrame \<Rightarrow>
          (case (msg_kind msg = 2, msg_data msg) of
             (True, PyStr s) \<Rightarrow> Ok (PyStr s) | _ \<Rightarrow> value_error ''expected text frame'')
      | BinaryFrame \<Rightarrow>
          (case (msg_kind msg = 1, msg_data msg) of
             (True, PyBytes b) \<Rightarrow> Ok (PyBytes b)
           | (True, PyByteArray b) \<Rightarrow> Ok (PyBytes b)
           | _ \<Rightarrow> value_error ''expected binary frame''))"

definition ws_receive :: "ws_mode \<Rightarrow> pyerr + ws_msg \<Rightarrow> ws_conn \<Rightarrow> ws_conn \<times> ws_action list \<times> pyobj pyres" where
  "ws_receive mode r s =
     (case ws_transport s of
        None \<Rightarrow> (s, [], Err not_accepted)
      | Some t \<Rightarrow>
         (case r of
            Inl e \<Rightarrow> (s, [WsReceive t], Err e)
          | Inr msg \<Rightarrow>
              if msg_kind msg = 0
              then (mark_closed s, [WsReceive t], runtime_error ''WebSocket closed by peer'')
              else (s, [WsReceive t], frame_value mode msg)))"

text \<open>\<open>send_text\<close>, \<open>send_bytes\<close> and \<open>send_json\<close>, the value being what is sent.\<close>

definition ws_send :: "pyobj \<Rightarrow> pyerr + unit \<Rightarrow> ws_conn \<Rightarrow> ws_conn \<times> ws_action list \<times> pyobj pyres" where
  "ws_send v r s =
     (case ws_transport s of
        None \<Rightarrow> (s, [], Err not_accepted)
      | Some t \<Rightarrow> (s, [WsSend t v], case r of Inl e \<Rightarrow> Err e | Inr _ \<Rightarrow> Ok PyNone))"

definition ws_close :: "int option \<Rightarrow> ws_conn \<Rightarrow> ws_conn \<times> ws_action list \<times> pyobj pyres" where
  "ws_close code s =
     (s\<lparr>ws_closed := True\<rparr>,
      if ws_closed s then [] else [WsClose (case code of Some x \<Rightarrow> x | None \<Rightarrow> 1000)],
      Ok PyNone)"

section \<open>Runs of a connection\<close>

datatype ws_op =
    OpAccept "pyerr + pyobj"
  | OpReceive ws_mode "pyerr + ws_msg"
  | OpSend pyobj "pyerr + unit"
  | OpClose "int option"

fun ws_exec :: "ws_op \<Rightarrow> ws_conn \<Rightarrow> ws_conn \<times> ws_action list \<times> pyobj pyres" where
  "ws_exec (OpAccept r) s = ws_accept r s"
| "ws_exec (OpReceive m r) s = ws_receive m r s"
| "ws_exec (OpSend v r) s = ws_send v r s"
| "ws_exec (OpClose c) s = ws_close c s"

text \<open>A step of a connection: an operation and what it asked of the transport.\<close>

inductive ws_step :: "ws_conn \<times> ws_action list \<Rightarrow> ws_conn \<times> ws_action list \<Rightarrow> bool" where
  step: "ws_exec opn s = (s', acts, r) \<Longrightarrow> ws_step (s, hist) (s', hist @ acts)"

inductive_cases ws_stepE: "ws_step st st'"

text \<open>A connection and what it has asked for since it was created.\<close>

inductive ws_reach :: "path_params \<Rightarrow> ws_conn \<times> ws_action list \<Rightarrow> bool" for ps where
  init: "ws_reach ps (ws_new ps, [])"
| later: "ws_reach ps st \<Longrightarrow> ws_step st st' \<Longrightarrow> ws_reach ps st'"

lemmas ws_defs = ws_accept_def ws_receive_def ws_send_def ws_close_def set_transport_def mark_closed_def

fun is_close :: "ws_action \<Rightarrow> bool" where
  "is_close (WsClose c) = True" | "is_close _ = False"

text \<open>
  What holds of every reachable connection: it has been closed at most once, and never
  after the peer has closed it; and nothing is sent or received before it is accepted.
\<close>

definition ws_inv :: "ws_conn \<times> ws_action list \<Rightarrow> bool" where
  "ws_inv = (\<lambda>(s, hist). length (filter is_close hist) \<le> (if ws_closed s then 1 else 0)
     \<and> (ws_transport s \<noteq> None \<longrightarrow> WsAccept \<in> set hist)
     \<and> (\<forall>i < length hist. (\<exists>t. hist ! i = WsReceive t \<or> (\<exists>v. hist ! i = WsSend t v)) \<longrightarrow>
          WsAccept \<in> set (take i hist)))"

lemma ws_inv_step:
  assumes "ws_inv (s, hist)" "ws_exec opn s = (s', acts, r)"
  shows "ws_inv (s', hist @ acts)"
proof -
  have "length (filter is_close (hist @ acts)) \<le> (if ws_closed s' then 1 else 0)"
    using assms by (cases opn) (auto simp: ws_inv_def ws_defs split: option.splits sum.splits if_splits)
  moreover have "ws_transport s' \<noteq> None \<longrightarrow> WsAccept \<in> set (hist @ acts)"
    using assms by (cases opn) (auto simp: ws_inv_def ws_defs split: option.splits sum.splits if_splits)
  moreover have "WsAccept \<in> set (take i (hist @ acts))"
    if i: "i < length (hist @ acts)"
      and a: "(hist @ acts) ! i = WsReceive t \<or> (\<exists>v. (hist @ acts) ! i = WsSend t v)" for i t
  proof (cases "i < length hist")
    case True
    with a assms(1) have "WsAccept \<in> set (take i hist)" by (auto simp: ws_inv_def nth_append)
    with True show ?thesis by simp
  next
    case False
    then have "(acts ! (i - length hist)) \<in> set acts" using i by simp
    moreover have "acts ! (i - length hist) = WsReceive t \<or> (\<exists>v. acts ! (i - length hist) = WsSend t v)"
      using False a by (simp add: nth_append)
    ultimately have "ws_transport s \<noteq> None"
      using assms(2) by (cases opn) (auto simp: ws_defs split: option.splits sum.splits if_splits)
    with assms(1) have "WsAccept \<in> set hist" by (simp add: ws_inv_def)
    with False show ?thesis by simp
  qed
  ultimately show ?thesis by (simp add: ws_inv_def) blast
qed

lemma ws_reach_inv: "ws_reach ps st \<Longrightarrow> ws_inv st"
proof (induction rule: ws_reach.induct)
  case init
  then show ?case by (simp add: ws_inv_def ws_new_def)
next
  case (later st st')
  from later.hyps(2) later.IH show ?case by (auto elim!: ws_stepE intro: ws_inv_step)
qed

text \<open>
  C22. A connection is used in order: in every reachable history of the connection object,
  the protocol is asked to close at most once (repeated calls of \<open>close\<close>, and a call after
  the peer has closed, are no-ops), and the transport is never asked to send or to receive
  before the handshake.
\<close>

theorem ws_closes_once:
  assumes "ws_reach ps (s, hist)"
  shows "length (filter is_close hist) \<le> 1
    \<and> (\<forall>i < length hist. (\<exists>t. hist ! i = WsReceive t \<or> (\<exists>v. hist ! i = WsSend t v)) \<longrightarrow>
         WsAccept \<in> set (take i hist))"
  using ws_reach_inv [OF assms] by (auto simp: ws_inv_def split: if_splits)

lemma ws_reach_exec:
  "ws_reach ps (s, hist) \<Longrightarrow> ws_exec opn s = (s', acts, r) \<Longrightarrow> ws_reach ps (s', hist @ acts)"
  by (blast intro: ws_reach.later ws_step.step)

theorem ws_closes_once_witness:
  "\<exists>s hist. ws_reach [] (s, hist) \<and> hist = [WsAccept, WsSend PyNone (PyStr ''x''), WsClose 1001]
    \<and> length (filter is_close hist) \<le> 1"
proof -
  let ?s = "\<lparr>ws_transport = Some PyNone, ws_path_params = [], ws_closed = False\<rparr>"
  have r0: "ws_reach [] (?s, [] @ [WsAccept])"
    by (rule ws_reach_exec [OF ws_reach.init, where opn = "OpAccept (Inr PyNone)"]) (simp add: ws_defs ws_new_def)
  have r1: "ws_reach [] (?s, ([] @ [WsAccept]) @ [WsSend PyNone (PyStr ''x'')])"
    by (rule ws_reach_exec [OF r0, where opn = "OpSend (PyStr ''x'') (Inr ())"]) (simp add: ws_defs)
  have r2: "ws_reach [] (?s\<lparr>ws_closed := True\<rparr>, (([] @ [WsAccept]) @ [WsSend PyNone (PyStr ''x'')]) @ [WsClose 1001])"
    by (rule ws_reach_exec [OF r1, where opn = "OpClose (Some 1001)"]) (simp add: ws_defs)
  have "ws_reach [] (?s\<lparr>ws_closed := True\<rparr>, ((([] @ [WsAccept]) @ [WsSend PyNone (PyStr ''x'')]) @ [WsClose 1001]) @ [])"
    by (rule ws_reach_exec [OF r2, where opn = "OpClose None"]) (simp add: ws_defs)
  from this ws_closes_once [OF this] show ?thesis by auto
qed

section \<open>The registry of open connections\<close>

text \<open>
  \<open>fetch_add\<close> on an \<open>AtomicUsize\<close> wraps. It and the insert under the lock are two steps in
  the code, one here; a number taken by another connection in between is another number.
\<close>

definition ws_register :: "nat \<Rightarrow> 'k app_state \<Rightarrow> u64 \<times> 'k app_state" where
  "ws_register conn st =
     (let i = next_ws_id st
      in (i, st\<lparr>next_ws_id := i + 1, active_websockets := al_put i conn (active_websockets st)\<rparr>))"

definition ws_unregister :: "u64 \<Rightarrow> 'k app_state \<Rightarrow> 'k app_state" where
  "ws_unregister i st = st\<lparr>active_websockets := al_del i (active_websockets st)\<rparr>"

text \<open>The connections that are told to close, with the code, and the state after the drain.\<close>

definition shutdown_websockets :: "int \<Rightarrow> 'k app_state \<Rightarrow> (nat \<times> int) list \<times> 'k app_state" where
  "shutdown_websockets code st =
     (map (\<lambda>(i, conn). (conn, code)) (active_websockets st), st\<lparr>active_websockets := []\<rparr>)"

section \<open>Serving a WebSocket request\<close>

definition close_socket :: "int \<Rightarrow> ('k, unit) io" where
  "close_socket code = iignore (perform (CloseSocket code))"

definition origin_allowed :: "string list \<Rightarrow> string option \<Rightarrow> bool" where
  "origin_allowed origins origin =
     (if list_ex (\<lambda>o1. o1 = ''*'') origins then True
      else case origin of
        Some o1 \<Rightarrow> list_ex (\<lambda>a. eq_ignore_ascii_case a (trim o1)) origins
      | None \<Rightarrow> False)"

definition origin_admitted :: "websocket_route \<Rightarrow> scope \<Rightarrow> bool" where
  "origin_admitted e sc =
     (case ws_allowed_origins e of
        None \<Rightarrow> True
      | Some origins \<Rightarrow> origin_allowed origins (header_of sc ''origin''))"

definition ws_py :: "path_params \<Rightarrow> pyobj" where
  "ws_py ps = PyObject ''WebSocket'' [(''path_params'', path_params_dict (ws_new ps))]"

text \<open>The guard: what runs when the scope is left, by a value, an error or a panic.\<close>

definition ifinally :: "('k, 'a) io \<Rightarrow> ('k app_state \<Rightarrow> 'k app_state) \<Rightarrow> ('k, 'a) io" where
  "ifinally m f = (\<lambda>W c. let (r, c') = m W c in (r, c'\<lparr>app := f (app c')\<rparr>))"

definition call_ws_handler :: "websocket_route \<Rightarrow> path_params \<Rightarrow> ('k, pyobj) io" where
  "call_ws_handler e params =
     icase
       (ibind (perform (Call (Helper ''asyncio.Lock'') PyNone [] [])) (\<lambda>_.
          perform (Call WsHandler (ws_handler e) [ws_py params] [])))
       (\<lambda>err. ithen (close_socket 1011) (ireturn PyNone))
       (\<lambda>res.
          if ws_is_async e
          then icase (perform (IntoFuture res))
                 (\<lambda>err. ithen (close_socket 1011) (ireturn PyNone))
                 (\<lambda>_. icase (perform (Await res))
                    (\<lambda>err. ithen (close_socket 1011) (ireturn PyNone))
                    (\<lambda>_. ireturn PyNone))
          else ireturn PyNone)"

definition register_io :: "nat \<Rightarrow> ('k, u64) io" where
  "register_io conn = ishared (\<lambda>W c. let (i, a) = ws_register conn (app c) in (Ok i, lims c, a))"

definition run_rsgi_websocket :: "'k frozen_state \<Rightarrow> scope \<Rightarrow> nat \<Rightarrow> ('k, pyobj) io" where
  "run_rsgi_websocket snap sc conn =
     ibind (compiled_for snap) (\<lambda>cr.
     ibind (iask (\<lambda>W. lib_matchit (env_libs W))) (\<lambda>M.
       case match_ws_route_compiled M cr (sc_path sc) of
         None \<Rightarrow> ithen (close_socket 1000) (ireturn PyNone)
       | Some (idx, params) \<Rightarrow>
           if idx < length (f_websocket_routes snap)
           then (let e = f_websocket_routes snap ! idx
                 in if origin_admitted e sc
                    then ibind (register_io conn) (\<lambda>i.
                      ifinally (call_ws_handler e params) (ws_unregister i))
                    else ithen (close_socket 1008) (ireturn PyNone))
           else ilift (runtime_error ''ws route index'')))"

end
