(* ===== verification/WebSocketFacts.thy ===== *)
theory WebSocketFacts
  imports WebSocket
begin

text \<open>
  What holds of WebSocket requests: the origin check guards the handler, the registry of
  open connections is exact over any interleaving of openings, closings and shutdowns, and
  a request leaves it as it was.
\<close>

section \<open>The origin check\<close>

definition origin_ok :: "websocket_route \<Rightarrow> scope \<Rightarrow> bool" where
  "origin_ok e sc \<longleftrightarrow> (\<forall>origins. ws_allowed_origins e = Some origins \<longrightarrow> ''*'' \<in> set origins \<or>
     (\<exists>o1 a. header_of sc ''origin'' = Some o1 \<and> a \<in> set origins \<and> eq_ignore_ascii_case a (trim o1)))"

lemma origin_admitted_ok: "origin_admitted e sc \<Longrightarrow> origin_ok e sc"
  by (auto simp: origin_admitted_def origin_ok_def origin_allowed_def list_ex_iff split: option.splits if_splits)

definition ws_guarded :: "'k frozen_state \<Rightarrow> scope \<Rightarrow> action \<Rightarrow> bool" where
  "ws_guarded snap sc a \<longleftrightarrow> (\<forall>h xs kw. a = Call WsHandler h xs kw \<longrightarrow>
     (\<exists>e \<in> set (f_websocket_routes snap). h = ws_handler e \<and> origin_ok e sc))"

lemma only_finally [spec_intros]: "only A m \<Longrightarrow> only A (ifinally m f)"
  unfolding only_def spec_def ifinally_def by (auto simp: split_beta Let_def)

lemma only_compiled_for [spec_intros]: "only A (compiled_for snap)"
  by (auto simp: compiled_for_def intro: only_return only_shared split: option.split)

lemma only_close [spec_intros]: "A (CloseSocket code) \<Longrightarrow> only A (close_socket code)"
  unfolding close_socket_def by (intro only_ignore only_perform)

lemma ws_guarded_other [simp]:
  "ws_guarded snap sc (CloseSocket code)" "ws_guarded snap sc (Call (Helper n) f xs kw)"
  "ws_guarded snap sc (IntoFuture f)" "ws_guarded snap sc (Await f)"
  by (simp_all add: ws_guarded_def)

lemma only_ws_guarded: "only (ws_guarded snap sc) (run_rsgi_websocket snap sc conn)"
proof -
  have "only (ws_guarded snap sc) (call_ws_handler (f_websocket_routes snap ! i) ps)"
    if "i < length (f_websocket_routes snap)" "origin_admitted (f_websocket_routes snap ! i) sc" for i ps
  proof -
    have "ws_guarded snap sc (Call WsHandler (ws_handler (f_websocket_routes snap ! i)) xs kw)" for xs kw
      using that origin_admitted_ok nth_mem [OF that(1)] by (auto simp: ws_guarded_def)
    then show ?thesis
      unfolding call_ws_handler_def
      by (auto intro!: only_case only_bind only_perform only_then only_close only_return)
  qed
  then show ?thesis
    unfolding run_rsgi_websocket_def register_io_def Let_def
    by (auto intro!: only_bind only_compiled_for only_ask only_then only_close only_return only_finally
        only_shared only_lift split: option.split)
qed

text \<open>
  C12. A cross-site page cannot open a protected socket: when a WebSocket request calls a
  handler, it is the handler of a registered WebSocket route, and if that route restricts
  origins, the request carries an \<open>Origin\<close> header that is, trimmed and without regard to
  case, one of them (or the route allows every origin).
\<close>

theorem ws_origin_enforced:
  assumes "(Call WsHandler h xs kw, v) \<in> set (tr (snd (run_rsgi_websocket snap sc conn W c)))"
    and "(Call WsHandler h xs kw, v) \<notin> set (tr c)"
  shows "\<exists>e \<in> set (f_websocket_routes snap). h = ws_handler e \<and>
    (\<forall>origins. ws_allowed_origins e = Some origins \<longrightarrow> ''*'' \<in> set origins \<or>
       (\<exists>o1 a. header_of sc ''origin'' = Some o1 \<and> a \<in> set origins \<and> eq_ignore_ascii_case a (trim o1)))"
  using only_log [OF only_ws_guarded assms(1)] assms(2)
  by (simp add: ws_guarded_def origin_ok_def)

section \<open>The registry\<close>

datatype reg_op = Opened nat | Closed u64 | ShutDown int

fun reg_exec :: "reg_op \<Rightarrow> 'k app_state \<Rightarrow> 'k app_state" where
  "reg_exec (Opened conn) st = snd (ws_register conn st)"
| "reg_exec (Closed i) st = ws_unregister i st"
| "reg_exec (ShutDown code) st = snd (shutdown_websockets code st)"

text \<open>
  The abstract registry, the latest operation first: the \<open>n\<close>-th connection that was opened
  has the number \<open>n\<close>, until it is closed or a shutdown drains the registry.
\<close>

fun opened :: "reg_op list \<Rightarrow> nat" where
  "opened [] = 0"
| "opened (Opened conn # ops) = Suc (opened ops)"
| "opened (_ # ops) = opened ops"

fun holds_conn :: "reg_op list \<Rightarrow> u64 \<Rightarrow> nat option" where
  "holds_conn [] i = None"
| "holds_conn (Opened conn # ops) i = (if unat i = Suc (opened ops) then Some conn else holds_conn ops i)"
| "holds_conn (Closed j # ops) i = (if i = j then None else holds_conn ops i)"
| "holds_conn (ShutDown code # ops) i = None"

lemma next_id: "next_ws_id (foldr reg_exec ops (app_new b)) = of_nat (Suc (opened ops))"
  by (induction ops rule: opened.induct)
    (simp_all add: app_new_def app_state_new_def ws_register_def ws_unregister_def shutdown_websockets_def Let_def)

text \<open>
  C14. The registry of open connections is exact: over any interleaving of connections that
  open, guards that are dropped and shutdowns, as long as fewer than \<open>2^64 - 1\<close>
  connections have been opened, the registry holds under each number the connection that
  was opened with it and that has neither been closed nor drained since. So no connection
  replaces another, a guard removes its own connection only, and a shutdown reaches
  every open connection.
\<close>

theorem ws_registry_exact:
  assumes "opened ops < 2 ^ 64 - 1"
  shows "map_of (active_websockets (foldr reg_exec ops (app_new b))) i = holds_conn ops i"
  using assms
proof (induction ops i rule: holds_conn.induct)
  case (2 conn ops i)
  have id: "next_ws_id (foldr reg_exec ops (app_new b :: 'a app_state)) = of_nat (Suc (opened ops))" by (rule next_id)
  have "unat i = Suc (opened ops) \<longleftrightarrow> i = of_nat (Suc (opened ops))"
  proof
    assume "unat i = Suc (opened ops)"
    moreover have "of_nat (unat i) = i" by simp
    ultimately show "i = of_nat (Suc (opened ops))" by metis
  next
    assume "i = of_nat (Suc (opened ops))"
    then show "unat i = Suc (opened ops)"
      using "2.prems" by (simp only: unat_of_nat) (simp add: take_bit_eq_mod)
  qed
  then show ?case
    using 2 by (auto simp: ws_register_def Let_def id)
qed (auto simp: app_new_def app_state_new_def ws_unregister_def shutdown_websockets_def)

section \<open>A request leaves the registry as it was\<close>

text \<open>What of the shared state a computation keeps.\<close>

definition keeps :: "((nat \<Rightarrow> limiter) \<Rightarrow> 'k app_state \<Rightarrow> 'b) \<Rightarrow> ('k, 'a) io \<Rightarrow> bool" where
  "keeps f m \<longleftrightarrow> (\<forall>W c. f (lims (snd (m W c))) (app (snd (m W c))) = f (lims c) (app c))"

abbreviation keeps_app :: "('k app_state \<Rightarrow> 'b) \<Rightarrow> ('k, 'a) io \<Rightarrow> bool" where
  "keeps_app f \<equiv> keeps (\<lambda>_. f)"

named_theorems keeps_intros \<open>what the combinators keep\<close>

lemma keeps_parts [keeps_intros]:
  "keeps f (ilift r)" "keeps f (ireturn x)" "keeps f (iask g)" "keeps f (iget h)" "keeps f (perform a)"
  by (simp_all add: keeps_def ilift_def ireturn_def iask_def iget_def perform_def Let_def split: sum.split)

lemma keeps_bind [keeps_intros]: "keeps f m \<Longrightarrow> (\<And>x. keeps f (g x)) \<Longrightarrow> keeps f (ibind m g)"
  unfolding keeps_def ibind_def by (simp add: split_beta split: rust.split)

lemma keeps_case [keeps_intros]:
  "keeps f m \<Longrightarrow> (\<And>e. keeps f (h e)) \<Longrightarrow> (\<And>x. keeps f (g x)) \<Longrightarrow> keeps f (icase m h g)"
  unfolding keeps_def icase_def by (simp add: split_beta split: rust.split)

lemma keeps_then [keeps_intros]: "keeps f m \<Longrightarrow> keeps f n \<Longrightarrow> keeps f (ithen m n)"
  unfolding ithen_def by (rule keeps_bind)

lemma keeps_ignore [keeps_intros]: "keeps f m \<Longrightarrow> keeps f (iignore m)"
  unfolding iignore_def by (intro keeps_intros)

lemma keeps_shared:
  "(\<And>W c. f (fst (snd (g W c))) (snd (snd (g W c))) = f (lims c) (app c)) \<Longrightarrow> keeps f (ishared g)"
  by (simp add: keeps_def ishared_def Let_def split_beta)

text \<open>The part of the shared state that counts requests and connections.\<close>

definition serving :: "'k app_state \<Rightarrow> (u64 \<times> nat) list \<times> u64 \<times> u64 \<times> u64" where
  "serving a = (active_websockets a, next_ws_id a, in_flight a, max_concurrency a)"

lemma serving_rebuild [simp]: "serving (rebuild_snapshot a) = serving a" "serving (a\<lparr>compiled := cr\<rparr>) = serving a"
  "serving (a\<lparr>openapi := d\<rparr>) = serving a"
  by (simp_all add: serving_def rebuild_snapshot_def)

lemma keeps_compiled_for [keeps_intros]: "keeps_app serving (compiled_for snap)"
  by (auto simp: compiled_for_def ensure_compiled_snapshot_def
      intro!: keeps_intros keeps_shared split: option.split rust.split prod.split)

lemma keeps_close [keeps_intros]: "keeps f (close_socket code)"
  unfolding close_socket_def by (intro keeps_intros)

lemma keeps_ws_handler: "keeps f (call_ws_handler e ps)"
  unfolding call_ws_handler_def by (auto intro!: keeps_intros)

lemma al_del_put: "i \<notin> fst ` set m \<Longrightarrow> al_del i (al_put i v m) = m"
proof (induction m)
  case (Cons x m)
  then show ?case by (cases x) auto
qed simp

definition counts :: "'k app_state \<Rightarrow> u64 \<times> u64" where
  "counts a = (in_flight a, max_concurrency a)"

lemma keeps_counts: "keeps_app serving m \<Longrightarrow> keeps_app counts m"
  by (simp add: keeps_def serving_def counts_def)

lemma keeps_counts_finally:
  "keeps_app counts m \<Longrightarrow> (\<And>a. counts (f a) = counts a) \<Longrightarrow> keeps_app counts (ifinally m f)"
  unfolding keeps_def ifinally_def by (auto simp: Let_def split_beta)

lemma keeps_counts_websocket: "keeps_app counts (run_rsgi_websocket snap sc conn)"
  unfolding run_rsgi_websocket_def register_io_def Let_def
  by (auto intro!: keeps_intros keeps_counts [OF keeps_compiled_for] keeps_counts_finally keeps_ws_handler keeps_shared
      simp: counts_def ws_register_def ws_unregister_def Let_def split: option.split)

text \<open>
  C21. A WebSocket request leaves the registry as it found it: whatever the handler does,
  returns or raises, the registry of open connections after the request is the one before
  it, if the next number is not in use. (This is of one request by itself: what other
  requests or the handler do to the \<open>App\<close> meanwhile is C14's matter.)
\<close>

theorem ws_request_leaves_registry:
  assumes "next_ws_id (app c) \<notin> fst ` set (active_websockets (app c))"
  shows "active_websockets (app (snd (run_rsgi_websocket snap sc conn W c))) = active_websockets (app c)"
proof -
  have cr: "serving (app c1) = serving (app c)" if "compiled_for snap W c = (r, c1)" for r c1
    using keeps_compiled_for [of snap] that unfolding keeps_def by (metis snd_conv)
  have guard: "active_websockets (app (snd (ibind (register_io conn) (\<lambda>i.
      ifinally (call_ws_handler e ps) (ws_unregister i)) W c1))) = active_websockets (app c)"
    if "serving (app c1) = serving (app c)" for e ps c1
  proof -
    let ?c2 = "c1\<lparr>lims := lims c1, app := snd (ws_register conn (app c1))\<rparr>"
    have "active_websockets (app (snd (call_ws_handler e ps W ?c2))) = active_websockets (app ?c2)"
      using keeps_ws_handler [of "\<lambda>_. active_websockets" e ps] unfolding keeps_def by blast
    then show ?thesis
      using that assms
      by (auto simp: ibind_def register_io_def ishared_def ifinally_def ws_register_def ws_unregister_def
          Let_def serving_def al_del_put split: prod.splits)
  qed
  have close: "active_websockets (app (snd (ithen (close_socket code) (ireturn PyNone) W c1))) = active_websockets (app c)"
    if "serving (app c1) = serving (app c)" for code c1
  proof -
    have k: "keeps_app active_websockets (ithen (close_socket code) (ireturn PyNone :: ('a, pyobj) io))"
      by (intro keeps_intros)
    have "active_websockets (app (snd (ithen (close_socket code) (ireturn PyNone) W c1))) = active_websockets (app c1)"
      by (rule k [unfolded keeps_def, rule_format])
    with that show ?thesis by (simp add: serving_def)
  qed
  let ?tail = "\<lambda>cr. ibind (iask (\<lambda>W. lib_matchit (env_libs W))) (\<lambda>M.
       case match_ws_route_compiled M cr (sc_path sc) of
         None \<Rightarrow> ithen (close_socket 1000) (ireturn PyNone)
       | Some (idx, params) \<Rightarrow>
           if idx < length (f_websocket_routes snap)
           then (let e = f_websocket_routes snap ! idx
                 in if origin_admitted e sc
                    then ibind (register_io conn) (\<lambda>i.
                      ifinally (call_ws_handler e params) (ws_unregister i))
                    else ithen (close_socket 1008) (ireturn PyNone))
           else ilift (runtime_error ''ws route index''))"
  have tail: "active_websockets (app (snd (?tail cr W c1))) = active_websockets (app c)"
    if "serving (app c1) = serving (app c)" for cr c1
    using guard [OF that] close [OF that] that
    by (simp add: Let_def ilift_def serving_def split: option.split)
  obtain r c1 where rc: "compiled_for snap W c = (r, c1)" by fastforce
  have eq: "run_rsgi_websocket snap sc conn = ibind (compiled_for snap) ?tail"
    unfolding run_rsgi_websocket_def ..
  show ?thesis
  proof (cases r)
    case (Ok cr1)
    then have "ibind (compiled_for snap) ?tail W c = ?tail cr1 W c1" using rc by (simp add: ibind_def)
    then show ?thesis unfolding eq using tail [OF cr [OF rc]] by simp
  qed (use rc cr [OF rc] in \<open>simp_all add: eq ibind_def [of "compiled_for snap"] serving_def\<close>)
qed

section \<open>Concrete inputs\<close>

definition sample_ws :: websocket_route where
  "sample_ws = \<lparr>ws_handler = PyStr ''chat'', ws_is_async = False, ws_allowed_origins = Some [''http://a'']\<rparr>"

definition sample_ws_snapshot :: "string frozen_state" where
  "sample_ws_snapshot = (snapshot app_state_new)\<lparr>f_websocket_routes := [sample_ws],
     f_compiled := Some \<lparr>c_get = [], c_post = [], c_put = [], c_patch = [], c_delete = [], c_options = [],
       c_websocket = [(''/s'', 0)], c_all_paths = []\<rparr>\<rparr>"

lemma sample_ws_match:
  "match_ws_route_compiled sample_matchit \<lparr>c_get = [], c_post = [], c_put = [], c_patch = [], c_delete = [],
     c_options = [], c_websocket = [(''/s'', 0)], c_all_paths = []\<rparr> ''/s'' = Some (0, [])"
  by (simp add: match_ws_route_compiled_def router_at_def sample_matchit_def)

lemma sample_ws_admitted:
  "origin_admitted sample_ws (sample_post [(PyStr ''origin'', PyStr '' http://A '')])"
  "\<not> origin_admitted sample_ws (sample_post [(PyStr ''origin'', PyStr ''http://b'')])"
proof -
  have "header_of (sample_post [(PyStr ''origin'', PyStr s)]) ''origin'' = (if s = [] then None else Some s)" for s
    by (simp add: header_of_def header_get_lax_def nonempty_str_def sample_post_def)
  moreover have "eq_ignore_ascii_case ''http://a'' (trim '' http://A '')" "\<not> eq_ignore_ascii_case ''http://a'' (trim ''http://b'')"
    by code_simp+
  ultimately show "origin_admitted sample_ws (sample_post [(PyStr ''origin'', PyStr '' http://A '')])"
    "\<not> origin_admitted sample_ws (sample_post [(PyStr ''origin'', PyStr ''http://b'')])"
    by (simp_all add: origin_admitted_def origin_allowed_def sample_ws_def)
qed

lemma sample_ws_run:
  "run_rsgi_websocket sample_ws_snapshot (sample_post [(PyStr ''origin'', PyStr '' http://A '')]) 7 sample_env c =
    ibind (register_io 7) (\<lambda>i. ifinally (call_ws_handler sample_ws []) (ws_unregister i)) sample_env c"
proof -
  have "lib_matchit (env_libs sample_env) = sample_matchit" by (simp add: sample_env_def sample_env_libs_def)
  moreover have "sc_path (sample_post hs) = ''/s''" for hs by (simp add: sample_post_def)
  ultimately show ?thesis
    using sample_ws_admitted(1) sample_ws_match
    by (simp add: run_rsgi_websocket_def compiled_for_def sample_ws_snapshot_def ireturn_def ilift_def ibind_def
        iask_def Let_def)
qed

theorem ws_origin_enforced_witness:
  "\<exists>v. (Call WsHandler (PyStr ''chat'') [ws_py []] [], v) \<in> set (tr (snd (run_rsgi_websocket sample_ws_snapshot
      (sample_post [(PyStr ''origin'', PyStr '' http://A '')]) 7 sample_env sample_ctx)))
    \<and> (\<exists>e \<in> set (f_websocket_routes sample_ws_snapshot). ws_handler e = PyStr ''chat'')"
proof -
  have run: "(Call WsHandler (PyStr ''chat'') [ws_py []] [], Inr PyNone) \<in> set (tr (snd (run_rsgi_websocket
      sample_ws_snapshot (sample_post [(PyStr ''origin'', PyStr '' http://A '')]) 7 sample_env sample_ctx)))"
    unfolding sample_ws_run
    by (simp add: register_io_def ifinally_def call_ws_handler_def run_simps sample_fields sample_ws_def split_beta)
  from ws_origin_enforced [OF run] run show ?thesis by (auto simp: sample_fields)
qed

theorem ws_registry_exact_witness:
  "map_of (active_websockets (foldr reg_exec [Closed 1, Opened 8, Opened 7] (app_new True))) 1 = None
   \<and> map_of (active_websockets (foldr reg_exec [Closed 1, Opened 8, Opened 7] (app_new True))) 2 = Some 8"
  using ws_registry_exact [of "[Closed 1, Opened 8, Opened 7]" True 1]
    ws_registry_exact [of "[Closed 1, Opened 8, Opened 7]" True 2] by simp

theorem ws_request_leaves_registry_witness:
  "active_websockets (app (snd (run_rsgi_websocket sample_ws_snapshot
      (sample_post [(PyStr ''origin'', PyStr '' http://A '')]) 7 sample_env (sample_ctx\<lparr>app := app_new True\<rparr>)))) = []"
proof -
  let ?c = "sample_ctx\<lparr>app := app_new True :: string app_state\<rparr>"
  have "active_websockets (app ?c) = []" by (simp add: app_new_def app_state_new_def)
  moreover have "next_ws_id (app ?c) \<notin> fst ` set (active_websockets (app ?c))"
    by (simp add: app_new_def app_state_new_def)
  ultimately show ?thesis
    using ws_request_leaves_registry [of ?c sample_ws_snapshot
      "sample_post [(PyStr ''origin'', PyStr '' http://A '')]" 7 sample_env] by simp
qed

end
