(* ===== verification/Server.thy ===== *)
theory Server
  imports FastPath WebSocketFacts
begin

text \<open>
  \<open>App::handle_rsgi\<close> of \<open>src/src/lib.rs\<close>: the concurrency gate, the short circuit, the
  asynchronous path and the guard that gives the slot back. The whole request, from the
  server's call to the response.
\<close>

section \<open>The gate\<close>

definition set_max_concurrency :: "u64 \<Rightarrow> 'k app_state \<Rightarrow> 'k app_state" where
  "set_max_concurrency n st = st\<lparr>max_concurrency := n\<rparr>"

definition get_max_concurrency :: "'k app_state \<Rightarrow> u64" where
  "get_max_concurrency st = max_concurrency st"

definition get_in_flight :: "'k app_state \<Rightarrow> u64" where
  "get_in_flight st = in_flight st"

text \<open>\<open>fetch_add\<close> and the test of the old value; a refused request takes its count back.\<close>

definition gate_enter :: "'k app_state \<Rightarrow> bool \<times> 'k app_state" where
  "gate_enter st =
     (let max_c = max_concurrency st; cur = in_flight st; st1 = st\<lparr>in_flight := cur + 1\<rparr>
      in if 0 < max_c \<and> max_c \<le> cur then (False, st1\<lparr>in_flight := in_flight st1 - 1\<rparr>)
         else (True, st1))"

text \<open>\<open>InFlightGuard::drop\<close>\<close>

definition gate_leave :: "'k app_state \<Rightarrow> 'k app_state" where
  "gate_leave st = st\<lparr>in_flight := in_flight st - 1\<rparr>"

definition enter_io :: "('k, bool) io" where
  "enter_io = ishared (\<lambda>W c. let (ok, a) = gate_enter (app c) in (Ok ok, lims c, a))"

definition too_many_requests :: "('k, pyobj) io" where
  "too_many_requests =
     ibind (send_with_headers_sync 503 ''Service Unavailable: Concurrency Limit Exceeded''
       [(''content-type'', ct_text), (''retry-after'', ''1'')]) (\<lambda>_. ireturn PyNone)"

section \<open>A request\<close>

definition run_rsgi :: "'k frozen_state \<Rightarrow> scope \<Rightarrow> nat \<Rightarrow> ('k, pyobj) io" where
  "run_rsgi snap sc conn =
     (if sc_proto sc = ''websocket'' then run_rsgi_websocket snap sc conn
      else if sc_proto sc \<noteq> ''http'' then ireturn PyNone
      else run_rsgi_http snap sc)"

definition serve :: "scope \<Rightarrow> nat \<Rightarrow> ('k, pyobj) io" where
  "serve sc conn =
     ibind (iget (\<lambda>c. hot_snapshot (app c))) (\<lambda>snap.
     ibind (try_rsgi_sync_short_circuit snap sc) (\<lambda>r.
       case r of Some v \<Rightarrow> ireturn v | None \<Rightarrow> run_rsgi snap sc conn))"

definition handle_rsgi :: "scope \<Rightarrow> nat \<Rightarrow> ('k, pyobj) io" where
  "handle_rsgi sc conn =
     ibind enter_io (\<lambda>ok. if ok then ifinally (serve sc conn) gate_leave else too_many_requests)"

section \<open>What is kept while a request is served\<close>

lemma keeps_run: "keeps f m \<Longrightarrow> f (lims (snd (m W c))) (app (snd (m W c))) = f (lims c) (app c)"
  by (simp add: keeps_def)

lemma keeps_senders [keeps_intros]:
  "keeps f (respond rp)" "keeps f (send_text st t ct)" "keeps f (send_text_sync st t ct)"
  "keeps f (send_with_headers st b hs)" "keeps f (send_with_headers_sync st b hs)"
  "keeps f (send_429_rate_limited l r)" "keeps f (send_405_method_not_allowed m)"
  "keeps f (send_405_method_not_allowed_sync m)" "keeps f (send_head_simple st len ct)"
  "keeps f (send_head_simple_sync st len ct)" "keeps f (send_str st t ct)" "keeps f (send_str_sync st t ct)"
  "keeps f (send_handler_map_inline h m')" "keeps f payload_too_large" "keeps f unauthorized"
  by (auto simp: sender_defs respond_def then_none_def payload_too_large_def unauthorized_def Let_def
      send_handler_map_inline_def send_simple_body_sync_def
      intro!: keeps_intros split: handler_map.split simple_body.split)

lemma keeps_values [keeps_intros]:
  "keeps f (py_to_json_bytes_or_fallback b)" "keeps f (py_str b)" "keeps f (python_pairs cfg)"
  "keeps f (set_template t)"
  by (auto simp: py_to_json_bytes_or_fallback_def json_dumps_bytes_def py_str_def python_pairs_def set_template_def
      intro!: keeps_intros split: rust.split pyobj.split)

lemma keeps_structured [keeps_intros]: "keeps f (structured_from_status_body st b h c)"
  by (auto simp: structured_from_status_body_def value_to_bytes_and_ct_def json_body_def
      intro!: keeps_intros split: pyobj.split option.split)

lemma keeps_map [keeps_intros]: "keeps f (map_handler_return out)"
  by (auto simp: map_handler_return_def map_dict_return_def json_reply_def Let_def
      structured_from_response_attrs_def intro!: keeps_intros split: pyobj.split option.split)

lemma keeps_merge [keeps_intros]: "keeps f (merge_config_response_headers snap sc m)"
  by (auto simp: merge_config_response_headers_def merge_security_def merge_cors_def
      intro!: keeps_intros split: option.split)

lemma keeps_middleware [keeps_intros]: "keeps f (run_response_middleware cls mws m)"
proof (induction mws arbitrary: m)
  case (Cons mw mws)
  have "keeps f (if b then ireturn AlreadySent else run_response_middleware cls mws m')" for b m'
    using Cons by (simp add: keeps_parts)
  then show ?case
    unfolding run_response_middleware.simps by (intro keeps_bind keeps_parts keeps_map)
qed (simp add: keeps_parts)

lemma keeps_finish [keeps_intros]: "keeps f (finish_response snap sc h out)"
  by (auto simp: finish_response_def apply_response_middleware_def intro!: keeps_intros)

lemma keeps_instance [keeps_intros]: "keeps f (instance_of err cls)"
  by (auto simp: instance_of_def intro!: keeps_intros)

lemma keeps_if: "(b \<Longrightarrow> keeps f m) \<Longrightarrow> (\<not> b \<Longrightarrow> keeps f n) \<Longrightarrow> keeps f (if b then m else n)"
  by simp

lemma keeps_handlers [keeps_intros]: "keeps f (call_handlers err hs)"
proof (induction hs)
  case (Cons x hs)
  obtain cls h asy where x: "x = (cls, h, asy)" by (cases x)
  show ?case
    unfolding x call_handlers.simps
    by (intro keeps_bind keeps_instance keeps_if keeps_case keeps_parts Cons)
qed (simp add: keeps_parts)

lemma keeps_sync_handlers:
  assumes "keeps f m"
  shows "keeps f (sync_handlers b err hs m)"
proof (induction hs)
  case (Cons x hs)
  obtain cls h asy where x: "x = (cls, h, asy)" by (cases x)
  show ?case
    unfolding x sync_handlers.simps
    by (intro keeps_bind keeps_instance keeps_if keeps_case keeps_parts keeps_map keeps_senders Cons)
qed (simp add: assms)

lemma keeps_http_errors [keeps_intros]:
  "keeps f (try_http_exception err)" "keeps f (try_http_exception_sync err)"
  "keeps f (send_internal_error err)" "keeps f (send_internal_error_sync err)"
  by (auto simp: try_http_exception_def try_http_exception_sync_def http_exception_payload_def
      send_internal_error_def send_internal_error_sync_def internal_error_body_def
      intro!: keeps_intros split: option.split)

lemma keeps_fail [keeps_intros]: "keeps f (fail_with snap sc e)" "keeps f (send_python_error_sync s h e)"
  by (auto simp: fail_with_def send_python_error_def send_python_error_sync_def send_handled_def Let_def
      intro!: keeps_intros keeps_sync_handlers split: option.split)

lemma keeps_response [keeps_intros]: "keeps f (response_stage snap sc out)"
  by (auto simp: response_stage_def intro!: keeps_intros)

lemma keeps_shared_parts [keeps_intros]: "keeps_app serving served_doc"
  "keeps_app g (check_limiter idx key)" "keeps f (run_query p q)"
  by (auto simp: served_doc_def check_limiter_def run_query_def app_openapi_json_def
      intro!: keeps_intros keeps_shared split: prod.split)

lemma keeps_args [keeps_intros]: "keeps f (handler_args sc entry rd)"
  by (auto simp: handler_args_def json_args_def model_result_def has_attr_def validation_text_def Let_def
      intro!: keeps_intros split: option.split rust.split)

lemma keeps_dependencies: "(\<And>prev. keeps f (k prev)) \<Longrightarrow> keeps f (dependency_stage snap sc ctx deps prev k)"
  by (induction deps arbitrary: prev)
    (auto simp: resolve_dependency_def intro!: keeps_intros split: option.split)

lemma keeps_stages:
  "(\<And>out. keeps f (k1 out)) \<Longrightarrow> keeps f (call_stage snap sc entry rd k1)"
  "(\<And>ctx. keeps f (k2 ctx)) \<Longrightarrow> keeps f (context_stage snap sc entry k2)"
  "(\<And>fd. keeps f (k3 fd)) \<Longrightarrow> keeps f (form_stage snap sc entry b k3)"
  "(\<And>cl. keeps f (k4 cl)) \<Longrightarrow> keeps f (jwt_stage sc entry k4)"
  "(\<And>b o1. keeps f (k5 b o1)) \<Longrightarrow> keeps f (body_stage sc entry k5)"
  "keeps_app g k6 \<Longrightarrow> keeps_app g (rate_stage sc idx entry k6)"
  by (auto simp: call_stage_def context_stage_def build_request_context_def form_stage_def jwt_stage_def
      body_stage_def read_stage_def rate_stage_def Let_def
      intro!: keeps_intros split: arg_result.split option.split rust.split rl_decision.split prod.split)

lemma keeps_run_route: "keeps_app g (run_route snap sc idx entry params)"
  unfolding run_route_def Let_def by (intro keeps_stages keeps_bind keeps_parts keeps_dependencies keeps_response)

lemma keeps_middleware_stage: "keeps f k \<Longrightarrow> keeps f (middleware_stage snap sc mws k)"
  by (induction mws) (auto intro!: keeps_intros)

lemma keeps_run_rsgi_http: "keeps_app serving (run_rsgi_http snap sc)"
proof -
  have route: "keeps_app serving (route_stage snap sc (run_route snap sc))"
    unfolding route_stage_def Let_def by (auto intro!: keeps_intros keeps_run_route split: option.split)
  show ?thesis
    unfolding run_rsgi_http_def openapi_stage_def preflight_stage_def
    by (auto intro!: keeps_intros keeps_middleware_stage route split: option.split rust.split)
qed

lemma keeps_short_circuit: "keeps_app serving (try_rsgi_sync_short_circuit snap sc)"
  unfolding try_rsgi_sync_short_circuit_def run_trivial_sync_route_def Let_def
  by (auto intro!: keeps_intros split: option.split rust.split)

lemma keeps_serve: "keeps_app counts (serve sc conn)"
  unfolding serve_def run_rsgi_def
  by (auto intro!: keeps_bind keeps_parts keeps_counts_websocket keeps_counts [OF keeps_short_circuit]
      keeps_counts [OF keeps_run_rsgi_http] split: option.split)

text \<open>
  C13. Every request gives its slot back: whether it is refused, answered by the short
  circuit or by the asynchronous path, over HTTP or as a WebSocket, and whether the code
  returns, raises or panics, the count of requests in flight after it is the one before
  it, and the limit is unchanged. (This is of one request by itself: the counter under concurrent
  requests is the gate's, C5.)
\<close>

theorem slot_given_back:
  "in_flight (app (snd (handle_rsgi sc conn W c))) = in_flight (app c)
   \<and> max_concurrency (app (snd (handle_rsgi sc conn W c))) = max_concurrency (app c)"
proof -
  obtain ok a where e: "gate_enter (app c) = (ok, a)" by fastforce
  let ?c1 = "c\<lparr>lims := lims c, app := a\<rparr>"
  have enter: "handle_rsgi sc conn W c =
      (if ok then ifinally (serve sc conn) gate_leave else too_many_requests) W ?c1"
    by (simp add: handle_rsgi_def enter_io_def ibind_def ishared_def e)
  show ?thesis
  proof (cases ok)
    case True
    have "counts (app (snd (serve sc conn W ?c1))) = counts a" using keeps_run [OF keeps_serve, of sc conn W ?c1] by simp
    then show ?thesis
      using e True unfolding enter
      by (auto simp: ifinally_def split_beta Let_def gate_leave_def gate_enter_def counts_def split: if_splits)
  next
    case False
    have "keeps_app counts (too_many_requests :: ('a, pyobj) io)"
      unfolding too_many_requests_def by (intro keeps_intros)
    from keeps_run [OF this, of W ?c1] show ?thesis
      using e False unfolding enter by (auto simp: gate_enter_def counts_def Let_def split: if_splits)
  qed
qed

end
