(* ===== verification/Answered.thy ===== *)
theory Answered
  imports Server
begin

text \<open>
  An HTTP request is answered exactly once from the server's call on: by the gate, by the
  synchronous short circuit or by the asynchronous path, and never by two of them.
\<close>

section \<open>An attempt that may give up\<close>

text \<open>An attempt settles the request, or it gives up with no response given.\<close>

definition tries :: "bool \<Rightarrow> ('k, 'a option) io \<Rightarrow> bool" where
  "tries S m \<longleftrightarrow> spec m (\<lambda>r n. settled S r n \<and> r \<noteq> Ok None \<or> r = Ok None \<and> responses n = 0)"

named_theorems tries_intros \<open>attempts\<close>

lemma tries_give_up [tries_intros]: "tries S (ireturn None)"
  by (simp add: tries_def spec_return)

lemma tries_fail [tries_intros]: "tries S (ilift (Err e))" "tries S (ilift (Panic s))"
  by (simp_all add: tries_def spec_lift)

lemma tries_answer [tries_intros]:
  fixes m :: "('k, 'b) io"
  assumes "settles S m"
  shows "tries S (ibind m (\<lambda>_. ireturn (Some v)))"
  unfolding tries_def
  by (rule spec_bind [OF assms [unfolded settles_def]]) (auto intro!: spec_return simp: settled_def)

lemma tries_silent_bind [tries_intros]:
  assumes "silent m" "\<And>x. tries S (f x)"
  shows "tries S (ibind m f)"
  unfolding tries_def
proof (rule spec_bind [OF silent_spec [OF assms(1)]])
  fix x n assume "responses n = 0"
  then show "spec (f x) (\<lambda>r n'. settled S r (n @ n') \<and> r \<noteq> Ok None \<or> r = Ok None \<and> responses (n @ n') = 0)"
    using assms(2) [of x] unfolding tries_def by (elim spec_mono) (auto elim!: settled_after)
qed simp_all

lemma tries_silent_then [tries_intros]: "silent m \<Longrightarrow> tries S n \<Longrightarrow> tries S (ithen m n)"
  unfolding ithen_def by (rule tries_silent_bind)

text \<open>The rest settles the request where the attempt has given up.\<close>

lemma settles_tries:
  fixes m :: "('k, 'a option) io"
  assumes m: "tries S m" and n: "settles S n"
  shows "settles S (ibind m (\<lambda>r. case r of Some v \<Rightarrow> ireturn v | None \<Rightarrow> n))"
  unfolding settles_def
proof (rule spec_bind [OF m [unfolded tries_def]])
  fix x :: "'a option" and k
  assume k: "settled S (Ok x) k \<and> Ok x \<noteq> Ok None \<or> Ok x = Ok None \<and> responses k = 0"
  show "spec (case x of Some v \<Rightarrow> ireturn v | None \<Rightarrow> n) (\<lambda>r n'. settled S r (k @ n'))"
  proof (cases x)
    case None
    with k n show ?thesis unfolding settles_def by (auto elim!: spec_mono settled_after)
  next
    case (Some y)
    with k show ?thesis by (auto intro!: spec_return simp: settled_def)
  qed
qed auto

lemma settles_finally: "settles S m \<Longrightarrow> settles S (ifinally m f)"
  unfolding settles_def spec_def ifinally_def by (auto simp: split_beta Let_def)

section \<open>The short circuit\<close>

lemma settles_sync_senders:
  "settles S (send_str_sync st t ct)" "settles S (send_head_simple_sync st len ct)"
  "settles S (send_405_method_not_allowed_sync m)"
  by (auto simp: send_str_sync_def intro!: settles_respond_unit sender_settles)

lemma settles_trivial: "settles S (run_trivial_sync_route snap sc entry params)"
  unfolding run_trivial_sync_route_def Let_def
  by (rule settles_silent_then [OF silent_set_template], rule settles_call_case, simp,
      rule settles_python_error_sync,
      rule settles_yields_case [OF silent_map_handler map_handler_sentinel], rule settles_python_error_sync,
      rule settles_yields_case [OF silent_merges merge_config_sent], rule settles_python_error_sync,
      rule settles_retry, rule settles_send_mapped, simp, rule settles_python_error_sync)

lemma tries_if: "(b \<Longrightarrow> tries S m) \<Longrightarrow> (\<not> b \<Longrightarrow> tries S n) \<Longrightarrow> tries S (if b then m else n)"
  by simp

lemma tries_short_circuit:
  assumes "sc_proto sc = ''http''"
  shows "tries S (try_rsgi_sync_short_circuit snap sc)"
  using assms unfolding try_rsgi_sync_short_circuit_def Let_def
  by (auto intro!: tries_intros silent_intros silent_set_template silent_shared_parts sender_settles
      settles_sync_senders settles_trivial split: option.split rust.split)

lemma settles_serve: "sc_proto sc = ''http'' \<Longrightarrow> settles S (serve sc conn)"
  unfolding serve_def run_rsgi_def
  by (auto intro!: settles_silent_bind silent_intros settles_tries tries_short_circuit settles_run_rsgi_http)

lemma settles_refused: "settles S too_many_requests"
  unfolding too_many_requests_def by (intro settles_map sender_settles)

lemma settles_handle_rsgi: "sc_proto sc = ''http'' \<Longrightarrow> settles S (handle_rsgi sc conn)"
  unfolding handle_rsgi_def enter_io_def
  by (auto intro!: settles_silent_bind silent_intros settles_finally settles_serve settles_refused)

text \<open>
  C1. Every HTTP request is answered exactly once: when the server's call returns, the
  protocol object has taken exactly one response, or none because a callable has returned
  the stream sentinel (it has written the response itself); when the call raises or
  panics, none. The gate, the short circuit and the asynchronous path never answer the
  same request twice, and no request that returns is left without an answer, for every
  handler, dependency, middleware and exception handler, whatever they return or raise,
  and also when a response call itself raises.
\<close>

theorem request_answered_once:
  assumes "sc_proto sc = ''http''"
  shows "\<exists>new. tr (snd (handle_rsgi sc conn W c)) = tr c @ new
    \<and> (case fst (handle_rsgi sc conn W c) of
         Ok _ \<Rightarrow> responses new = 1 \<or> responses new = 0 \<and> list_ex sentinel new
       | _ \<Rightarrow> responses new = 0)"
  using settles_run [OF settles_handle_rsgi [OF assms, of False]] by (simp cong: rust.case_cong)

text \<open>A request that the gate refuses: one response, with status 503.\<close>

definition sample_busy :: "string ctx" where
  "sample_busy = sample_ctx\<lparr>app := (app_new True)\<lparr>max_concurrency := 1, in_flight := 1\<rparr>\<rparr>"

theorem request_answered_once_witness:
  "responses (tr (snd (handle_rsgi sample_scope 0 sample_env sample_busy))) = 1
   \<and> (\<exists>rp. tr (snd (handle_rsgi sample_scope 0 sample_env sample_busy)) = [(Respond rp, Inr PyNone)] \<and> rp_status rp = 503)"
proof -
  have run: "\<exists>rp. handle_rsgi sample_scope 0 sample_env sample_busy = (Ok PyNone, snd (handle_rsgi sample_scope 0 sample_env sample_busy))
     \<and> tr (snd (handle_rsgi sample_scope 0 sample_env sample_busy)) = [(Respond rp, Inr PyNone)] \<and> rp_status rp = 503"
    by (simp add: handle_rsgi_def enter_io_def gate_enter_def too_many_requests_def sender_defs run_simps
        sample_busy_def sample_fields)
  then obtain rp where r: "fst (handle_rsgi sample_scope 0 sample_env sample_busy) = Ok PyNone"
    "tr (snd (handle_rsgi sample_scope 0 sample_env sample_busy)) = [(Respond rp, Inr PyNone)]" "rp_status rp = 503"
    by (metis fst_conv)
  have "sc_proto sample_scope = ''http''" by (simp add: sample_scope_def)
  from request_answered_once [OF this, of 0 sample_env sample_busy]
  obtain new where "tr (snd (handle_rsgi sample_scope 0 sample_env sample_busy)) = tr sample_busy @ new"
    "responses new = 1 \<or> responses new = 0 \<and> list_ex sentinel new"
    by (auto simp: r(1))
  moreover have "tr sample_busy = []" by (simp add: sample_busy_def sample_fields)
  ultimately show ?thesis using r by (auto split: sum.splits)
qed

end
