(* ===== verification/Gate.thy ===== *)
theory Gate
  imports Server
begin

text \<open>
  The concurrency gate of \<open>App::handle_rsgi\<close> under concurrent requests. The code makes three
  accesses to shared counters per request, each of them atomic: the load of the limit, the
  \<open>fetch_add\<close> of the count of requests in flight, and the \<open>fetch_sub\<close> of a refused
  request or of the guard. Requests of several threads interleave between these accesses
  in any order, and \<open>set_max_concurrency\<close> may come at any moment.
\<close>

section \<open>Requests at the gate\<close>

text \<open>
  Where a request is: it has not read the limit; it has read \<open>m\<close>; it holds a count and is
  about to give it back because it was refused; it holds one while it is served; it is over.
\<close>

datatype phase = Arriving | Loaded u64 | Refusing | Running u64 | Refused | Finished

text \<open>The next atomic access of a request: the new count and where the request is then.\<close>

fun phase_step :: "u64 \<Rightarrow> u64 \<Rightarrow> phase \<Rightarrow> u64 \<times> phase" where
  "phase_step limit cur Arriving = (cur, Loaded limit)"
| "phase_step limit cur (Loaded m) =
     (cur + 1, if 0 < m \<and> m \<le> cur then Refusing else Running m)"
| "phase_step limit cur Refusing = (cur - 1, Refused)"
| "phase_step limit cur (Running m) = (cur - 1, Finished)"
| "phase_step limit cur Refused = (cur, Refused)"
| "phase_step limit cur Finished = (cur, Finished)"

text \<open>One request alone goes through the gate as \<open>gate_enter\<close> and \<open>gate_leave\<close> say.\<close>

lemma gate_enter_phases:
  assumes "gate_enter st = (ok, st')" "phase_step (max_concurrency st) (in_flight st) Arriving = (c0, p0)"
    and "phase_step (max_concurrency st) c0 p0 = (c1, p1)"
  shows "if ok then p1 = Running (max_concurrency st) \<and> in_flight st' = c1
      \<and> phase_step l c1 p1 = (in_flight (gate_leave st'), Finished)
    else p1 = Refusing \<and> phase_step l c1 p1 = (in_flight st', Refused)"
  using assms by (auto simp: gate_enter_def gate_leave_def Let_def split: if_splits)

record gate =
  g_limit :: u64
  g_count :: u64
  g_reqs :: "phase list"

inductive gate_step :: "gate \<Rightarrow> gate \<Rightarrow> bool" where
  arrive: "gate_step g (g\<lparr>g_reqs := g_reqs g @ [Arriving]\<rparr>)"
| limit: "gate_step g (g\<lparr>g_limit := l\<rparr>)"
| access: "i < length (g_reqs g) \<Longrightarrow> phase_step (g_limit g) (g_count g) (g_reqs g ! i) = (c, p)
    \<Longrightarrow> gate_step g (g\<lparr>g_count := c, g_reqs := (g_reqs g)[i := p]\<rparr>)"

text \<open>What a fresh application can come to.\<close>

inductive gate_reach :: "gate \<Rightarrow> bool" where
  start: "gate_reach \<lparr>g_limit = 0, g_count = 0, g_reqs = []\<rparr>"
| later: "gate_reach g \<Longrightarrow> gate_step g g' \<Longrightarrow> gate_reach g'"

section \<open>Counting\<close>

fun counted :: "phase \<Rightarrow> bool" where
  "counted Refusing = True" | "counted (Running m) = True" | "counted p = False"

text \<open>Served after it was admitted under a limit between 1 and \<open>M\<close>.\<close>

fun admitted :: "u64 \<Rightarrow> phase \<Rightarrow> bool" where
  "admitted M (Running m) \<longleftrightarrow> 0 < m \<and> m \<le> M"
| "admitted M p = False"

definition number :: "('a \<Rightarrow> bool) \<Rightarrow> 'a list \<Rightarrow> nat" where
  "number P xs = length (filter P xs)"

lemma number_simps [simp]: "number P [] = 0" "number P (xs @ [x]) = number P xs + of_bool (P x)"
  by (simp_all add: number_def)

lemma number_le: "number P xs \<le> length xs"
  by (simp add: number_def)

lemma number_mono: "(\<And>x. P x \<Longrightarrow> Q x) \<Longrightarrow> number P xs \<le> number Q xs"
  by (induction xs) (auto simp: number_def)

lemma number_update:
  "i < length xs \<Longrightarrow> number P (xs[i := x]) + of_bool (P (xs ! i)) = number P xs + of_bool (P x)"
proof (induction xs arbitrary: i)
  case (Cons y xs)
  then show ?case by (cases i) (fastforce simp: number_def)+
qed simp

lemma number_pos: "i < length xs \<Longrightarrow> P (xs ! i) \<Longrightarrow> 0 < number P xs"
  by (auto simp: number_def filter_empty_conv dest: nth_mem)

section \<open>The count is exact\<close>

definition gate_inv :: "gate \<Rightarrow> bool" where
  "gate_inv g \<longleftrightarrow> g_count g = of_nat (number counted (g_reqs g))
     \<and> (length (g_reqs g) < 2 ^ 64 \<longrightarrow> (\<forall>M. number (admitted M) (g_reqs g) \<le> unat M))"

lemma access_counts:
  assumes "i < length rs" "phase_step l (of_nat (number counted rs)) (rs ! i) = (c, p)"
  shows "c = of_nat (number counted (rs[i := p]))"
proof -
  note up = number_update [OF assms(1), of counted p]
  have given: "(of_nat (number counted rs) :: u64) - 1 = of_nat n" if "Suc n = number counted rs" for n
    by (simp flip: that)
  show ?thesis
    using assms(2) up by (cases "rs ! i") (auto simp: given split: if_splits)
qed

lemma access_admits:
  assumes "i < length rs" "phase_step l (of_nat (number counted rs)) (rs ! i) = (c, p)"
    and "length rs < 2 ^ 64" "number (admitted M) rs \<le> unat M"
  shows "number (admitted M) (rs[i := p]) \<le> unat M"
proof (cases "admitted M p")
  case False
  with number_update [OF assms(1), of "admitted M" p] assms(4) show ?thesis by simp
next
  case True
  then obtain m where m: "p = Running m" "0 < m" "m \<le> M" by (cases p) auto
  have load: "rs ! i = Loaded m"
    using assms(2) m(1) by (cases "rs ! i") (auto split: if_splits)
  have less: "\<not> m \<le> of_nat (number counted rs)"
    using assms(2) m load by (auto split: if_splits)
  have small: "number counted rs < 2 ^ 64" using number_le [of counted rs] assms(3) by simp
  have "unat (of_nat (number counted rs) :: u64) = number counted rs"
    using small by (simp add: unat_of_nat take_bit_nat_eq_self)
  then have "number counted rs < unat m"
    using less by (simp add: word_le_nat_alt)
  moreover have "number (admitted M) rs \<le> number counted rs"
    by (rule number_mono) (auto elim: admitted.elims)
  moreover have "unat m \<le> unat M" using m(3) by (simp add: word_le_nat_alt)
  ultimately show ?thesis
    using number_update [OF assms(1), of "admitted M" p] load True by simp
qed

lemma gate_inv_step: "gate_step g g' \<Longrightarrow> gate_inv g \<Longrightarrow> gate_inv g'"
proof (induction rule: gate_step.induct)
  case (access i g c p)
  then show ?case
    using access_counts [OF access.hyps(1)] access_admits [OF access.hyps(1)] by (simp add: gate_inv_def)
qed (simp_all add: gate_inv_def)

lemma gate_reach_inv: "gate_reach g \<Longrightarrow> gate_inv g"
proof (induction rule: gate_reach.induct)
  case (later g g')
  then show ?case by (blast intro: gate_inv_step)
qed (simp add: gate_inv_def)

text \<open>
  C5. The limit holds under concurrency: however the accesses of the requests interleave,
  and however often the limit is changed meanwhile, the requests being served that were
  admitted under a limit of at most \<open>M\<close> are never more than \<open>M\<close>, and the count of
  requests in flight is exactly the number of requests that hold one, so that it is zero
  again when all are over (as long as fewer than \<open>2^64\<close> requests have come).
\<close>

theorem concurrency_limit_holds:
  assumes "gate_reach g" "length (g_reqs g) < 2 ^ 64"
  shows "length (filter (admitted M) (g_reqs g)) \<le> unat M
    \<and> unat (g_count g) = length (filter counted (g_reqs g))"
proof -
  have inv: "gate_inv g" by (rule gate_reach_inv [OF assms(1)])
  have "number counted (g_reqs g) < 2 ^ 64" using number_le [of counted "g_reqs g"] assms(2) by simp
  then have "unat (g_count g) = number counted (g_reqs g)"
    using inv by (simp add: gate_inv_def unat_of_nat take_bit_nat_eq_self)
  with inv assms(2) show ?thesis by (simp add: gate_inv_def number_def)
qed

text \<open>Two requests under the limit 1: the first is served, the second is refused.\<close>

definition sample_gate :: gate where
  "sample_gate = \<lparr>g_limit = 1, g_count = 1, g_reqs = [Running 1, Refused]\<rparr>"

lemma gate_access:
  "gate_reach g \<Longrightarrow> i < length (g_reqs g) \<Longrightarrow> phase_step (g_limit g) (g_count g) (g_reqs g ! i) = (c, p)
    \<Longrightarrow> gate_reach (g\<lparr>g_count := c, g_reqs := (g_reqs g)[i := p]\<rparr>)"
  by (blast intro: gate_reach.later gate_step.access)

lemma sample_gate_contended: "gate_reach \<lparr>g_limit = 1, g_count = 2, g_reqs = [Running 1, Refusing]\<rparr>"
proof -
  have "gate_reach \<lparr>g_limit = 1, g_count = 0, g_reqs = []\<rparr>"
    using gate_reach.later [OF gate_reach.start gate_step.limit [of _ 1]] by simp
  from gate_reach.later [OF gate_reach.later [OF this gate_step.arrive] gate_step.arrive]
  have "gate_reach \<lparr>g_limit = 1, g_count = 0, g_reqs = [Arriving, Arriving]\<rparr>" by simp
  from gate_access [OF this, of 0] have "gate_reach \<lparr>g_limit = 1, g_count = 0, g_reqs = [Loaded 1, Arriving]\<rparr>"
    by simp
  from gate_access [OF this, of 1] have "gate_reach \<lparr>g_limit = 1, g_count = 0, g_reqs = [Loaded 1, Loaded 1]\<rparr>"
    by simp
  from gate_access [OF this, of 0] have "gate_reach \<lparr>g_limit = 1, g_count = 1, g_reqs = [Running 1, Loaded 1]\<rparr>"
    by simp
  from gate_access [OF this, of 1] show ?thesis by simp
qed

lemma sample_gate_reach: "gate_reach sample_gate"
  using gate_access [OF sample_gate_contended, of 1] by (simp add: sample_gate_def)

theorem concurrency_limit_holds_witness:
  "length (filter (admitted 1) (g_reqs sample_gate)) \<le> 1
    \<and> filter counted (g_reqs sample_gate) = [Running 1] \<and> unat (g_count sample_gate) = 1"
  using concurrency_limit_holds [OF sample_gate_reach, of 1] by (simp add: sample_gate_def)

text \<open>
  The converse does not hold: a request can be refused while fewer requests than the limit
  are served, because a refused request holds its count until its \<open>fetch_sub\<close>. Here the
  limit is 1, nothing is being served, and the third request is refused.
\<close>

theorem refused_below_limit:
  "\<exists>g. gate_reach g \<and> g_limit g = 1 \<and> g_reqs g = [Finished, Refusing, Refusing]"
proof -
  from gate_access [OF sample_gate_contended, of 0]
  have "gate_reach \<lparr>g_limit = 1, g_count = 1, g_reqs = [Finished, Refusing]\<rparr>" by simp
  from gate_reach.later [OF this gate_step.arrive]
  have "gate_reach \<lparr>g_limit = 1, g_count = 1, g_reqs = [Finished, Refusing, Arriving]\<rparr>" by simp
  from gate_access [OF this, of 2]
  have "gate_reach \<lparr>g_limit = 1, g_count = 1, g_reqs = [Finished, Refusing, Loaded 1]\<rparr>" by simp
  from gate_access [OF this, of 2]
  have "gate_reach \<lparr>g_limit = 1, g_count = 2, g_reqs = [Finished, Refusing, Refusing]\<rparr>" by simp
  then show ?thesis by (intro exI conjI) auto
qed

end
