(* ===== verification/Limited.thy ===== *)
theory Limited
  imports Server
begin

text \<open>
  The rate limit of a route, from the requests to the responses: the requests that reach a
  route one after another are answered as the decisions of its limiter, taken in this
  order, say.
\<close>

section \<open>Requests of one route\<close>

text \<open>The context before and after each request.\<close>

fun route_runs :: "'k frozen_state \<Rightarrow> nat \<Rightarrow> 'k route_entry \<Rightarrow> (scope \<times> path_params) list \<Rightarrow> 'k env \<Rightarrow> 'k ctx
    \<Rightarrow> ('k ctx \<times> 'k ctx) list" where
  "route_runs snap idx entry [] W c = []"
| "route_runs snap idx entry ((sc, ps) # reqs) W c =
     (let c' = snd (run_route snap sc idx entry ps W c) in (c, c') # route_runs snap idx entry reqs W c')"

text \<open>The instant and the key of each request, as its check takes them.\<close>

definition check_times :: "limiter \<Rightarrow> (scope \<times> path_params) list \<Rightarrow> 'k env \<Rightarrow> ('k ctx \<times> 'k ctx) list \<Rightarrow> (nat \<times> string) list" where
  "check_times rl reqs W runs =
     map (\<lambda>((sc, ps), (c, c')). (clock W (tr c), extract_rate_limit_key sc (rl_strategy rl))) (zip reqs runs)"

text \<open>The answer to a denied request.\<close>

definition too_many_reply :: "u64 \<Rightarrow> u64 \<Rightarrow> reply" where
  "too_many_reply limit reset = ResponseBytes 429
     [(''content-type'', ''application/json; charset=utf-8''), (''ratelimit-limit'', show_u64 limit),
      (''ratelimit-remaining'', ''0''), (''ratelimit-reset'', show_u64 reset), (''retry-after'', show_u64 reset)]
     (''{'' @ dquoted ''detail'' @ '':'' @ dquoted ''Too Many Requests'' @ ''}'')"

text \<open>
  A denied request does nothing but answer 429; an allowed one goes on to the first step of
  the body stage, which names the route.
\<close>

fun decided :: "'k route_entry \<Rightarrow> rl_decision \<Rightarrow> 'k ctx \<times> 'k ctx \<Rightarrow> bool" where
  "decided entry (Denied limit reset) (c, c') \<longleftrightarrow>
     app c' = app c \<and> (\<exists>v. tr c' = tr c @ [(Respond (too_many_reply limit reset), v)])"
| "decided entry (Allowed limit remaining reset) (c, c') \<longleftrightarrow>
     (\<exists>v rest. tr c' = tr c @ (SetTemplate (path_template (extra entry)), v) # rest)"

section \<open>One request\<close>

lemma set_template_settled:
  assumes "settles S m"
  shows "\<exists>v rest. tr (snd (ithen (set_template t) m W c)) = tr c @ (SetTemplate t, v) # rest"
proof -
  obtain v where v: "ithen (set_template t) m W c = m W (c\<lparr>tr := tr c @ [(SetTemplate t, v)]\<rparr>)"
    by (simp add: set_template_run)
  obtain rest where "tr (snd (m W (c\<lparr>tr := tr c @ [(SetTemplate t, v)]\<rparr>))) = (tr c @ [(SetTemplate t, v)]) @ rest"
    using assms unfolding settles_def spec_def by (metis ctx.select_convs(1) ctx.surjective ctx.update_convs(1))
  with v show ?thesis by auto
qed

lemma body_stage_starts:
  assumes "\<And>b o1. settles S (k b o1)"
  shows "\<exists>v rest. tr (snd (body_stage sc entry k W c)) = tr c @ (SetTemplate (path_template (extra entry)), v) # rest"
  unfolding body_stage_def read_stage_def
  by (rule set_template_settled [of S])
    (use assms in \<open>auto intro!: settles_silent_bind silent_intros settles_simple_senders
      simp: Let_def split: option.split prod.split\<close>)

lemma respond_none_run:
  "snd (then_none (respond rp) W c) = c\<lparr>tr := tr c @ [(Respond rp, answer W (tr c) (Respond rp))]\<rparr>"
  by (cases "answer W (tr c) (Respond rp)") (simp_all add: then_none_def run_simps)

lemma rate_stage_run:
  assumes "rate_limiter (extra entry) = Some rl"
    and "rl_check (env_rl W) (clock W (tr c)) (extract_rate_limit_key sc (rl_strategy rl)) (lims c idx) = (d, L)"
  shows "rate_stage sc idx entry k W c = (case d of
      Denied limit reset \<Rightarrow> send_429_rate_limited limit reset | Allowed limit remaining reset \<Rightarrow> k)
        W (c\<lparr>lims := (lims c)(idx := L)\<rparr>)"
  using assms by (simp add: rate_stage_def check_limiter_def ishared_def ibind_def split: rl_decision.split)

lemma run_route_decided:
  assumes "rate_limiter (extra entry) = Some rl"
    and "rl_check (env_rl W) (clock W (tr c)) (extract_rate_limit_key sc (rl_strategy rl)) (lims c idx) = (d, L)"
  shows "decided entry d (c, snd (run_route snap sc idx entry ps W c))
    \<and> lims (snd (run_route snap sc idx entry ps W c)) = (lims c)(idx := L)"
proof -
  let ?rest = "body_stage sc entry (\<lambda>body orig. jwt_stage sc entry (\<lambda>claims. ibind (iask env_wire) (\<lambda>W.
    let query = (if wants entry ''query'' then parse_query (w_urldec W) (query_string sc) else []) in
    form_stage snap sc entry body (\<lambda>form. context_stage snap sc entry (\<lambda>ctx.
    dependency_stage snap sc ctx (dependencies (extra entry)) [] (\<lambda>deps. call_stage snap sc entry
        \<lparr>rd_params = ps, rd_query = query, rd_deps = deps, rd_claims = claims,
         rd_body = body, rd_body_py = orig, rd_form = form\<rparr> (response_stage snap sc)))))))"
  let ?c = "c\<lparr>lims := (lims c)(idx := L)\<rparr>"
  have run: "run_route snap sc idx entry ps W c = (case d of
      Denied limit reset \<Rightarrow> send_429_rate_limited limit reset | Allowed limit remaining reset \<Rightarrow> ?rest) W ?c"
    unfolding run_route_def by (rule rate_stage_run [OF assms])
  show ?thesis
  proof (cases d)
    case (Allowed limit remaining reset)
    have "\<exists>v rest. tr (snd (?rest W ?c)) = tr ?c @ (SetTemplate (path_template (extra entry)), v) # rest"
      by (rule body_stage_starts [of False], unfold Let_def, intro settles_jwt settles_silent_bind silent_intros settles_forms
        settles_context settles_dependencies settles_call) (simp add: response_stage_def settles_finish_or_fail)
    moreover have "keeps (\<lambda>l a. l) ?rest"
      unfolding Let_def by (intro keeps_stages keeps_bind keeps_parts keeps_dependencies keeps_response)
    then have "lims (snd (?rest W ?c)) = (lims c)(idx := L)" unfolding keeps_def by simp
    ultimately show ?thesis unfolding run Allowed by simp
  next
    case (Denied limit reset)
    then show ?thesis
      unfolding run by (simp add: send_429_rate_limited_def send_429_rate_limited_sync_def
          respond_none_run too_many_reply_def)
  qed
qed

section \<open>One request after another\<close>

lemma route_runs_decided:
  assumes "rate_limiter (extra entry) = Some rl"
  shows "let runs = route_runs snap idx entry reqs W c
    in list_all2 (decided entry) (fst (rl_run (env_rl W) (check_times rl reqs W runs) (lims c idx))) runs
      \<and> (\<forall>(c1, c2) \<in> set runs. \<forall>i. i \<noteq> idx \<longrightarrow> lims c2 i = lims c i)"
  unfolding Let_def
proof (induction reqs arbitrary: c)
  case (Cons r reqs)
  obtain sc ps where r: "r = (sc, ps)" by fastforce
  let ?c = "snd (run_route snap sc idx entry ps W c)"
  obtain d L where d: "rl_check (env_rl W) (clock W (tr c)) (extract_rate_limit_key sc (rl_strategy rl)) (lims c idx) = (d, L)"
    by fastforce
  note step = run_route_decided [OF assms(1) d, of snap ps]
  have times: "check_times rl (r # reqs) W (route_runs snap idx entry (r # reqs) W c) =
      (clock W (tr c), extract_rate_limit_key sc (rl_strategy rl))
        # check_times rl reqs W (route_runs snap idx entry reqs W ?c)"
    by (simp add: check_times_def r Let_def)
  show ?case
    using Cons.IH [of ?c] step unfolding times by (auto simp: r Let_def d)
qed (simp add: check_times_def)

text \<open>
  C9. A rate limit is enforced from the requests to the responses: the requests that reach
  a limited route, one after another and at whatever instants, are answered as its limiter
  decides on their keys and instants in this order, from the state it has before them.
  Where the decision is to deny, all that happens after the match is one response, with
  status 429, the limit and the seconds to wait in its headers: the body is not read, no
  token is decoded, no dependency and no handler runs, the application state stays as it
  is. (The request middleware runs before the match.) Where the decision is to allow, the
  request goes on to the body stage. The limiters of other routes are untouched.
\<close>

theorem rate_denied_stops:
  assumes "rate_limiter (extra entry) = Some rl"
  shows "let runs = route_runs snap idx entry reqs W c
    in list_all2 (decided entry) (fst (rl_run (env_rl W) (check_times rl reqs W runs) (lims c idx))) runs
      \<and> (\<forall>(c1, c2) \<in> set runs. \<forall>i. i \<noteq> idx \<longrightarrow> lims c2 i = lims c i)"
  by (rule route_runs_decided [OF assms])

lemma length_route_runs: "length (route_runs snap idx entry reqs W c) = length reqs"
  by (induction reqs arbitrary: c) (auto simp: Let_def)

text \<open>
  C37. A burst on a limited route: of the requests of one client that reach the route, one after
  another at one instant, when its limiter is new, the first \<open>limit\<close> go on to the body
  stage; each later one is answered 429 with the configured limit in its header, and that
  response is all that happens.
\<close>

theorem burst_answered_429:
  assumes "rate_limiter (extra entry) = Some rl" "lims c idx = limiter_new cfg"
    and "first_key_ok (env_rl W)" "cfg_window cfg = Fin w" "1 \<le> w" "unat (cfg_limit cfg) \<le> 2 ^ 53"
    and "\<And>h. clock W h = now" "\<And>sc ps. (sc, ps) \<in> set reqs \<Longrightarrow> extract_rate_limit_key sc (rl_strategy rl) = key"
    and "i < length reqs" "route_runs snap idx entry reqs W c ! i = (c1, c2)"
  shows "if i < unat (cfg_limit cfg)
    then \<exists>v rest. tr c2 = tr c1 @ (SetTemplate (path_template (extra entry)), v) # rest
    else \<exists>reset v. tr c2 = tr c1 @ [(Respond (too_many_reply (cfg_limit cfg) reset), v)] \<and> app c2 = app c1"
proof -
  let ?runs = "route_runs snap idx entry reqs W c"
  let ?ds = "fst (rl_run (env_rl W) (replicate (length reqs) (now, key)) (limiter_new cfg))"
  have "check_times rl reqs W ?runs = replicate (length reqs) (now, key)"
    using assms(7,8) by (intro replicate_eqI) (auto simp: check_times_def length_route_runs dest: set_zip_leftD)
  then have all: "list_all2 (decided entry) ?ds ?runs"
    using route_runs_decided [OF assms(1), of snap idx reqs W c] assms(2) by (simp add: Let_def)
  then have len: "length ?ds = length reqs"
    using list_all2_lengthD by (fastforce simp: length_route_runs)
  have dec: "decided entry (?ds ! i) (c1, c2)"
    using list_all2_nthD2 [OF all, of i] assms(9) unfolding assms(10) by (simp add: length_route_runs)
  have "map is_allowed ?ds ! i = (i < unat (cfg_limit cfg))"
    using burst_decisions [OF assms(3-6), of "length reqs" now key] assms(9) by simp
  then have allowed: "is_allowed (?ds ! i) = (i < unat (cfg_limit cfg))" using len assms(9) by simp
  show ?thesis
  proof (cases "?ds ! i")
    case (Denied limit reset)
    then have "limit = cfg_limit cfg"
      using run_denied_limit [of limit reset "env_rl W" _ "limiter_new cfg"] len assms(9)
      by (metis limiter_new_def limiter.select_convs(1) nth_mem)
    with Denied dec allowed show ?thesis by auto
  qed (use dec allowed in auto)
qed

section \<open>Concrete inputs\<close>

lemma sample_limited_key:
  "rate_limiter (extra sample_limited) = Some sample_drained"
  "extract_rate_limit_key (sample_post []) (rl_strategy sample_drained) = ''127.0.0.1''"
  by (simp_all add: sample_limited_def sample_drained_def limiter_new_def extract_rate_limit_key_def
      sample_post_def client_or_local_def scope_client_host_def)

theorem rate_denied_stops_witness:
  "\<exists>c2 reset v. route_runs (snapshot app_state_new) 0 sample_limited [(sample_post [], [])] sample_env
      (sample_ctx\<lparr>lims := \<lambda>_. sample_drained\<rparr>) = [(sample_ctx\<lparr>lims := \<lambda>_. sample_drained\<rparr>, c2)]
    \<and> tr c2 = [(Respond (too_many_reply 1 reset), v)]"
proof -
  let ?c = "sample_ctx\<lparr>lims := \<lambda>_. sample_drained\<rparr>"
  let ?c2 = "snd (run_route (snapshot app_state_new) (sample_post []) 0 sample_limited [] sample_env ?c)"
  obtain reset L where d: "rl_check (env_rl sample_env) 0 ''127.0.0.1'' sample_drained = (Denied 1 reset, L)"
    using sample_denied by blast
  have runs: "route_runs (snapshot app_state_new) 0 sample_limited [(sample_post [], [])] sample_env ?c = [(?c, ?c2)]"
    by (simp add: Let_def)
  have times: "check_times sample_drained [(sample_post [], [])] sample_env [(?c, ?c2)] = [(0, ''127.0.0.1'')]"
    by (simp add: check_times_def sample_limited_key) (simp add: sample_env_def sample_ctx_def)
  have "decided sample_limited (Denied 1 reset) (?c, ?c2)"
    using rate_denied_stops [OF sample_limited_key(1), of "snapshot app_state_new" 0 "[(sample_post [], [])]" sample_env ?c] d
    unfolding runs Let_def times by simp
  then show ?thesis using runs by (auto simp: sample_fields)
qed

theorem burst_answered_429_witness:
  "\<exists>c1 c2 reset v. route_runs (snapshot app_state_new) 0 sample_limited [(sample_post [], []), (sample_post [], [])]
      (sample_env\<lparr>clock := \<lambda>h. 7\<rparr>) sample_ctx ! 1 = (c1, c2)
    \<and> tr c2 = tr c1 @ [(Respond (too_many_reply 1 reset), v)]"
proof -
  let ?W = "sample_env\<lparr>clock := \<lambda>h. 7\<rparr>"
  let ?reqs = "[(sample_post [], []), (sample_post [], [])] :: (scope \<times> path_params) list"
  obtain c1 c2 where run: "route_runs (snapshot app_state_new) 0 sample_limited ?reqs ?W sample_ctx ! 1 = (c1, c2)"
    by fastforce
  have "lims sample_ctx 0 = limiter_new \<lparr>cfg_limit = 1, cfg_window = Fin 60, cfg_strategy = Ip\<rparr>"
    by (simp add: sample_ctx_def)
  moreover have "first_key_ok (env_rl ?W)"
    by (auto simp: first_key_ok_def sample_env_def neq_Nil_conv)
  ultimately have "if 1 < unat (1 :: u64)
      then \<exists>v rest. tr c2 = tr c1 @ (SetTemplate (path_template (extra sample_limited)), v) # rest
      else \<exists>reset v. tr c2 = tr c1 @ [(Respond (too_many_reply 1 reset), v)] \<and> app c2 = app c1"
    using burst_answered_429 [OF sample_limited_key(1), of sample_ctx 0
        "\<lparr>cfg_limit = 1, cfg_window = Fin 60, cfg_strategy = Ip\<rparr>" ?W 60 7 ?reqs "''127.0.0.1''" 1
        "snapshot app_state_new" c1 c2] run sample_limited_key(2) by simp
  with run show ?thesis by auto
qed

end
