(* ===== verification/Spec2Isabelle.thy ===== *)
theory Spec2Isabelle
  imports RateLimitRun Methods Registered Loops Wiring Answered Gate Limited
begin

text \<open>
  OxyRoute is a web framework whose core is a Rust extension module of Python, behind an
  RSGI server. This development models the Rust sources under \<open>src/src/\<close> and proves what
  makes a request be served correctly.

  \<^bold>\<open>The program.\<close> A Python program creates an \<open>App\<close> (\<open>lib.rs\<close>), registers routes, WebSocket
  routes, middleware, exception handlers, CORS and security headers, and hands it to the
  server. The state is an \<open>AppState\<close> (\<open>state.rs\<close>); every change publishes an immutable
  snapshot of it. The server calls \<open>handle_rsgi\<close> for each request. It passes the concurrency
  gate, takes the snapshot, and tries a synchronous short circuit for requests that need
  nothing asynchronous (\<open>dispatch.rs\<close>); otherwise an asynchronous path runs the middleware,
  matches the route, checks the rate limit (\<open>rate_limit.rs\<close>), reads the body
  (\<open>buffer_pool.rs\<close>, \<open>config.rs\<close>), checks the token (\<open>token.rs\<close>), parses forms (\<open>form.rs\<close>),
  resolves the dependencies (\<open>dependency.rs\<close>, \<open>db.rs\<close>), calls the handler with the JSON body
  (\<open>schema.rs\<close>), maps its result to a response, adds the CORS and security headers
  (\<open>cors.rs\<close>, \<open>security_headers.rs\<close>) and writes it (\<open>response.rs\<close>).

  \<^bold>\<open>The theories.\<close>
  \<^item> \<open>Prelude\<close>, \<open>RustStr\<close>, \<open>F64\<close>, \<open>PyObj\<close>, \<open>Json\<close>: what all share. Machine integers are words of
    their width; a string is the list of its UTF-8 bytes, with the operations of the string
    library that the sources call; an \<open>f64\<close> is an IEEE binary64 value (rational, infinity or
    NaN) with rounding to nearest even; a Python value is a \<open>pyobj\<close>. The result of fallible
    code is \<open>Ok\<close>, \<open>Err\<close> or \<open>Panic\<close>.
  \<^item> \<open>Params\<close> (\<open>params.rs\<close>), \<open>RateLimit\<close> and \<open>RateLimitRun\<close> (\<open>rate_limit.rs\<close>), \<open>Token\<close> (\<open>token.rs\<close>),
    \<open>Cors\<close> (\<open>cors.rs\<close>, \<open>security_headers.rs\<close>), \<open>Dependency\<close> and \<open>Loops\<close> (\<open>dependency.rs\<close>), \<open>Schema\<close>
    (\<open>schema.rs\<close>), \<open>Db\<close> (\<open>db.rs\<close>), \<open>Body\<close> (\<open>buffer_pool.rs\<close>, \<open>config.rs\<close>, \<open>form.rs\<close>), over the
    formats of \<open>Wire\<close>: the components that a request passes, one function per function.
  \<^item> \<open>Routing\<close>, \<open>OpenApi\<close>, \<open>App\<close> (\<open>state.rs\<close>, \<open>lib.rs\<close>): the records \<open>app_state\<close>, \<open>frozen_state\<close> and
    \<open>route_entry\<close> with the fields of the code, and every method of the class \<open>App\<close>. \<open>AppInv\<close>
    and \<open>Methods\<close> prove what any sequence of them keeps; \<open>Registered\<close> has the abstract
    specification of the routing and the refinement.
  \<^item> \<open>Io\<close>: the effects of a request. An \<open>action\<close> is a call of something outside (the protocol
    object, a Python callable, the database); an environment answers it from the actions so
    far, so callables may keep state. \<open>('k, 'a) io\<close> runs from a context (log of the actions,
    limiters, application state) to a result. \<open>spec\<close>, \<open>only\<close>, \<open>silent\<close>, \<open>settles\<close>, \<open>yields\<close> and
    \<open>keeps\<close> are the judgements that the proofs compose along the combinators.
  \<^item> \<open>Response\<close>, \<open>HandlerMap\<close>, \<open>ErrorPath\<close>, \<open>Dispatch\<close> (\<open>response.rs\<close>, \<open>dispatch.rs\<close>): the senders, the
    mapping of results, the error path, and both HTTP paths with one definition per stage;
    a stage takes the rest of the request as its continuation, so that an early return is a
    branch that does not call it. \<open>HandlerFacts\<close>, \<open>DispatchFacts\<close>, \<open>Admission\<close>, \<open>FastPath\<close> and
    \<open>Wiring\<close> prove what holds of them; \<open>Samples\<close> has the concrete environment of the witnesses.
  \<^item> \<open>WebSocket\<close> and \<open>WebSocketFacts\<close> (\<open>websocket.rs\<close>, \<open>run_rsgi_websocket\<close>): the connection
    object, the registry of open connections and the dispatch.
  \<^item> \<open>Server\<close>, \<open>Answered\<close>, \<open>Limited\<close> and \<open>Gate\<close> (\<open>handle_rsgi\<close>): the whole request, the requests
    that reach a limited route one after another, and the gate under
    concurrent requests as a step relation over the atomic accesses to its counters.

  \<^bold>\<open>What is proved\<close>, by group.
  \<^item> Requests: every HTTP request is answered exactly once; the short circuit does what the
    general path would do, and calls its handler with exactly the parameters that the router
    found, which fit it where router and registration read the template alike; every request gives its slot back; the limit of requests in
    flight holds under every interleaving.
  \<^item> Admission: a protected handler runs only for a token decoded under its route's key; a
    denied request is answered 429 and an oversized one 413, with nothing else done; a WebSocket handler runs only for an admitted origin;
    keys of different families are never mixed.
  \<^item> State: over any sequence of operations a request is routed to the entry that was
    registered for it, and the published snapshot is consistent, so no index
    is out of range, and a route on the short circuit has nothing that it would skip; the
    methods listed for a path match it; the registry of connections is exact.
  \<^item> Limiter: exact burst (of decisions, and of the responses of a route), bound over any
    interval including the rounding of \<open>f64\<close>, bounded memory, and refinement of a plain map
    by the shards.
  \<^item> Dependencies: the order is correct or a cycle is reported, the sort terminates, and every
    factory is called with the dependencies that it names.
  \<^item> Responses: no header can be split, configured headers are merged as specified; a
    returned value is sent for \<open>HEAD\<close> as for \<open>GET\<close>, without the body; JSON is written as Python
    read it (repeated keys merged); a chunked query groups the rows of the plain one; cookies
    and path integers round-trip.
  \<^item> Some theorems state behaviour that the documentation does not expect: templates that
    conflict across methods, a \<open>NaN\<close> window, cookies lost in response middleware, a stale document, the panic of
    a query with a huge chunk size, parameters that the router names otherwise than the
    registration.

  \<^bold>\<open>Bounds.\<close> No definition uses fuel: every recursion is structural or has a measure, and the
  one \<open>while\<close> loop whose end is not evident is also given without a measure and shown to
  return. Counters that wrap (\<open>next_ws_id\<close>, the count of requests in flight) are words, and a
  theorem that needs them not to wrap says so.

  \<^bold>\<open>Parameters.\<close> What is not in the repository is an argument: the trie of \<open>matchit\<close>
  (\<open>matchit\<close>), \<open>jsonwebtoken\<close> (\<open>jwt_lib\<close>), the parser and the printers of \<open>serde_json\<close>
  (\<open>json_lib\<close> and \<open>wire\<close>), the decoders of forms and URLs, the database driver, the hash of a
  shard, the iteration order of maps, the allocator, and what Python's \<open>inspect\<close> answers (\<open>libs\<close>, \<open>env\<close>). A
  theorem that needs something of them names it as a hypothesis.

  \<^bold>\<open>Limits of the model.\<close> The answers of the environment do not change the application state: a
  Python callable that itself calls methods of the \<open>App\<close> while its request runs (such as
  \<open>shutdown_websockets\<close>), and other requests that run while one awaits, are outside the
  theorems on one request (C13, C21 among them); \<open>Gate\<close> and the registry theorem treat
  interleavings for the counters and the registry. The registration of a WebSocket is one
  step, where the code has an atomic increment and an insert under a lock. The table of all
  templates is built in the order of registration, where the code iterates a \<open>HashMap\<close>. A
  Python \<open>memoryview\<close> is not among the values.

  \<^bold>\<open>Not modelled.\<close> Log messages; the process-wide caches of settings and of imported helpers;
  the scheduling of the coroutines of one WebSocket connection (\<open>oxyroute/_ws.py\<close>), which are
  taken as run to their end; reference counts and the GIL; the texts of the errors that the
  binding library raises on failed conversions; \<open>benches/\<close>, which times functions that are
  modelled here.
\<close>

end
